theory Spec2Isabelle
  imports Main "HOL-Library.Word" "HOL-Library.List_Lexorder" "HOL-Library.Sublist"
begin

section \<open>Bytes, identifiers, errors\<close>

text \<open>
  A shallow embedding of the skycastle graph package (the key/value codec, the
  transaction functions, the cursors and the Graph type) and of the \<open>action\<close>
  binding of the script compiler.

  Keys and values are byte strings, ordered lexicographically by unsigned byte, as
  the ordered key-value store compares them.
\<close>

type_synonym byte = "8 word"
type_synonym bytes = "byte list"

text \<open>
  \<open>uuid.UUID\<close> is the Go array type \<open>[16]byte\<close>; \<open>ActionID\<close> and \<open>ArtifactID\<close> are
  aliases of it.
\<close>

typedef uuid = "{bs :: byte list. length bs = 16}"
  by (rule exI [of _ "replicate 16 0"]) simp

type_synonym ActionID = uuid
type_synonym ArtifactID = uuid
type_synonym ArtifactKind = byte

definition ArtifactKindFile :: ArtifactKind where
  "ArtifactKindFile = 0"

definition ArtifactKindDirectory :: ArtifactKind where
  "ArtifactKindDirectory = 1"

text \<open>
  An element of a tuple of the store's tuple layer. The graph package packs byte
  strings (identifiers) and strings (subspace names) only; \<open>EOther\<close> stands for an
  element of any other type and carries its raw encoding.
\<close>

datatype elem = EBytes bytes | EString bytes | ENil | EOther bytes

text \<open>
  Errors as values. \<open>ErrInvalidTupleLength expected actual\<close> and
  \<open>ErrInvalidElementType expected actual\<close> are the two constructors of errors.go;
  the "not found" errors are the \<open>fmt.Errorf\<close> calls of the transaction functions;
  the others are returned by the libraries the package calls.
\<close>

datatype error =
    ErrInvalidTupleLength nat nat
  | ErrInvalidElementType string elem
  | ErrInvalidUUIDLength nat
  | ErrKeyNotInSubspace
  | ErrTupleUnterminated
  | ErrPrefixRange
  | ErrActionNotFound uuid
  | ErrArtifactNotFound uuid
  | ErrNoProducer uuid
  | ErrStore
  | ErrLibrary nat
  | ErrScript string

section \<open>Records of the codec\<close>

record actionKey =
  action_id :: ActionID

record actionValue =
  action_Label :: string
  action_Command :: string

record artifactKey =
  artifact_id :: ArtifactID

record artifactValue =
  artifact_Label :: string
  artifact_Kind :: ArtifactKind

record actionInputKey =
  input_actionID :: ActionID
  input_artifactID :: ArtifactID

record actionInputValue =
  input_Name :: string

record actionOutputKey =
  output_actionID :: ActionID
  output_artifactID :: ArtifactID

record actionOutputValue =
  output_Name :: string

record artifactProducerKey =
  producer_artifactID :: ArtifactID

record artifactProducerValue =
  producer_ActionID :: ActionID

record artifactConsumerKey =
  consumer_artifactID :: ArtifactID
  consumer_actionID :: ActionID

text \<open>\<open>artifactConsumerValue\<close> is the empty struct: it is modelled by \<open>unit\<close>.\<close>

type_synonym artifactConsumerValue = unit

section \<open>Libraries taken as parameters\<close>

text \<open>
  The package calls libraries whose results are not determined by its own source:
  \<^item> \<open>encoding/gob\<close>: \<open>gob.NewEncoder(&buf).Encode(v)\<close> followed by \<open>buf.Bytes()\<close>,
    and \<open>gob.NewDecoder(buf).Decode(v)\<close> into a zero value, one pair per struct type
    (the bytes depend on type identifiers assigned at run time);
  \<^item> the tuple layer's decoding of an element whose type code is neither nil, byte
    string nor string: \<open>tuple_other\<close> returns the number of bytes such an element
    occupies after its type code, or the decoding error;
  \<^item> \<open>uuid.NewV7\<close>: \<open>uuid_NewV7 E n\<close> is the result of the call number \<open>n\<close>;
  \<^item> \<open>uuid.Parse\<close> and \<open>UUID.String\<close>.
\<close>

record env =
  gob_Encode_actionValue :: "actionValue \<Rightarrow> error + bytes"
  gob_Decode_actionValue :: "bytes \<Rightarrow> error + actionValue"
  gob_Encode_artifactValue :: "artifactValue \<Rightarrow> error + bytes"
  gob_Decode_artifactValue :: "bytes \<Rightarrow> error + artifactValue"
  gob_Encode_actionInputValue :: "actionInputValue \<Rightarrow> error + bytes"
  gob_Decode_actionInputValue :: "bytes \<Rightarrow> error + actionInputValue"
  gob_Encode_actionOutputValue :: "actionOutputValue \<Rightarrow> error + bytes"
  gob_Decode_actionOutputValue :: "bytes \<Rightarrow> error + actionOutputValue"
  gob_Encode_artifactProducerValue :: "artifactProducerValue \<Rightarrow> error + bytes"
  gob_Decode_artifactProducerValue :: "bytes \<Rightarrow> error + artifactProducerValue"
  tuple_other :: "bytes \<Rightarrow> error + nat"
  uuid_NewV7 :: "nat \<Rightarrow> error + uuid"
  uuid_Parse :: "string \<Rightarrow> error + uuid"
  uuid_String :: "uuid \<Rightarrow> string"

section \<open>uuid: binary marshalling\<close>

text \<open>\<open>UUID.MarshalBinary\<close> returns the sixteen bytes and never an error.\<close>

definition MarshalBinary :: "uuid \<Rightarrow> error + bytes" where
  "MarshalBinary u = Inr (Rep_uuid u)"

text \<open>\<open>UUID.UnmarshalBinary\<close> fails unless it is given exactly sixteen bytes.\<close>

definition UnmarshalBinary :: "bytes \<Rightarrow> error + uuid" where
  "UnmarshalBinary data =
     (if length data \<noteq> 16 then Inl (ErrInvalidUUIDLength (length data))
      else Inr (Abs_uuid data))"

section \<open>The tuple layer and subspaces\<close>

text \<open>
  A byte string or string element is its type code (1 or 2), the payload with every
  null byte followed by 255, and a terminating null byte.
\<close>

fun escape :: "bytes \<Rightarrow> bytes" where
  "escape [] = []"
| "escape (b # bs) = (if b = 0 then [0, 255] else [b]) @ escape bs"

fun encodeElem :: "elem \<Rightarrow> bytes" where
  "encodeElem (EBytes p) = 1 # escape p @ [0]"
| "encodeElem (EString p) = 2 # escape p @ [0]"
| "encodeElem ENil = [0]"
| "encodeElem (EOther raw) = raw"

definition tuple_Pack :: "elem list \<Rightarrow> bytes" where
  "tuple_Pack t = concat (map encodeElem t)"

text \<open>
  \<open>takeElem\<close> reads an escaped payload up to its terminator (a null byte not followed
  by 255) and returns the payload and the bytes after the terminator; \<open>None\<close> when
  there is no terminator.
\<close>

fun takeElem :: "bytes \<Rightarrow> (bytes \<times> bytes) option" where
  "takeElem [] = None"
| "takeElem (b # bs) =
     (if b = 0 then
        (case bs of
           [] \<Rightarrow> Some ([], [])
         | c # cs \<Rightarrow>
             if c = 255 then
               (case takeElem cs of None \<Rightarrow> None | Some (p, r) \<Rightarrow> Some (0 # p, r))
             else Some ([], bs))
      else (case takeElem bs of None \<Rightarrow> None | Some (p, r) \<Rightarrow> Some (b # p, r)))"

lemma takeElem_length: "takeElem bs = Some (p, r) \<Longrightarrow> length r \<le> length bs"
proof (induction bs arbitrary: p r rule: takeElem.induct)
  case 1
  then show ?case by simp
next
  case (2 b bs)
  then show ?case
    by (auto split: if_splits list.splits option.splits) fastforce+
qed

function decodeTuple :: "env \<Rightarrow> bytes \<Rightarrow> error + elem list" where
  "decodeTuple E [] = Inr []"
| "decodeTuple E (c # r) =
     (if c = 0 then
        (case decodeTuple E r of Inl e \<Rightarrow> Inl e | Inr t \<Rightarrow> Inr (ENil # t))
      else if c = 1 \<or> c = 2 then
        (case takeElem r of
           None \<Rightarrow> Inl ErrTupleUnterminated
         | Some (p, rest) \<Rightarrow>
             (case decodeTuple E rest of
                Inl e \<Rightarrow> Inl e
              | Inr t \<Rightarrow> Inr ((if c = 1 then EBytes p else EString p) # t)))
      else
        (case tuple_other E (c # r) of
           Inl e \<Rightarrow> Inl e
         | Inr n \<Rightarrow>
             (case decodeTuple E (drop n r) of
                Inl e \<Rightarrow> Inl e
              | Inr t \<Rightarrow> Inr (EOther (c # take n r) # t))))"
  by pat_completeness auto
termination
  by (relation "measure (\<lambda>(E, b). length b)")
     (auto dest: takeElem_length simp: less_Suc_eq_le)

definition tuple_Unpack :: "env \<Rightarrow> bytes \<Rightarrow> error + elem list" where
  "tuple_Unpack E b = decodeTuple E b"

text \<open>
  A subspace is its raw prefix: \<open>subspace.Sub(name)\<close> is the packed one-string tuple.
\<close>

definition Sub :: "string \<Rightarrow> bytes" where
  "Sub name = tuple_Pack [EString (map of_char name)]"

definition subspace_Pack :: "bytes \<Rightarrow> elem list \<Rightarrow> bytes" where
  "subspace_Pack s t = s @ tuple_Pack t"

definition subspace_Unpack :: "env \<Rightarrow> bytes \<Rightarrow> bytes \<Rightarrow> error + elem list" where
  "subspace_Unpack E s key =
     (if \<not> prefix s key then Inl ErrKeyNotInSubspace
      else tuple_Unpack E (drop (length s) key))"

definition action_subspace :: bytes where
  "action_subspace = Sub ''action''"

definition artifact_subspace :: bytes where
  "artifact_subspace = Sub ''artifact''"

definition input_subspace :: bytes where
  "input_subspace = Sub ''input''"

definition output_subspace :: bytes where
  "output_subspace = Sub ''output''"

definition producer_subspace :: bytes where
  "producer_subspace = Sub ''producer''"

definition consumer_subspace :: bytes where
  "consumer_subspace = Sub ''consumer''"

section \<open>Key and value codecs\<close>

subsection \<open>action.go\<close>

definition actionKey_Encode :: "actionKey \<Rightarrow> error + bytes" where
  "actionKey_Encode ak =
     (case MarshalBinary (action_id ak) of
        Inl e \<Rightarrow> Inl e
      | Inr actionIdB \<Rightarrow> Inr (subspace_Pack action_subspace [EBytes actionIdB]))"

definition actionKey_Decode :: "env \<Rightarrow> bytes \<Rightarrow> error + actionKey" where
  "actionKey_Decode E key =
     (case subspace_Unpack E action_subspace key of
        Inl e \<Rightarrow> Inl e
      | Inr t \<Rightarrow>
          if length t \<noteq> 1 then Inl (ErrInvalidTupleLength 1 (length t))
          else (case t ! 0 of
                  EBytes idb \<Rightarrow>
                    (case UnmarshalBinary idb of
                       Inl e \<Rightarrow> Inl e
                     | Inr uuidID \<Rightarrow> Inr \<lparr>action_id = uuidID\<rparr>)
                | el \<Rightarrow> Inl (ErrInvalidElementType ''[]byte'' el)))"

definition actionValue_Encode :: "env \<Rightarrow> actionValue \<Rightarrow> error + bytes" where
  "actionValue_Encode E av =
     (case gob_Encode_actionValue E av of Inl e \<Rightarrow> Inl e | Inr b \<Rightarrow> Inr b)"

definition actionValue_Decode :: "env \<Rightarrow> bytes \<Rightarrow> error + actionValue" where
  "actionValue_Decode E data =
     (case gob_Decode_actionValue E data of Inl e \<Rightarrow> Inl e | Inr av \<Rightarrow> Inr av)"

subsection \<open>The artifact key and value\<close>

definition artifactKey_Encode :: "artifactKey \<Rightarrow> error + bytes" where
  "artifactKey_Encode ak =
     (case MarshalBinary (artifact_id ak) of
        Inl e \<Rightarrow> Inl e
      | Inr artifactIdB \<Rightarrow> Inr (subspace_Pack artifact_subspace [EBytes artifactIdB]))"

definition artifactKey_Decode :: "env \<Rightarrow> bytes \<Rightarrow> error + artifactKey" where
  "artifactKey_Decode E key =
     (case subspace_Unpack E artifact_subspace key of
        Inl e \<Rightarrow> Inl e
      | Inr t \<Rightarrow>
          if length t \<noteq> 1 then Inl (ErrInvalidTupleLength 1 (length t))
          else (case t ! 0 of
                  EBytes idb \<Rightarrow>
                    (case UnmarshalBinary idb of
                       Inl e \<Rightarrow> Inl e
                     | Inr uuidID \<Rightarrow> Inr \<lparr>artifact_id = uuidID\<rparr>)
                | el \<Rightarrow> Inl (ErrInvalidElementType ''[]byte'' el)))"

definition artifactValue_Encode :: "env \<Rightarrow> artifactValue \<Rightarrow> error + bytes" where
  "artifactValue_Encode E av =
     (case gob_Encode_artifactValue E av of Inl e \<Rightarrow> Inl e | Inr b \<Rightarrow> Inr b)"

definition artifactValue_Decode :: "env \<Rightarrow> bytes \<Rightarrow> error + artifactValue" where
  "artifactValue_Decode E data =
     (case gob_Decode_artifactValue E data of Inl e \<Rightarrow> Inl e | Inr av \<Rightarrow> Inr av)"

subsection \<open>actionInput.go\<close>

definition actionInputKey_Encode :: "actionInputKey \<Rightarrow> error + bytes" where
  "actionInputKey_Encode aik =
     (case MarshalBinary (input_actionID aik) of
        Inl e \<Rightarrow> Inl e
      | Inr actionIdB \<Rightarrow>
          (case MarshalBinary (input_artifactID aik) of
             Inl e \<Rightarrow> Inl e
           | Inr artifactIdB \<Rightarrow>
               Inr (subspace_Pack input_subspace [EBytes actionIdB, EBytes artifactIdB])))"

definition actionInputKey_Decode :: "env \<Rightarrow> bytes \<Rightarrow> error + actionInputKey" where
  "actionInputKey_Decode E key =
     (case subspace_Unpack E input_subspace key of
        Inl e \<Rightarrow> Inl e
      | Inr t \<Rightarrow>
          if length t \<noteq> 2 then Inl (ErrInvalidTupleLength 2 (length t))
          else (case t ! 0 of
                  EBytes actionID \<Rightarrow>
                    (case UnmarshalBinary actionID of
                       Inl e \<Rightarrow> Inl e
                     | Inr uuidActionID \<Rightarrow>
                         (case t ! 1 of
                            EBytes artifactID \<Rightarrow>
                              (case UnmarshalBinary artifactID of
                                 Inl e \<Rightarrow> Inl e
                               | Inr uuidArtifactID \<Rightarrow>
                                   Inr \<lparr>input_actionID = uuidActionID,
                                        input_artifactID = uuidArtifactID\<rparr>)
                          | el \<Rightarrow> Inl (ErrInvalidElementType ''[]byte'' el)))
                | el \<Rightarrow> Inl (ErrInvalidElementType ''[]byte'' el)))"

definition actionInputValue_Encode :: "env \<Rightarrow> actionInputValue \<Rightarrow> error + bytes" where
  "actionInputValue_Encode E aiv =
     (case gob_Encode_actionInputValue E aiv of Inl e \<Rightarrow> Inl e | Inr b \<Rightarrow> Inr b)"

definition actionInputValue_Decode :: "env \<Rightarrow> bytes \<Rightarrow> error + actionInputValue" where
  "actionInputValue_Decode E data =
     (case gob_Decode_actionInputValue E data of Inl e \<Rightarrow> Inl e | Inr aiv \<Rightarrow> Inr aiv)"

subsection \<open>The output edge\<close>

definition actionOutputKey_Encode :: "actionOutputKey \<Rightarrow> error + bytes" where
  "actionOutputKey_Encode aok =
     (case MarshalBinary (output_actionID aok) of
        Inl e \<Rightarrow> Inl e
      | Inr actionIdB \<Rightarrow>
          (case MarshalBinary (output_artifactID aok) of
             Inl e \<Rightarrow> Inl e
           | Inr artifactIdB \<Rightarrow>
               Inr (subspace_Pack output_subspace [EBytes actionIdB, EBytes artifactIdB])))"

definition actionOutputKey_Decode :: "env \<Rightarrow> bytes \<Rightarrow> error + actionOutputKey" where
  "actionOutputKey_Decode E key =
     (case subspace_Unpack E output_subspace key of
        Inl e \<Rightarrow> Inl e
      | Inr t \<Rightarrow>
          if length t \<noteq> 2 then Inl (ErrInvalidTupleLength 2 (length t))
          else (case t ! 0 of
                  EBytes actionID \<Rightarrow>
                    (case UnmarshalBinary actionID of
                       Inl e \<Rightarrow> Inl e
                     | Inr uuidActionID \<Rightarrow>
                         (case t ! 1 of
                            EBytes artifactID \<Rightarrow>
                              (case UnmarshalBinary artifactID of
                                 Inl e \<Rightarrow> Inl e
                               | Inr uuidArtifactID \<Rightarrow>
                                   Inr \<lparr>output_actionID = uuidActionID,
                                        output_artifactID = uuidArtifactID\<rparr>)
                          | el \<Rightarrow> Inl (ErrInvalidElementType ''[]byte'' el)))
                | el \<Rightarrow> Inl (ErrInvalidElementType ''[]byte'' el)))"

definition actionOutputValue_Encode :: "env \<Rightarrow> actionOutputValue \<Rightarrow> error + bytes" where
  "actionOutputValue_Encode E aov =
     (case gob_Encode_actionOutputValue E aov of Inl e \<Rightarrow> Inl e | Inr b \<Rightarrow> Inr b)"

definition actionOutputValue_Decode :: "env \<Rightarrow> bytes \<Rightarrow> error + actionOutputValue" where
  "actionOutputValue_Decode E data =
     (case gob_Decode_actionOutputValue E data of Inl e \<Rightarrow> Inl e | Inr aov \<Rightarrow> Inr aov)"

subsection \<open>The producer index\<close>

definition artifactProducerKey_Encode :: "artifactProducerKey \<Rightarrow> error + bytes" where
  "artifactProducerKey_Encode apk =
     (case MarshalBinary (producer_artifactID apk) of
        Inl e \<Rightarrow> Inl e
      | Inr artifactIdB \<Rightarrow> Inr (subspace_Pack producer_subspace [EBytes artifactIdB]))"

definition artifactProducerKey_Decode :: "env \<Rightarrow> bytes \<Rightarrow> error + artifactProducerKey" where
  "artifactProducerKey_Decode E key =
     (case subspace_Unpack E producer_subspace key of
        Inl e \<Rightarrow> Inl e
      | Inr t \<Rightarrow>
          if length t \<noteq> 1 then Inl (ErrInvalidTupleLength 1 (length t))
          else (case t ! 0 of
                  EBytes artifactID \<Rightarrow>
                    (case UnmarshalBinary artifactID of
                       Inl e \<Rightarrow> Inl e
                     | Inr uuidArtifactID \<Rightarrow> Inr \<lparr>producer_artifactID = uuidArtifactID\<rparr>)
                | el \<Rightarrow> Inl (ErrInvalidElementType ''[]byte'' el)))"

definition artifactProducerValue_Encode :: "env \<Rightarrow> artifactProducerValue \<Rightarrow> error + bytes" where
  "artifactProducerValue_Encode E apv =
     (case gob_Encode_artifactProducerValue E apv of Inl e \<Rightarrow> Inl e | Inr b \<Rightarrow> Inr b)"

definition artifactProducerValue_Decode :: "env \<Rightarrow> bytes \<Rightarrow> error + artifactProducerValue" where
  "artifactProducerValue_Decode E data =
     (case gob_Decode_artifactProducerValue E data of Inl e \<Rightarrow> Inl e | Inr apv \<Rightarrow> Inr apv)"

subsection \<open>artifactConsumer.go\<close>

definition artifactConsumerKey_Encode :: "artifactConsumerKey \<Rightarrow> error + bytes" where
  "artifactConsumerKey_Encode ack =
     (case MarshalBinary (consumer_artifactID ack) of
        Inl e \<Rightarrow> Inl e
      | Inr artifactIdB \<Rightarrow>
          (case MarshalBinary (consumer_actionID ack) of
             Inl e \<Rightarrow> Inl e
           | Inr actionIdB \<Rightarrow>
               Inr (subspace_Pack consumer_subspace [EBytes artifactIdB, EBytes actionIdB])))"

definition artifactConsumerKey_Decode :: "env \<Rightarrow> bytes \<Rightarrow> error + artifactConsumerKey" where
  "artifactConsumerKey_Decode E key =
     (case subspace_Unpack E consumer_subspace key of
        Inl e \<Rightarrow> Inl e
      | Inr t \<Rightarrow>
          if length t \<noteq> 2 then Inl (ErrInvalidTupleLength 2 (length t))
          else (case t ! 0 of
                  EBytes artifactID \<Rightarrow>
                    (case UnmarshalBinary artifactID of
                       Inl e \<Rightarrow> Inl e
                     | Inr uuidArtifactID \<Rightarrow>
                         (case t ! 1 of
                            EBytes actionID \<Rightarrow>
                              (case UnmarshalBinary actionID of
                                 Inl e \<Rightarrow> Inl e
                               | Inr uuidActionID \<Rightarrow>
                                   Inr \<lparr>consumer_artifactID = uuidArtifactID,
                                        consumer_actionID = uuidActionID\<rparr>)
                          | el \<Rightarrow> Inl (ErrInvalidElementType ''uuid.UUID'' el)))
                | el \<Rightarrow> Inl (ErrInvalidElementType ''[]byte'' el)))"

text \<open>The consumer value is an existence marker: no payload is written, none is read.\<close>

definition artifactConsumerValue_Encode :: "artifactConsumerValue \<Rightarrow> error + bytes" where
  "artifactConsumerValue_Encode acv = Inr []"

definition artifactConsumerValue_Decode :: "bytes \<Rightarrow> error + artifactConsumerValue" where
  "artifactConsumerValue_Decode data = Inr ()"

subsection \<open>Prefix ranges of the edge keys\<close>

text \<open>
  \<open>fdb.Strinc\<close> drops the trailing 255 bytes of a key and increments its last byte;
  it fails on a key with no byte other than 255. \<open>fdb.PrefixRange p\<close> is the range
  from \<open>p\<close> (included) to \<open>Strinc p\<close> (excluded).
\<close>

definition Strinc :: "bytes \<Rightarrow> error + bytes" where
  "Strinc p =
     (let s = rev (dropWhile (\<lambda>b. b = 255) (rev p))
      in if s = [] then Inl ErrPrefixRange else Inr (butlast s @ [last s + 1]))"

definition PrefixRange :: "bytes \<Rightarrow> error + (bytes \<times> bytes)" where
  "PrefixRange p = (case Strinc p of Inl e \<Rightarrow> Inl e | Inr e \<Rightarrow> Inr (p, e))"

definition actionInputRange :: "ActionID \<Rightarrow> error + (bytes \<times> bytes)" where
  "actionInputRange actionID =
     (case MarshalBinary actionID of
        Inl e \<Rightarrow> Inl e
      | Inr actionIdB \<Rightarrow>
          (case PrefixRange (subspace_Pack input_subspace [EBytes actionIdB]) of
             Inl e \<Rightarrow> Inl e
           | Inr prefixRange \<Rightarrow> Inr prefixRange))"


definition artifactConsumerRange :: "ArtifactID \<Rightarrow> error + (bytes \<times> bytes)" where
  "artifactConsumerRange artifactID =
     (case MarshalBinary artifactID of
        Inl e \<Rightarrow> Inl e
      | Inr artifactIdB \<Rightarrow>
          (case PrefixRange (subspace_Pack consumer_subspace [EBytes artifactIdB]) of
             Inl e \<Rightarrow> Inl e
           | Inr prefixRange \<Rightarrow> Inr prefixRange))"

section \<open>The transactional store\<close>

text \<open>
  The database is represented by what has been committed to it: \<open>journal\<close> is the
  list of committed write transactions, oldest first, each the list of its
  \<open>Set\<close> calls in program order. The contents \<open>kv\<close> are the writes, latest first:
  a point read returns the latest value written to the key, a range read returns
  the keys of the range in ascending order, each once, with its latest value.

  \<open>clock\<close> counts the calls of \<open>uuid.NewV7\<close>. \<open>answers\<close> is the store's answer to the
  coming transaction attempts (none left: the attempt commits): \<open>Conflict\<close> is a
  retryable store error, after which \<open>Database.Transact\<close> runs the function again,
  \<open>Failed\<close> a store error that it returns.
\<close>

type_synonym store = "(bytes \<times> bytes) list"

datatype outcome = Committed | Conflict | Failed

record world =
  journal :: "(bytes \<times> bytes) list list"
  clock :: nat
  answers :: "outcome list"

definition kv :: "world \<Rightarrow> store" where
  "kv w = rev (concat (journal w))"

text \<open>
  A transaction reads its snapshot through its own writes. \<open>tclock\<close> is the clock of
  \<open>uuid.NewV7\<close>, which a transaction that is rolled back has advanced all the same.
\<close>

record txn =
  tsnap :: store
  twrites :: "(bytes \<times> bytes) list"
  tclock :: nat

definition txn_kv :: "txn \<Rightarrow> store" where
  "txn_kv t = rev (twrites t) @ tsnap t"

definition tr_Set :: "bytes \<Rightarrow> bytes \<Rightarrow> txn \<Rightarrow> txn" where
  "tr_Set key val t = t\<lparr>twrites := twrites t @ [(key, val)]\<rparr>"

definition tr_Get :: "bytes \<Rightarrow> txn \<Rightarrow> bytes option" where
  "tr_Get key t = map_of (txn_kv t) key"

definition kv_range :: "bytes \<times> bytes \<Rightarrow> store \<Rightarrow> (bytes \<times> bytes) list" where
  "kv_range r s =
     map (\<lambda>k. (k, the (map_of s k)))
       (sort (remdups (filter (\<lambda>k. fst r \<le> k \<and> k < snd r) (map fst s))))"

definition tr_GetRange :: "bytes \<times> bytes \<Rightarrow> txn \<Rightarrow> (bytes \<times> bytes) list" where
  "tr_GetRange r t = kv_range r (txn_kv t)"

text \<open>
  \<open>Transaction.Transact\<close> and \<open>Transaction.ReadTransact\<close> run the function in the
  transaction they are called on; nothing is committed there.
\<close>

definition tr_Transact :: "(txn \<Rightarrow> (error + 'a) \<times> txn) \<Rightarrow> txn \<Rightarrow> (error + 'a) \<times> txn" where
  "tr_Transact f t = f t"

definition tr_ReadTransact :: "(txn \<Rightarrow> error + 'a) \<Rightarrow> txn \<Rightarrow> error + 'a" where
  "tr_ReadTransact f t = f t"

definition begin_txn :: "world \<Rightarrow> txn" where
  "begin_txn w = \<lparr>tsnap = kv w, twrites = [], tclock = clock w\<rparr>"

text \<open>
  \<open>Database.Transact\<close>: an error of the function is returned and nothing is
  committed; otherwise the writes are committed together, or the attempt is repeated
  or fails as the store decides.
\<close>

function db_Transact :: "(txn \<Rightarrow> (error + 'a) \<times> txn) \<Rightarrow> world \<Rightarrow> (error + 'a) \<times> world" where
  "db_Transact f w =
     (case f (begin_txn w) of
        (Inl e, t) \<Rightarrow> (Inl e, w\<lparr>clock := tclock t\<rparr>)
      | (Inr r, t) \<Rightarrow>
          (case answers w of
             [] \<Rightarrow> (Inr r, w\<lparr>journal := journal w @ [twrites t], clock := tclock t\<rparr>)
           | Committed # os \<Rightarrow>
               (Inr r, w\<lparr>journal := journal w @ [twrites t], clock := tclock t, answers := os\<rparr>)
           | Conflict # os \<Rightarrow> db_Transact f (w\<lparr>clock := tclock t, answers := os\<rparr>)
           | Failed # os \<Rightarrow> (Inl ErrStore, w\<lparr>clock := tclock t, answers := os\<rparr>)))"
  by pat_completeness auto
termination
  by (relation "measure (\<lambda>(f, w). length (answers w))") auto

declare db_Transact.simps [simp del]

text \<open>\<open>Database.ReadTransact\<close>: the same loop around a function that only reads.\<close>

function db_ReadTransact :: "(txn \<Rightarrow> error + 'a) \<Rightarrow> world \<Rightarrow> (error + 'a) \<times> world" where
  "db_ReadTransact f w =
     (case f (begin_txn w) of
        Inl e \<Rightarrow> (Inl e, w)
      | Inr r \<Rightarrow>
          (case answers w of
             [] \<Rightarrow> (Inr r, w)
           | Committed # os \<Rightarrow> (Inr r, w\<lparr>answers := os\<rparr>)
           | Conflict # os \<Rightarrow> db_ReadTransact f (w\<lparr>answers := os\<rparr>)
           | Failed # os \<Rightarrow> (Inl ErrStore, w\<lparr>answers := os\<rparr>)))"
  by pat_completeness auto
termination
  by (relation "measure (\<lambda>(f, w). length (answers w))") auto

declare db_ReadTransact.simps [simp del]

section \<open>Cursors\<close>

text \<open>
  A cursor is the decoded key and value of an entity. Its \<open>db\<close> field is the one
  database of the model and is not represented.
\<close>

record actionCursor =
  ac_key :: actionKey
  ac_value :: actionValue

record artifactCursor =
  art_key :: artifactKey
  art_value :: artifactValue

definition actionCursor_Id :: "actionCursor \<Rightarrow> ActionID" where
  "actionCursor_Id ac = action_id (ac_key ac)"

definition actionCursor_Label :: "actionCursor \<Rightarrow> string" where
  "actionCursor_Label ac = action_Label (ac_value ac)"

definition actionCursor_Command :: "actionCursor \<Rightarrow> string" where
  "actionCursor_Command ac = action_Command (ac_value ac)"

definition artifactCursor_Id :: "artifactCursor \<Rightarrow> ArtifactID" where
  "artifactCursor_Id ac = artifact_id (art_key ac)"

definition artifactCursor_Label :: "artifactCursor \<Rightarrow> string" where
  "artifactCursor_Label ac = artifact_Label (art_value ac)"

definition artifactCursor_Kind :: "artifactCursor \<Rightarrow> ArtifactKind" where
  "artifactCursor_Kind ac = artifact_Kind (art_value ac)"

section \<open>The transaction functions\<close>

subsection \<open>Entities\<close>

definition addActionTransaction ::
  "env \<Rightarrow> string \<Rightarrow> string \<Rightarrow> txn \<Rightarrow> (error + actionCursor) \<times> txn" where
  "addActionTransaction E label command t =
     tr_Transact (\<lambda>tr.
       let tr1 = tr\<lparr>tclock := Suc (tclock tr)\<rparr> in
       case uuid_NewV7 E (tclock tr) of
         Inl e \<Rightarrow> (Inl e, tr1)
       | Inr newid \<Rightarrow>
           let ak = \<lparr>action_id = newid\<rparr>;
               av = \<lparr>action_Label = label, action_Command = command\<rparr>
           in (case actionKey_Encode ak of
                 Inl e \<Rightarrow> (Inl e, tr1)
               | Inr key \<Rightarrow>
                   (case actionValue_Encode E av of
                      Inl e \<Rightarrow> (Inl e, tr1)
                    | Inr val \<Rightarrow>
                        (Inr \<lparr>ac_key = ak, ac_value = av\<rparr>, tr_Set key val tr1)))) t"

definition actionTransaction :: "env \<Rightarrow> ActionID \<Rightarrow> txn \<Rightarrow> error + actionCursor" where
  "actionTransaction E aid t =
     tr_ReadTransact (\<lambda>tr.
       let ak = \<lparr>action_id = aid\<rparr> in
       case actionKey_Encode ak of
         Inl e \<Rightarrow> Inl e
       | Inr key \<Rightarrow>
           (case tr_Get key tr of
              None \<Rightarrow> Inl (ErrActionNotFound aid)
            | Some data \<Rightarrow>
                (case actionValue_Decode E data of
                   Inl e \<Rightarrow> Inl e
                 | Inr av \<Rightarrow> Inr \<lparr>ac_key = ak, ac_value = av\<rparr>))) t"

definition addArtifactTransaction ::
  "env \<Rightarrow> string \<Rightarrow> ArtifactKind \<Rightarrow> txn \<Rightarrow> (error + artifactCursor) \<times> txn" where
  "addArtifactTransaction E label kind t =
     tr_Transact (\<lambda>tr.
       let tr1 = tr\<lparr>tclock := Suc (tclock tr)\<rparr> in
       case uuid_NewV7 E (tclock tr) of
         Inl e \<Rightarrow> (Inl e, tr1)
       | Inr newid \<Rightarrow>
           let ak = \<lparr>artifact_id = newid\<rparr>;
               av = \<lparr>artifact_Label = label, artifact_Kind = kind\<rparr>
           in (case artifactKey_Encode ak of
                 Inl e \<Rightarrow> (Inl e, tr1)
               | Inr key \<Rightarrow>
                   (case artifactValue_Encode E av of
                      Inl e \<Rightarrow> (Inl e, tr1)
                    | Inr val \<Rightarrow>
                        (Inr \<lparr>art_key = ak, art_value = av\<rparr>, tr_Set key val tr1)))) t"

definition artifactTransaction :: "env \<Rightarrow> ArtifactID \<Rightarrow> txn \<Rightarrow> error + artifactCursor" where
  "artifactTransaction E aid t =
     tr_ReadTransact (\<lambda>tr.
       let ak = \<lparr>artifact_id = aid\<rparr> in
       case artifactKey_Encode ak of
         Inl e \<Rightarrow> Inl e
       | Inr key \<Rightarrow>
           (case tr_Get key tr of
              None \<Rightarrow> Inl (ErrArtifactNotFound aid)
            | Some data \<Rightarrow>
                (case artifactValue_Decode E data of
                   Inl e \<Rightarrow> Inl e
                 | Inr av \<Rightarrow> Inr \<lparr>art_key = ak, art_value = av\<rparr>))) t"

subsection \<open>Enumeration of the actions\<close>



subsection \<open>Edges of an action\<close>

fun inputs_loop ::
  "env \<Rightarrow> txn \<Rightarrow> (bytes \<times> bytes) list \<Rightarrow> (string \<rightharpoonup> artifactCursor) \<Rightarrow>
     error + (string \<rightharpoonup> artifactCursor)" where
  "inputs_loop E t [] inputs = Inr inputs"
| "inputs_loop E t (kvp # it) inputs =
     (case actionInputKey_Decode E (fst kvp) of
        Inl e \<Rightarrow> Inl e
      | Inr aik \<Rightarrow>
          (case actionInputValue_Decode E (snd kvp) of
             Inl e \<Rightarrow> Inl e
           | Inr aiv \<Rightarrow>
               (case artifactTransaction E (input_artifactID aik) t of
                  Inl e \<Rightarrow> Inl e
                | Inr artifactCursor \<Rightarrow>
                    inputs_loop E t it (inputs(input_Name aiv \<mapsto> artifactCursor)))))"

definition actionInputsTransaction ::
  "env \<Rightarrow> actionCursor \<Rightarrow> txn \<Rightarrow> error + (string \<rightharpoonup> artifactCursor)" where
  "actionInputsTransaction E action t =
     tr_ReadTransact (\<lambda>tr.
       case actionInputRange (actionCursor_Id action) of
         Inl e \<Rightarrow> Inl e
       | Inr prefixRange \<Rightarrow> inputs_loop E t (tr_GetRange prefixRange tr) Map.empty) t"



definition addActionInputTransaction ::
  "env \<Rightarrow> actionCursor \<Rightarrow> string \<Rightarrow> artifactCursor \<Rightarrow> txn \<Rightarrow> (error + unit) \<times> txn" where
  "addActionInputTransaction E action name artifact t =
     tr_Transact (\<lambda>tr.
       let aik = \<lparr>input_actionID = actionCursor_Id action,
                  input_artifactID = artifact_id (art_key artifact)\<rparr>;
           aiv = \<lparr>input_Name = name\<rparr>
       in case actionInputKey_Encode aik of
            Inl e \<Rightarrow> (Inl e, tr)
          | Inr key \<Rightarrow>
              (case actionInputValue_Encode E aiv of
                 Inl e \<Rightarrow> (Inl e, tr)
               | Inr val \<Rightarrow>
                   let tr1 = tr_Set key val tr;
                       ack = \<lparr>consumer_artifactID = artifact_id (art_key artifact),
                              consumer_actionID = actionCursor_Id action\<rparr>;
                       acv = ()
                   in (case artifactConsumerKey_Encode ack of
                         Inl e \<Rightarrow> (Inl e, tr1)
                       | Inr key2 \<Rightarrow>
                           (case artifactConsumerValue_Encode acv of
                              Inl e \<Rightarrow> (Inl e, tr1)
                            | Inr val2 \<Rightarrow> (Inr (), tr_Set key2 val2 tr1))))) t"

definition addActionOutputTransaction ::
  "env \<Rightarrow> actionCursor \<Rightarrow> string \<Rightarrow> string \<Rightarrow> ArtifactKind \<Rightarrow> txn \<Rightarrow>
     (error + artifactCursor) \<times> txn" where
  "addActionOutputTransaction E action name label kind t =
     (case addArtifactTransaction E label kind t of
        (Inl e, t1) \<Rightarrow> (Inl e, t1)
      | (Inr artifact, t1) \<Rightarrow>
          tr_Transact (\<lambda>tr.
            let aok = \<lparr>output_actionID = actionCursor_Id action,
                       output_artifactID = artifact_id (art_key artifact)\<rparr>;
                aov = \<lparr>output_Name = name\<rparr>
            in case actionOutputKey_Encode aok of
                 Inl e \<Rightarrow> (Inl e, tr)
               | Inr key \<Rightarrow>
                   (case actionOutputValue_Encode E aov of
                      Inl e \<Rightarrow> (Inl e, tr)
                    | Inr val \<Rightarrow>
                        let tr1 = tr_Set key val tr;
                            apk = \<lparr>producer_artifactID = artifact_id (art_key artifact)\<rparr>;
                            apv = \<lparr>producer_ActionID = actionCursor_Id action\<rparr>
                        in (case artifactProducerKey_Encode apk of
                              Inl e \<Rightarrow> (Inl e, tr1)
                            | Inr key2 \<Rightarrow>
                                (case artifactProducerValue_Encode E apv of
                                   Inl e \<Rightarrow> (Inl e, tr1)
                                 | Inr val2 \<Rightarrow> (Inr artifact, tr_Set key2 val2 tr1))))) t1)"

subsection \<open>Edges of an artifact\<close>

definition artifactProducerTransaction ::
  "env \<Rightarrow> artifactCursor \<Rightarrow> txn \<Rightarrow> error + actionCursor" where
  "artifactProducerTransaction E artifact t =
     (case tr_ReadTransact (\<lambda>tr.
             let apk = \<lparr>producer_artifactID = artifactCursor_Id artifact\<rparr> in
             case artifactProducerKey_Encode apk of
               Inl e \<Rightarrow> Inl e
             | Inr key \<Rightarrow>
                 (case tr_Get key tr of
                    None \<Rightarrow> Inl (ErrNoProducer (artifactCursor_Id artifact))
                  | Some data \<Rightarrow>
                      (case artifactProducerValue_Decode E data of
                         Inl e \<Rightarrow> Inl e
                       | Inr apv \<Rightarrow> Inr (producer_ActionID apv)))) t of
        Inl e \<Rightarrow> Inl e
      | Inr actionID \<Rightarrow> actionTransaction E actionID t)"

fun consumers_loop ::
  "env \<Rightarrow> txn \<Rightarrow> (bytes \<times> bytes) list \<Rightarrow> actionCursor list \<Rightarrow> error + actionCursor list" where
  "consumers_loop E t [] actions = Inr actions"
| "consumers_loop E t (kvp # it) actions =
     (case artifactConsumerKey_Decode E (fst kvp) of
        Inl e \<Rightarrow> Inl e
      | Inr ack \<Rightarrow>
          (case actionTransaction E (consumer_actionID ack) t of
             Inl e \<Rightarrow> Inl e
           | Inr actionCursor \<Rightarrow> consumers_loop E t it (actions @ [actionCursor])))"

definition artifactConsumersTransaction ::
  "env \<Rightarrow> artifactCursor \<Rightarrow> txn \<Rightarrow> error + actionCursor list" where
  "artifactConsumersTransaction E artifact t =
     tr_ReadTransact (\<lambda>tr.
       case artifactConsumerRange (artifactCursor_Id artifact) of
         Inl e \<Rightarrow> Inl e
       | Inr pre \<Rightarrow> consumers_loop E t (tr_GetRange pre tr) []) t"

section \<open>The Graph type and the cursor methods\<close>

definition Graph_AddAction ::
  "env \<Rightarrow> string \<Rightarrow> string \<Rightarrow> world \<Rightarrow> (error + actionCursor) \<times> world" where
  "Graph_AddAction E label command w =
     db_Transact (\<lambda>tr. addActionTransaction E label command tr) w"

definition Graph_Action :: "env \<Rightarrow> ActionID \<Rightarrow> world \<Rightarrow> (error + actionCursor) \<times> world" where
  "Graph_Action E aid w = db_ReadTransact (\<lambda>tr. actionTransaction E aid tr) w"


definition Graph_AddArtifact ::
  "env \<Rightarrow> string \<Rightarrow> ArtifactKind \<Rightarrow> world \<Rightarrow> (error + artifactCursor) \<times> world" where
  "Graph_AddArtifact E label kind w =
     db_Transact (\<lambda>tr. addArtifactTransaction E label kind tr) w"

definition Graph_GetArtifact ::
  "env \<Rightarrow> ArtifactID \<Rightarrow> world \<Rightarrow> (error + artifactCursor) \<times> world" where
  "Graph_GetArtifact E aid w = db_ReadTransact (\<lambda>tr. artifactTransaction E aid tr) w"

definition actionCursor_Inputs ::
  "env \<Rightarrow> actionCursor \<Rightarrow> world \<Rightarrow> (error + (string \<rightharpoonup> artifactCursor)) \<times> world" where
  "actionCursor_Inputs E ac w = db_ReadTransact (\<lambda>rt. actionInputsTransaction E ac rt) w"


definition actionCursor_AddInput ::
  "env \<Rightarrow> actionCursor \<Rightarrow> string \<Rightarrow> artifactCursor \<Rightarrow> world \<Rightarrow> (error + unit) \<times> world" where
  "actionCursor_AddInput E ac name artifact w =
     db_Transact (\<lambda>tr. addActionInputTransaction E ac name artifact tr) w"

definition actionCursor_AddOutput ::
  "env \<Rightarrow> actionCursor \<Rightarrow> string \<Rightarrow> string \<Rightarrow> ArtifactKind \<Rightarrow> world \<Rightarrow>
     (error + artifactCursor) \<times> world" where
  "actionCursor_AddOutput E ac name label kind w =
     db_Transact (\<lambda>tr. addActionOutputTransaction E ac name label kind tr) w"

definition artifactCursor_Producer ::
  "env \<Rightarrow> artifactCursor \<Rightarrow> world \<Rightarrow> (error + actionCursor) \<times> world" where
  "artifactCursor_Producer E ac w =
     db_ReadTransact (\<lambda>rt. artifactProducerTransaction E ac rt) w"

definition artifactCursor_Consumers ::
  "env \<Rightarrow> artifactCursor \<Rightarrow> world \<Rightarrow> (error + actionCursor list) \<times> world" where
  "artifactCursor_Consumers E ac w =
     db_ReadTransact (\<lambda>rt. artifactConsumersTransaction E ac rt) w"

section \<open>The script bindings\<close>

text \<open>
  Values of the script language, as far as the bindings look at them: strings,
  integers, dictionaries (in insertion order) and the struct that \<open>action\<close> returns.
\<close>

datatype svalue =
    SString string
  | SInt int
  | SNone
  | SDict "(svalue \<times> svalue) list"
  | SStruct string "(string \<times> svalue) list"
  | SOther nat

definition file_builtin :: "svalue list \<Rightarrow> (string \<times> svalue) list \<Rightarrow> error + svalue" where
  "file_builtin args kwargs =
     (if length args > 0 \<or> length kwargs > 0
      then Inl (ErrScript ''file does not accept arguments'')
      else Inr (SInt (uint ArtifactKindFile)))"

definition dir_builtin :: "svalue list \<Rightarrow> (string \<times> svalue) list \<Rightarrow> error + svalue" where
  "dir_builtin args kwargs =
     (if length args > 0 \<or> length kwargs > 0
      then Inl (ErrScript ''dir does not accept arguments'')
      else Inr (SInt (uint ArtifactKindDirectory)))"

text \<open>
  (\<open>file_builtin\<close> and \<open>dir_builtin\<close> are the source's \<open>file\<close> and \<open>dir\<close>.)
  \<open>Dict.SetKey\<close>: the value of a key that is present is replaced in place.\<close>

fun dict_SetKey :: "svalue \<Rightarrow> svalue \<Rightarrow> (svalue \<times> svalue) list \<Rightarrow> (svalue \<times> svalue) list" where
  "dict_SetKey k v [] = [(k, v)]"
| "dict_SetKey k v (kvp # d) =
     (if fst kvp = k then (k, v) # d else kvp # dict_SetKey k v d)"

text \<open>
  The loop over \<open>inputs.Iterate()\<close>. The result of \<open>action.AddInput\<close> is not looked
  at: the loop goes on with the next key.
\<close>

fun action_inputs ::
  "env \<Rightarrow> actionCursor \<Rightarrow> (svalue \<times> svalue) list \<Rightarrow> svalue list \<Rightarrow> world \<Rightarrow>
     (error + unit) \<times> world" where
  "action_inputs E action inputs [] w = (Inr (), w)"
| "action_inputs E action inputs (key # iter) w =
     (case key of
        SString name \<Rightarrow>
          (case map_of inputs key of
             None \<Rightarrow> (Inl (ErrScript ''input key not found''), w)
           | Some val \<Rightarrow>
               (case val of
                  SString artifactIdS \<Rightarrow>
                    (case uuid_Parse E artifactIdS of
                       Inl e \<Rightarrow> (Inl (ErrScript ''invalid UUID''), w)
                     | Inr artifactId \<Rightarrow>
                         (case Graph_GetArtifact E artifactId w of
                            (Inl e, w1) \<Rightarrow> (Inl (ErrScript ''input artifact not found''), w1)
                          | (Inr artifact, w1) \<Rightarrow>
                              action_inputs E action inputs iter
                                (snd (actionCursor_AddInput E action name artifact w1))))
                | _ \<Rightarrow> (Inl (ErrScript ''input value is not a string''), w)))
      | _ \<Rightarrow> (Inl (ErrScript ''input names must be strings''), w))"

text \<open>
  The loop over \<open>outputs.Iterate()\<close>. \<open>label\<close> is the \<open>name\<close> argument of the action;
  the conversion \<open>graph.ArtifactKind(artifactTypeInt64)\<close> keeps the low eight bits.
\<close>

fun action_outputs ::
  "env \<Rightarrow> actionCursor \<Rightarrow> string \<Rightarrow> (svalue \<times> svalue) list \<Rightarrow> svalue list \<Rightarrow>
     (svalue \<times> svalue) list \<Rightarrow> world \<Rightarrow> (error + (svalue \<times> svalue) list) \<times> world" where
  "action_outputs E action label outputs [] outputArtifactsDict w =
     (Inr outputArtifactsDict, w)"
| "action_outputs E action label outputs (key # iter) outputArtifactsDict w =
     (case key of
        SString name \<Rightarrow>
          (case map_of outputs key of
             None \<Rightarrow> (Inl (ErrScript ''output key not found''), w)
           | Some artifactTypeV \<Rightarrow>
               (case artifactTypeV of
                  SInt artifactTypeInt \<Rightarrow>
                    if \<not> (- (2 ^ 63) \<le> artifactTypeInt \<and> artifactTypeInt < 2 ^ 63)
                    then (Inl (ErrScript ''output value is too large''), w)
                    else
                      let artifactKind = (word_of_int artifactTypeInt :: ArtifactKind) in
                      if artifactKind = ArtifactKindFile \<or> artifactKind = ArtifactKindDirectory
                      then
                        (case actionCursor_AddOutput E action name label artifactKind w of
                           (Inl e, w1) \<Rightarrow> (Inl e, w1)
                         | (Inr artifact, w1) \<Rightarrow>
                             action_outputs E action label outputs iter
                               (dict_SetKey key
                                  (SString (uuid_String E (artifactCursor_Id artifact)))
                                  outputArtifactsDict) w1)
                      else (Inl (ErrScript ''invalid artifact kind''), w)
                | _ \<Rightarrow> (Inl (ErrScript ''output value is not an int''), w)))
      | _ \<Rightarrow> (Inl (ErrScript ''output names must be strings''), w))"

text \<open>
  The \<open>action\<close> binding, after \<open>starlark.UnpackArgs\<close> has bound \<open>name\<close> to \<open>label\<close>,
  \<open>cmd\<close> to \<open>command\<close> and the optional dictionaries \<open>inputs\<close> and \<open>outputs\<close>.
\<close>

definition action ::
  "env \<Rightarrow> svalue list \<Rightarrow> string \<Rightarrow> string \<Rightarrow> (svalue \<times> svalue) list option \<Rightarrow>
     (svalue \<times> svalue) list option \<Rightarrow> world \<Rightarrow> (error + svalue) \<times> world" where
  "action E args label command inputs outputs w =
     (if length args > 0
      then (Inl (ErrScript ''action does not accept positional arguments''), w)
      else
        (case Graph_AddAction E label command w of
           (Inl e, w1) \<Rightarrow> (Inl e, w1)
         | (Inr act, w1) \<Rightarrow>
             (case (case inputs of
                      None \<Rightarrow> (Inr (), w1)
                    | Some ins \<Rightarrow> action_inputs E act ins (map fst ins) w1) of
                (Inl e, w2) \<Rightarrow> (Inl e, w2)
              | (Inr u, w2) \<Rightarrow>
                  (case (case outputs of
                           None \<Rightarrow> (Inr [], w2)
                         | Some outs \<Rightarrow> action_outputs E act label outs (map fst outs) [] w2) of
                     (Inl e, w3) \<Rightarrow> (Inl e, w3)
                   | (Inr outputArtifactsDict, w3) \<Rightarrow>
                       (Inr (SStruct ''action'' [(''outputs'', SDict outputArtifactsDict)]),
                        w3)))))"

section \<open>An instance of the library parameters\<close>

text \<open>
  A small instance of \<open>env\<close>, used to run the model on concrete inputs: the value
  encodings are written with the escaping of the tuple layer, the generator numbers
  the identifiers, and the text of an identifier is its sixteen bytes as characters.
\<close>

definition str_bytes :: "string \<Rightarrow> bytes" where
  "str_bytes s = map (\<lambda>c. of_nat (of_char c)) s"

definition bytes_str :: "bytes \<Rightarrow> string" where
  "bytes_str b = map (\<lambda>x. char_of (unat x)) b"

definition put_str :: "string \<Rightarrow> bytes" where
  "put_str s = escape (str_bytes s) @ [0]"

definition get_str2 :: "bytes \<Rightarrow> error + (string \<times> string)" where
  "get_str2 b =
     (case takeElem b of
        None \<Rightarrow> Inl (ErrLibrary 1)
      | Some (p, r) \<Rightarrow>
          (case takeElem r of
             None \<Rightarrow> Inl (ErrLibrary 1)
           | Some (q, r') \<Rightarrow>
               if r' = [] then Inr (bytes_str p, bytes_str q) else Inl (ErrLibrary 1)))"

definition get_str1 :: "bytes \<Rightarrow> error + string" where
  "get_str1 b =
     (case takeElem b of
        None \<Rightarrow> Inl (ErrLibrary 1)
      | Some (p, r) \<Rightarrow> if r = [] then Inr (bytes_str p) else Inl (ErrLibrary 1))"

definition demo_id :: "nat \<Rightarrow> uuid" where
  "demo_id n = Abs_uuid [0, 1, 1, 1, 1, 1, 1, 1, 1, 1, 1, 1, 1, 1, 1, of_nat n]"

definition demo_env :: env where
  "demo_env =
     \<lparr>gob_Encode_actionValue = (\<lambda>v. Inr (put_str (action_Label v) @ 1 # put_str (action_Command v))),
      gob_Decode_actionValue =
        (\<lambda>b. case takeElem b of
                None \<Rightarrow> Inl (ErrLibrary 1)
              | Some (p, r) \<Rightarrow>
                  (case r of
                     [] \<Rightarrow> Inl (ErrLibrary 1)
                   | c # r' \<Rightarrow>
                       (case get_str1 r' of
                          Inl e \<Rightarrow> Inl e
                        | Inr q \<Rightarrow> Inr \<lparr>action_Label = bytes_str p, action_Command = q\<rparr>))),
      gob_Encode_artifactValue = (\<lambda>v. Inr (artifact_Kind v # put_str (artifact_Label v))),
      gob_Decode_artifactValue =
        (\<lambda>b. case b of
                [] \<Rightarrow> Inl (ErrLibrary 1)
              | k # r \<Rightarrow>
                  (case get_str1 r of
                     Inl e \<Rightarrow> Inl e
                   | Inr l \<Rightarrow> Inr \<lparr>artifact_Label = l, artifact_Kind = k\<rparr>)),
      gob_Encode_actionInputValue = (\<lambda>v. Inr (put_str (input_Name v))),
      gob_Decode_actionInputValue =
        (\<lambda>b. case get_str1 b of Inl e \<Rightarrow> Inl e | Inr n \<Rightarrow> Inr \<lparr>input_Name = n\<rparr>),
      gob_Encode_actionOutputValue = (\<lambda>v. Inr (put_str (output_Name v))),
      gob_Decode_actionOutputValue =
        (\<lambda>b. case get_str1 b of Inl e \<Rightarrow> Inl e | Inr n \<Rightarrow> Inr \<lparr>output_Name = n\<rparr>),
      gob_Encode_artifactProducerValue = (\<lambda>v. Inr (Rep_uuid (producer_ActionID v))),
      gob_Decode_artifactProducerValue =
        (\<lambda>b. case UnmarshalBinary b of
                Inl e \<Rightarrow> Inl e
              | Inr u \<Rightarrow> Inr \<lparr>producer_ActionID = u\<rparr>),
      tuple_other = (\<lambda>b. Inl (ErrLibrary 2)),
      uuid_NewV7 = (\<lambda>n. Inr (demo_id n)),
      uuid_Parse =
        (\<lambda>s. case UnmarshalBinary (str_bytes s) of
                Inl e \<Rightarrow> Inl (ErrLibrary 3)
              | Inr u \<Rightarrow> Inr u),
      uuid_String = (\<lambda>u. bytes_str (Rep_uuid u))\<rparr>"

definition world0 :: world where
  "world0 = \<lparr>journal = [], clock = 0, answers = []\<rparr>"

section \<open>What is assumed of gob\<close>

text \<open>
  \<open>gob_roundtrip E\<close>: a value that gob encodes without error is what gob decodes from
  the bytes, into a zero value, for each of the five struct types.
\<close>

definition gob_roundtrip :: "env \<Rightarrow> bool" where
  "gob_roundtrip E \<longleftrightarrow>
     (\<forall>v b. gob_Encode_actionValue E v = Inr b \<longrightarrow> gob_Decode_actionValue E b = Inr v) \<and>
     (\<forall>v b. gob_Encode_artifactValue E v = Inr b \<longrightarrow> gob_Decode_artifactValue E b = Inr v) \<and>
     (\<forall>v b. gob_Encode_actionInputValue E v = Inr b \<longrightarrow>
        gob_Decode_actionInputValue E b = Inr v) \<and>
     (\<forall>v b. gob_Encode_actionOutputValue E v = Inr b \<longrightarrow>
        gob_Decode_actionOutputValue E b = Inr v) \<and>
     (\<forall>v b. gob_Encode_artifactProducerValue E v = Inr b \<longrightarrow>
        gob_Decode_artifactProducerValue E b = Inr v)"

section \<open>Facts about the tuple layer\<close>

text \<open>
  A type code is never 255, so the byte after a terminator is not 255 in a packed
  tuple: the terminator is found where the encoder put it.
\<close>

lemma takeElem_escape:
  "r = [] \<or> hd r \<noteq> 255 \<Longrightarrow> takeElem (escape p @ 0 # r) = Some (p, r)"
  by (induction p) (auto split: list.splits)

lemma decodeTuple_EBytes:
  assumes "r = [] \<or> hd r \<noteq> 255"
  shows "decodeTuple E (encodeElem (EBytes p) @ r) =
           (case decodeTuple E r of Inl e \<Rightarrow> Inl e | Inr t \<Rightarrow> Inr (EBytes p # t))"
  using takeElem_escape [OF assms, of p] by simp

lemma tuple_Unpack_Pack1: "tuple_Unpack E (tuple_Pack [EBytes p]) = Inr [EBytes p]"
  using decodeTuple_EBytes [of "[]" E p] by (simp add: tuple_Unpack_def tuple_Pack_def)

lemma tuple_Unpack_Pack2:
  "tuple_Unpack E (tuple_Pack [EBytes p, EBytes q]) = Inr [EBytes p, EBytes q]"
proof -
  have "decodeTuple E (encodeElem (EBytes q)) = Inr [EBytes q]"
    using decodeTuple_EBytes [of "[]" E q] by simp
  moreover have "decodeTuple E (encodeElem (EBytes p) @ encodeElem (EBytes q)) =
      (case decodeTuple E (encodeElem (EBytes q)) of
         Inl e \<Rightarrow> Inl e | Inr t \<Rightarrow> Inr (EBytes p # t))"
    by (rule decodeTuple_EBytes) simp
  ultimately show ?thesis
    by (simp add: tuple_Unpack_def tuple_Pack_def)
qed

lemma subspace_Unpack_Pack: "subspace_Unpack E s (subspace_Pack s t) = tuple_Unpack E (tuple_Pack t)"
  by (simp add: subspace_Unpack_def subspace_Pack_def)

lemma UnmarshalBinary_Rep: "UnmarshalBinary (Rep_uuid u) = Inr u"
  using Rep_uuid [of u] by (simp add: UnmarshalBinary_def Rep_uuid_inverse)

section \<open>Round trips\<close>

lemma actionKey_roundtrip:
  "actionKey_Encode k = Inr b \<Longrightarrow> actionKey_Decode E b = Inr k"
  by (auto simp: actionKey_Encode_def actionKey_Decode_def MarshalBinary_def
      subspace_Unpack_Pack tuple_Unpack_Pack1 UnmarshalBinary_Rep)

lemma artifactKey_roundtrip:
  "artifactKey_Encode k = Inr b \<Longrightarrow> artifactKey_Decode E b = Inr k"
  by (auto simp: artifactKey_Encode_def artifactKey_Decode_def MarshalBinary_def
      subspace_Unpack_Pack tuple_Unpack_Pack1 UnmarshalBinary_Rep)

lemma artifactProducerKey_roundtrip:
  "artifactProducerKey_Encode k = Inr b \<Longrightarrow> artifactProducerKey_Decode E b = Inr k"
  by (auto simp: artifactProducerKey_Encode_def artifactProducerKey_Decode_def MarshalBinary_def
      subspace_Unpack_Pack tuple_Unpack_Pack1 UnmarshalBinary_Rep)

lemma actionInputKey_roundtrip:
  "actionInputKey_Encode k = Inr b \<Longrightarrow> actionInputKey_Decode E b = Inr k"
  by (auto simp: actionInputKey_Encode_def actionInputKey_Decode_def MarshalBinary_def
      subspace_Unpack_Pack tuple_Unpack_Pack2 UnmarshalBinary_Rep)

lemma actionOutputKey_roundtrip:
  "actionOutputKey_Encode k = Inr b \<Longrightarrow> actionOutputKey_Decode E b = Inr k"
  by (auto simp: actionOutputKey_Encode_def actionOutputKey_Decode_def MarshalBinary_def
      subspace_Unpack_Pack tuple_Unpack_Pack2 UnmarshalBinary_Rep)

lemma artifactConsumerKey_roundtrip:
  "artifactConsumerKey_Encode k = Inr b \<Longrightarrow> artifactConsumerKey_Decode E b = Inr k"
  by (auto simp: artifactConsumerKey_Encode_def artifactConsumerKey_Decode_def MarshalBinary_def
      subspace_Unpack_Pack tuple_Unpack_Pack2 UnmarshalBinary_Rep)

section \<open>The shape that a key decoder accepts\<close>

lemma UnmarshalBinary_Inr: "UnmarshalBinary p = Inr u \<Longrightarrow> Rep_uuid u = p"
  by (auto simp: UnmarshalBinary_def Abs_uuid_inverse split: if_splits)

lemma subspace_Unpack_Inr_prefix: "subspace_Unpack E s key = Inr t \<Longrightarrow> prefix s key"
  by (auto simp: subspace_Unpack_def split: if_splits)

lemma length1_conv: "length t = Suc 0 \<Longrightarrow> \<exists>el. t = [el]"
  by (cases t) auto

lemma length2_conv: "length t = 2 \<Longrightarrow> \<exists>a b. t = [a, b]"
  by (cases t; cases "tl t") auto

lemma actionKey_Decode_shape:
  assumes "actionKey_Decode E key = Inr k"
  shows "prefix action_subspace key \<and>
         subspace_Unpack E action_subspace key = Inr [EBytes (Rep_uuid (action_id k))]"
proof -
  obtain t where t: "subspace_Unpack E action_subspace key = Inr t"
    using assms by (auto simp: actionKey_Decode_def split: sum.splits)
  with assms have "length t = Suc 0"
    by (auto simp: actionKey_Decode_def split: if_splits)
  then obtain el where el: "t = [el]" by (auto dest: length1_conv)
  with assms t have "el = EBytes (Rep_uuid (action_id k))"
    by (auto simp: actionKey_Decode_def dest: UnmarshalBinary_Inr split: elem.splits sum.splits)
  with t el show ?thesis by (auto dest: subspace_Unpack_Inr_prefix)
qed


lemma artifactKey_Decode_shape:
  assumes "artifactKey_Decode E key = Inr k"
  shows "prefix artifact_subspace key \<and>
         subspace_Unpack E artifact_subspace key = Inr [EBytes (Rep_uuid (artifact_id k))]"
proof -
  obtain t where t: "subspace_Unpack E artifact_subspace key = Inr t"
    using assms by (auto simp: artifactKey_Decode_def split: sum.splits)
  with assms have "length t = Suc 0"
    by (auto simp: artifactKey_Decode_def split: if_splits)
  then obtain el where el: "t = [el]" by (auto dest: length1_conv)
  with assms t have "el = EBytes (Rep_uuid (artifact_id k))"
    by (auto simp: artifactKey_Decode_def dest: UnmarshalBinary_Inr split: elem.splits sum.splits)
  with t el show ?thesis by (auto dest: subspace_Unpack_Inr_prefix)
qed


lemma artifactProducerKey_Decode_shape:
  assumes "artifactProducerKey_Decode E key = Inr k"
  shows "prefix producer_subspace key \<and>
         subspace_Unpack E producer_subspace key = Inr [EBytes (Rep_uuid (producer_artifactID k))]"
proof -
  obtain t where t: "subspace_Unpack E producer_subspace key = Inr t"
    using assms by (auto simp: artifactProducerKey_Decode_def split: sum.splits)
  with assms have "length t = Suc 0"
    by (auto simp: artifactProducerKey_Decode_def split: if_splits)
  then obtain el where el: "t = [el]" by (auto dest: length1_conv)
  with assms t have "el = EBytes (Rep_uuid (producer_artifactID k))"
    by (auto simp: artifactProducerKey_Decode_def dest: UnmarshalBinary_Inr split: elem.splits sum.splits)
  with t el show ?thesis by (auto dest: subspace_Unpack_Inr_prefix)
qed


lemma actionInputKey_Decode_shape:
  assumes "actionInputKey_Decode E key = Inr k"
  shows "prefix input_subspace key \<and>
         subspace_Unpack E input_subspace key =
           Inr [EBytes (Rep_uuid (input_actionID k)), EBytes (Rep_uuid (input_artifactID k))]"
proof -
  obtain t where t: "subspace_Unpack E input_subspace key = Inr t"
    using assms by (auto simp: actionInputKey_Decode_def split: sum.splits)
  with assms have "length t = 2"
    by (auto simp: actionInputKey_Decode_def split: if_splits)
  then obtain a b where el: "t = [a, b]" by (auto dest: length2_conv)
  with assms t have "a = EBytes (Rep_uuid (input_actionID k)) \<and> b = EBytes (Rep_uuid (input_artifactID k))"
    by (auto simp: actionInputKey_Decode_def dest: UnmarshalBinary_Inr split: elem.splits sum.splits)
  with t el show ?thesis by (auto dest: subspace_Unpack_Inr_prefix)
qed


lemma actionOutputKey_Decode_shape:
  assumes "actionOutputKey_Decode E key = Inr k"
  shows "prefix output_subspace key \<and>
         subspace_Unpack E output_subspace key =
           Inr [EBytes (Rep_uuid (output_actionID k)), EBytes (Rep_uuid (output_artifactID k))]"
proof -
  obtain t where t: "subspace_Unpack E output_subspace key = Inr t"
    using assms by (auto simp: actionOutputKey_Decode_def split: sum.splits)
  with assms have "length t = 2"
    by (auto simp: actionOutputKey_Decode_def split: if_splits)
  then obtain a b where el: "t = [a, b]" by (auto dest: length2_conv)
  with assms t have "a = EBytes (Rep_uuid (output_actionID k)) \<and> b = EBytes (Rep_uuid (output_artifactID k))"
    by (auto simp: actionOutputKey_Decode_def dest: UnmarshalBinary_Inr split: elem.splits sum.splits)
  with t el show ?thesis by (auto dest: subspace_Unpack_Inr_prefix)
qed


lemma artifactConsumerKey_Decode_shape:
  assumes "artifactConsumerKey_Decode E key = Inr k"
  shows "prefix consumer_subspace key \<and>
         subspace_Unpack E consumer_subspace key =
           Inr [EBytes (Rep_uuid (consumer_artifactID k)), EBytes (Rep_uuid (consumer_actionID k))]"
proof -
  obtain t where t: "subspace_Unpack E consumer_subspace key = Inr t"
    using assms by (auto simp: artifactConsumerKey_Decode_def split: sum.splits)
  with assms have "length t = 2"
    by (auto simp: artifactConsumerKey_Decode_def split: if_splits)
  then obtain a b where el: "t = [a, b]" by (auto dest: length2_conv)
  with assms t have "a = EBytes (Rep_uuid (consumer_artifactID k)) \<and> b = EBytes (Rep_uuid (consumer_actionID k))"
    by (auto simp: artifactConsumerKey_Decode_def dest: UnmarshalBinary_Inr split: elem.splits sum.splits)
  with t el show ?thesis by (auto dest: subspace_Unpack_Inr_prefix)
qed


section \<open>The instance of the parameters round-trips\<close>

lemma bytes_str_str_bytes: "bytes_str (str_bytes s) = s"
  by (induction s) (simp_all add: bytes_str_def str_bytes_def unat_of_nat)

lemma get_str1_put_str: "get_str1 (put_str s) = Inr s"
  using takeElem_escape [of "[]" "str_bytes s"]
  by (simp add: get_str1_def put_str_def bytes_str_str_bytes)

lemma takeElem_put_str_1: "takeElem (put_str s @ 1 # r) = Some (str_bytes s, 1 # r)"
  using takeElem_escape [of "1 # r" "str_bytes s"] by (simp add: put_str_def)

lemma gob_roundtrip_demo_env: "gob_roundtrip demo_env"
  unfolding gob_roundtrip_def demo_env_def
  by (auto simp: get_str1_put_str takeElem_put_str_1 bytes_str_str_bytes UnmarshalBinary_Rep)

lemma Rep_demo_id: "Rep_uuid (demo_id n) = [0, 1, 1, 1, 1, 1, 1, 1, 1, 1, 1, 1, 1, 1, 1, of_nat n]"
  by (simp add: demo_id_def Abs_uuid_inverse)

lemmas subspace_defs = action_subspace_def artifact_subspace_def input_subspace_def
  output_subspace_def producer_subspace_def consumer_subspace_def Sub_def tuple_Pack_def

lemma demo_env_sel:
  "gob_Encode_actionValue demo_env v1 = Inr (put_str (action_Label v1) @ 1 # put_str (action_Command v1))"
  "gob_Decode_actionValue demo_env b =
     (case takeElem b of
        None \<Rightarrow> Inl (ErrLibrary 1)
      | Some (p, r) \<Rightarrow>
          (case r of
             [] \<Rightarrow> Inl (ErrLibrary 1)
           | c # r' \<Rightarrow>
               (case get_str1 r' of
                  Inl e \<Rightarrow> Inl e
                | Inr q \<Rightarrow> Inr \<lparr>action_Label = bytes_str p, action_Command = q\<rparr>)))"
  "gob_Encode_artifactValue demo_env v2 = Inr (artifact_Kind v2 # put_str (artifact_Label v2))"
  "gob_Decode_artifactValue demo_env b =
     (case b of
        [] \<Rightarrow> Inl (ErrLibrary 1)
      | k # r \<Rightarrow>
          (case get_str1 r of
             Inl e \<Rightarrow> Inl e
           | Inr l \<Rightarrow> Inr \<lparr>artifact_Label = l, artifact_Kind = k\<rparr>))"
  "gob_Encode_actionInputValue demo_env v3 = Inr (put_str (input_Name v3))"
  "gob_Decode_actionInputValue demo_env b =
     (case get_str1 b of Inl e \<Rightarrow> Inl e | Inr n \<Rightarrow> Inr \<lparr>input_Name = n\<rparr>)"
  "gob_Encode_actionOutputValue demo_env v4 = Inr (put_str (output_Name v4))"
  "gob_Decode_actionOutputValue demo_env b =
     (case get_str1 b of Inl e \<Rightarrow> Inl e | Inr n \<Rightarrow> Inr \<lparr>output_Name = n\<rparr>)"
  "gob_Encode_artifactProducerValue demo_env v5 = Inr (Rep_uuid (producer_ActionID v5))"
  "gob_Decode_artifactProducerValue demo_env b =
     (case UnmarshalBinary b of Inl e \<Rightarrow> Inl e | Inr u \<Rightarrow> Inr \<lparr>producer_ActionID = u\<rparr>)"
  "tuple_other demo_env b = Inl (ErrLibrary 2)"
  "uuid_NewV7 demo_env n = Inr (demo_id n)"
  "uuid_Parse demo_env s =
     (case UnmarshalBinary (str_bytes s) of Inl e \<Rightarrow> Inl (ErrLibrary 3) | Inr u \<Rightarrow> Inr u)"
  "uuid_String demo_env u = bytes_str (Rep_uuid u)"
  by (simp_all add: demo_env_def)

section \<open>C4: the codec round-trips\<close>



section \<open>C8: what the decoders reject\<close>




section \<open>Facts about transactions\<close>

lemma kv_journal_append: "kv (w\<lparr>journal := journal w @ [ws]\<rparr>) = rev ws @ kv w"
  by (simp add: kv_def)

lemma kv_clock_update [simp]: "kv (w\<lparr>clock := c\<rparr>) = kv w"
  by (simp add: kv_def)

lemma kv_answers_update [simp]: "kv (w\<lparr>answers := a\<rparr>) = kv w"
  by (simp add: kv_def)

lemma begin_txn_simps [simp]:
  "tsnap (begin_txn w) = kv w" "twrites (begin_txn w) = []" "tclock (begin_txn w) = clock w"
  by (simp_all add: begin_txn_def)

text \<open>What a write transaction leaves: nothing, or the writes of one run of the function.\<close>

lemma db_Transact_cases:
  assumes "db_Transact f w = (res, w')"
  shows "(\<exists>e. res = Inl e \<and> journal w' = journal w) \<or>
         (\<exists>r c t. res = Inr r \<and> f \<lparr>tsnap = kv w, twrites = [], tclock = c\<rparr> = (Inr r, t) \<and>
            journal w' = journal w @ [twrites t])"
  using assms
proof (induction f w rule: db_Transact.induct)
  case (1 f w)
  show ?case
  proof (cases "f (begin_txn w)")
    case (Pair x t)
    show ?thesis
    proof (cases x)
      case (Inl e)
      with Pair "1.prems" show ?thesis
        by (auto simp: db_Transact.simps [of f w])
    next
      case (Inr r)
      note fr = Pair [unfolded Inr]
      show ?thesis
      proof (cases "answers w")
        case Nil
        with fr "1.prems" have "res = Inr r \<and> journal w' = journal w @ [twrites t]"
          by (auto simp: db_Transact.simps [of f w])
        with fr show ?thesis unfolding begin_txn_def by blast
      next
        case (Cons a os)
        show ?thesis
        proof (cases a)
          case Committed
          with Cons fr "1.prems" have "res = Inr r \<and> journal w' = journal w @ [twrites t]"
            by (auto simp: db_Transact.simps [of f w])
          with fr show ?thesis unfolding begin_txn_def by blast
        next
          case Conflict
          with Cons fr "1.prems" have
            "db_Transact f (w\<lparr>clock := tclock t, answers := os\<rparr>) = (res, w')"
            by (simp add: db_Transact.simps [of f w])
          from "1.IH" [OF fr [symmetric] refl _ _ this] Cons Conflict
          show ?thesis by simp
        next
          case Failed
          with Cons fr "1.prems" show ?thesis
            by (auto simp: db_Transact.simps [of f w])
        qed
      qed
    qed
  qed
qed

lemma db_ReadTransact_no_failure:
  "Failed \<notin> set (answers w) \<Longrightarrow> fst (db_ReadTransact f w) = f (begin_txn w)"
proof (induction f w rule: db_ReadTransact.induct)
  case (1 f w)
  show ?case
  proof (cases "f (begin_txn w)")
    case (Inl e)
    then show ?thesis by (simp add: db_ReadTransact.simps [of f w])
  next
    case (Inr r)
    show ?thesis
    proof (cases "answers w")
      case Nil
      with Inr show ?thesis by (simp add: db_ReadTransact.simps [of f w])
    next
      case (Cons a os)
      show ?thesis
      proof (cases a)
        case Committed
        with Cons Inr show ?thesis by (simp add: db_ReadTransact.simps [of f w])
      next
        case Conflict
        with Cons "1.prems" have "Failed \<notin> set (answers (w\<lparr>answers := os\<rparr>))" by simp
        from "1.IH" [OF Inr _ _ this] Cons Conflict Inr
        show ?thesis by (simp add: db_ReadTransact.simps [of f w] begin_txn_def)
      next
        case Failed
        with Cons "1.prems" show ?thesis by simp
      qed
    qed
  qed
qed

lemma db_ReadTransact_world:
  "journal (snd (db_ReadTransact f w)) = journal w \<and> clock (snd (db_ReadTransact f w)) = clock w"
proof (induction f w rule: db_ReadTransact.induct)
  case (1 f w)
  show ?case
  proof (cases "f (begin_txn w)")
    case (Inl e)
    then show ?thesis by (simp add: db_ReadTransact.simps [of f w])
  next
    case (Inr r)
    show ?thesis
    proof (cases "answers w")
      case Nil
      with Inr show ?thesis by (simp add: db_ReadTransact.simps [of f w])
    next
      case (Cons a os)
      show ?thesis
      proof (cases a)
        case Committed
        with Cons Inr show ?thesis by (simp add: db_ReadTransact.simps [of f w])
      next
        case Conflict
        from "1.IH" [OF Inr _ _] Cons Conflict Inr
        show ?thesis by (simp add: db_ReadTransact.simps [of f w])
      next
        case Failed
        with Cons Inr show ?thesis by (simp add: db_ReadTransact.simps [of f w])
      qed
    qed
  qed
qed

section \<open>Facts about keys\<close>

lemma key_Encode_eq:
  "actionKey_Encode k1 = Inr (subspace_Pack action_subspace [EBytes (Rep_uuid (action_id k1))])"
  "artifactKey_Encode k2 = Inr (subspace_Pack artifact_subspace [EBytes (Rep_uuid (artifact_id k2))])"
  "actionInputKey_Encode k3 =
     Inr (subspace_Pack input_subspace
            [EBytes (Rep_uuid (input_actionID k3)), EBytes (Rep_uuid (input_artifactID k3))])"
  "actionOutputKey_Encode k4 =
     Inr (subspace_Pack output_subspace
            [EBytes (Rep_uuid (output_actionID k4)), EBytes (Rep_uuid (output_artifactID k4))])"
  "artifactProducerKey_Encode k5 =
     Inr (subspace_Pack producer_subspace [EBytes (Rep_uuid (producer_artifactID k5))])"
  "artifactConsumerKey_Encode k6 =
     Inr (subspace_Pack consumer_subspace
            [EBytes (Rep_uuid (consumer_artifactID k6)), EBytes (Rep_uuid (consumer_actionID k6))])"
  by (simp_all add: actionKey_Encode_def artifactKey_Encode_def actionInputKey_Encode_def
      actionOutputKey_Encode_def artifactProducerKey_Encode_def artifactConsumerKey_Encode_def
      MarshalBinary_def)

lemma subspace_Pack_neq:
  "subspace_Pack action_subspace t \<noteq> subspace_Pack artifact_subspace t'"
  "subspace_Pack action_subspace t \<noteq> subspace_Pack input_subspace t'"
  "subspace_Pack action_subspace t \<noteq> subspace_Pack output_subspace t'"
  "subspace_Pack action_subspace t \<noteq> subspace_Pack producer_subspace t'"
  "subspace_Pack action_subspace t \<noteq> subspace_Pack consumer_subspace t'"
  "subspace_Pack artifact_subspace t \<noteq> subspace_Pack action_subspace t'"
  "subspace_Pack artifact_subspace t \<noteq> subspace_Pack input_subspace t'"
  "subspace_Pack artifact_subspace t \<noteq> subspace_Pack output_subspace t'"
  "subspace_Pack artifact_subspace t \<noteq> subspace_Pack producer_subspace t'"
  "subspace_Pack artifact_subspace t \<noteq> subspace_Pack consumer_subspace t'"
  "subspace_Pack input_subspace t \<noteq> subspace_Pack action_subspace t'"
  "subspace_Pack input_subspace t \<noteq> subspace_Pack artifact_subspace t'"
  "subspace_Pack input_subspace t \<noteq> subspace_Pack output_subspace t'"
  "subspace_Pack input_subspace t \<noteq> subspace_Pack producer_subspace t'"
  "subspace_Pack input_subspace t \<noteq> subspace_Pack consumer_subspace t'"
  "subspace_Pack output_subspace t \<noteq> subspace_Pack action_subspace t'"
  "subspace_Pack output_subspace t \<noteq> subspace_Pack artifact_subspace t'"
  "subspace_Pack output_subspace t \<noteq> subspace_Pack input_subspace t'"
  "subspace_Pack output_subspace t \<noteq> subspace_Pack producer_subspace t'"
  "subspace_Pack output_subspace t \<noteq> subspace_Pack consumer_subspace t'"
  "subspace_Pack producer_subspace t \<noteq> subspace_Pack action_subspace t'"
  "subspace_Pack producer_subspace t \<noteq> subspace_Pack artifact_subspace t'"
  "subspace_Pack producer_subspace t \<noteq> subspace_Pack input_subspace t'"
  "subspace_Pack producer_subspace t \<noteq> subspace_Pack output_subspace t'"
  "subspace_Pack producer_subspace t \<noteq> subspace_Pack consumer_subspace t'"
  "subspace_Pack consumer_subspace t \<noteq> subspace_Pack action_subspace t'"
  "subspace_Pack consumer_subspace t \<noteq> subspace_Pack artifact_subspace t'"
  "subspace_Pack consumer_subspace t \<noteq> subspace_Pack input_subspace t'"
  "subspace_Pack consumer_subspace t \<noteq> subspace_Pack output_subspace t'"
  "subspace_Pack consumer_subspace t \<noteq> subspace_Pack producer_subspace t'"
  by (simp_all add: subspace_Pack_def subspace_defs)

lemma tuple_Pack1_inject [simp]:
  "tuple_Pack [EBytes a] = tuple_Pack [EBytes b] \<longleftrightarrow> a = b"
proof
  assume "tuple_Pack [EBytes a] = tuple_Pack [EBytes b]"
  then have "tuple_Unpack demo_env (tuple_Pack [EBytes a]) =
      tuple_Unpack demo_env (tuple_Pack [EBytes b])"
    by simp
  then show "a = b" by (simp add: tuple_Unpack_Pack1)
qed simp

lemma tuple_Pack2_inject [simp]:
  "tuple_Pack [EBytes a, EBytes b] = tuple_Pack [EBytes c, EBytes d] \<longleftrightarrow> a = c \<and> b = d"
proof
  assume "tuple_Pack [EBytes a, EBytes b] = tuple_Pack [EBytes c, EBytes d]"
  then have "tuple_Unpack demo_env (tuple_Pack [EBytes a, EBytes b]) =
      tuple_Unpack demo_env (tuple_Pack [EBytes c, EBytes d])"
    by simp
  then show "a = c \<and> b = d" by (simp add: tuple_Unpack_Pack2)
qed simp

lemma subspace_Pack_inject [simp]:
  "subspace_Pack s t = subspace_Pack s t' \<longleftrightarrow> tuple_Pack t = tuple_Pack t'"
  by (simp add: subspace_Pack_def)

lemmas value_Encode_defs = actionValue_Encode_def artifactValue_Encode_def
  actionInputValue_Encode_def actionOutputValue_Encode_def artifactProducerValue_Encode_def
  artifactConsumerValue_Encode_def

lemmas value_Decode_defs = actionValue_Decode_def artifactValue_Decode_def
  actionInputValue_Decode_def actionOutputValue_Decode_def artifactProducerValue_Decode_def
  artifactConsumerValue_Decode_def

lemmas cursor_defs = actionCursor_Id_def artifactCursor_Id_def

section \<open>The transaction that adds an output\<close>

lemma addArtifactTransaction_Inr:
  assumes "addArtifactTransaction E label kind t = (Inr art, t')"
  shows "\<exists>newid v1.
           uuid_NewV7 E (tclock t) = Inr newid \<and>
           art = \<lparr>art_key = \<lparr>artifact_id = newid\<rparr>,
                  art_value = \<lparr>artifact_Label = label, artifact_Kind = kind\<rparr>\<rparr> \<and>
           artifactValue_Encode E \<lparr>artifact_Label = label, artifact_Kind = kind\<rparr> = Inr v1 \<and>
           t' = tr_Set (subspace_Pack artifact_subspace [EBytes (Rep_uuid newid)]) v1
                  (t\<lparr>tclock := Suc (tclock t)\<rparr>)"
  using assms
  by (auto simp: addArtifactTransaction_def tr_Transact_def Let_def key_Encode_eq
      split: sum.splits)

lemma addActionOutputTransaction_Inr:
  assumes "addActionOutputTransaction E ac name label kind t = (Inr art, t')"
  shows "\<exists>v1 v2 v3.
           artifactValue_Encode E \<lparr>artifact_Label = label, artifact_Kind = kind\<rparr> = Inr v1 \<and>
           actionOutputValue_Encode E \<lparr>output_Name = name\<rparr> = Inr v2 \<and>
           artifactProducerValue_Encode E \<lparr>producer_ActionID = actionCursor_Id ac\<rparr> = Inr v3 \<and>
           uuid_NewV7 E (tclock t) = Inr (artifactCursor_Id art) \<and>
           art_value art = \<lparr>artifact_Label = label, artifact_Kind = kind\<rparr> \<and>
           twrites t' = twrites t @
             [(subspace_Pack artifact_subspace [EBytes (Rep_uuid (artifactCursor_Id art))], v1),
              (subspace_Pack output_subspace
                 [EBytes (Rep_uuid (actionCursor_Id ac)), EBytes (Rep_uuid (artifactCursor_Id art))], v2),
              (subspace_Pack producer_subspace [EBytes (Rep_uuid (artifactCursor_Id art))], v3)]"
proof -
  from assms obtain a t1 where a: "addArtifactTransaction E label kind t = (Inr a, t1)"
    by (auto simp: addActionOutputTransaction_def split: sum.splits prod.splits)
  from addArtifactTransaction_Inr [OF a] obtain newid v1 where
    n: "uuid_NewV7 E (tclock t) = Inr newid"
    and ar: "a = \<lparr>art_key = \<lparr>artifact_id = newid\<rparr>,
                  art_value = \<lparr>artifact_Label = label, artifact_Kind = kind\<rparr>\<rparr>"
    and v1: "artifactValue_Encode E \<lparr>artifact_Label = label, artifact_Kind = kind\<rparr> = Inr v1"
    and t1: "t1 = tr_Set (subspace_Pack artifact_subspace [EBytes (Rep_uuid newid)]) v1
                  (t\<lparr>tclock := Suc (tclock t)\<rparr>)"
    by blast
  from assms a ar t1 n v1 show ?thesis
    by (auto simp: addActionOutputTransaction_def tr_Transact_def Let_def key_Encode_eq
        tr_Set_def artifactCursor_Id_def split: sum.splits)
qed

section \<open>A run of the model\<close>

text \<open>
  The first steps of the example workflow, on the instance of the parameters: the
  action \<open>Save\<close> is created in the empty database, then its output \<open>OUT\<close>.
\<close>

definition demo_ac0 :: actionCursor where
  "demo_ac0 = \<lparr>ac_key = \<lparr>action_id = demo_id 0\<rparr>,
               ac_value = \<lparr>action_Label = ''Save'', action_Command = ''echo''\<rparr>\<rparr>"

definition demo_w1 :: world where
  "demo_w1 =
     \<lparr>journal =
        [[(subspace_Pack action_subspace [EBytes (Rep_uuid (demo_id 0))],
           put_str ''Save'' @ 1 # put_str ''echo'')]],
      clock = 1, answers = []\<rparr>"

definition demo_art1 :: artifactCursor where
  "demo_art1 = \<lparr>art_key = \<lparr>artifact_id = demo_id 1\<rparr>,
                art_value = \<lparr>artifact_Label = ''Save'', artifact_Kind = ArtifactKindFile\<rparr>\<rparr>"

definition demo_w2 :: world where
  "demo_w2 =
     \<lparr>journal =
        [[(subspace_Pack action_subspace [EBytes (Rep_uuid (demo_id 0))],
           put_str ''Save'' @ 1 # put_str ''echo'')],
         [(subspace_Pack artifact_subspace [EBytes (Rep_uuid (demo_id 1))],
           ArtifactKindFile # put_str ''Save''),
          (subspace_Pack output_subspace
             [EBytes (Rep_uuid (demo_id 0)), EBytes (Rep_uuid (demo_id 1))],
           put_str ''OUT''),
          (subspace_Pack producer_subspace [EBytes (Rep_uuid (demo_id 1))],
           Rep_uuid (demo_id 0))]],
      clock = 2, answers = []\<rparr>"

lemma demo_AddAction:
  "Graph_AddAction demo_env ''Save'' ''echo'' world0 = (Inr demo_ac0, demo_w1)"
  by (simp add: Graph_AddAction_def db_Transact.simps addActionTransaction_def tr_Transact_def
      Let_def key_Encode_eq value_Encode_defs demo_env_sel tr_Set_def begin_txn_def world0_def
      demo_ac0_def demo_w1_def)

lemma demo_AddOutput:
  "actionCursor_AddOutput demo_env demo_ac0 ''OUT'' ''Save'' ArtifactKindFile demo_w1 =
     (Inr demo_art1, demo_w2)"
  by (simp add: actionCursor_AddOutput_def db_Transact.simps addActionOutputTransaction_def
      addArtifactTransaction_def tr_Transact_def
      Let_def key_Encode_eq value_Encode_defs demo_env_sel tr_Set_def begin_txn_def cursor_defs
      demo_ac0_def demo_w1_def demo_art1_def demo_w2_def)

section \<open>C1: an output is added in one transaction\<close>

text \<open>
  Claim C1. For every action handle and every (name, label, kind), \<open>AddOutput\<close>
  creates the artifact record, the output edge (action, new artifact) and the
  producer-index entry (new artifact, action) in a single transaction. Whatever the
  identifier generator, gob and the store answer, the call either fails and commits
  nothing, or succeeds and commits exactly one transaction whose writes are these
  three records: no state of the database holds some of them without the others.
\<close>

theorem AddOutput_atomic:
  assumes "actionCursor_AddOutput E ac name label kind w = (res, w')"
  shows "case res of
           Inl e \<Rightarrow> journal w' = journal w
         | Inr art \<Rightarrow>
             (\<exists>k1 v1 k2 v2 k3 v3.
                artifactKey_Encode (art_key art) = Inr k1 \<and>
                artifactValue_Encode E \<lparr>artifact_Label = label, artifact_Kind = kind\<rparr> = Inr v1 \<and>
                actionOutputKey_Encode
                  \<lparr>output_actionID = actionCursor_Id ac,
                   output_artifactID = artifactCursor_Id art\<rparr> = Inr k2 \<and>
                actionOutputValue_Encode E \<lparr>output_Name = name\<rparr> = Inr v2 \<and>
                artifactProducerKey_Encode \<lparr>producer_artifactID = artifactCursor_Id art\<rparr> = Inr k3 \<and>
                artifactProducerValue_Encode E \<lparr>producer_ActionID = actionCursor_Id ac\<rparr> = Inr v3 \<and>
                journal w' = journal w @ [[(k1, v1), (k2, v2), (k3, v3)]])"
proof -
  from db_Transact_cases [OF assms [unfolded actionCursor_AddOutput_def]]
  consider (err) e where "res = Inl e" "journal w' = journal w"
    | (ok) art c t where "res = Inr art"
        "addActionOutputTransaction E ac name label kind
           \<lparr>tsnap = kv w, twrites = [], tclock = c\<rparr> = (Inr art, t)"
        "journal w' = journal w @ [twrites t]"
    by blast
  then show ?thesis
  proof cases
    case err
    then show ?thesis by simp
  next
    case ok
    from addActionOutputTransaction_Inr [OF ok(2)] ok(1,3)
    show ?thesis
      by (auto simp: key_Encode_eq artifactCursor_Id_def)
  qed
qed

theorem AddOutput_atomic_witness:
  "actionCursor_AddOutput demo_env demo_ac0 ''OUT'' ''Save'' ArtifactKindFile demo_w1 =
     (Inr demo_art1, demo_w2) \<and>
   (\<exists>k1 v1 k2 v2 k3 v3.
      artifactKey_Encode (art_key demo_art1) = Inr k1 \<and>
      artifactValue_Encode demo_env
        \<lparr>artifact_Label = ''Save'', artifact_Kind = ArtifactKindFile\<rparr> = Inr v1 \<and>
      actionOutputKey_Encode
        \<lparr>output_actionID = actionCursor_Id demo_ac0,
         output_artifactID = artifactCursor_Id demo_art1\<rparr> = Inr k2 \<and>
      actionOutputValue_Encode demo_env \<lparr>output_Name = ''OUT''\<rparr> = Inr v2 \<and>
      artifactProducerKey_Encode \<lparr>producer_artifactID = artifactCursor_Id demo_art1\<rparr> = Inr k3 \<and>
      artifactProducerValue_Encode demo_env \<lparr>producer_ActionID = actionCursor_Id demo_ac0\<rparr> =
        Inr v3 \<and>
      journal demo_w2 = journal demo_w1 @ [[(k1, v1), (k2, v2), (k3, v3)]])"
  using AddOutput_atomic [OF demo_AddOutput] demo_AddOutput by simp

section \<open>Looking an action up, and the producer of an artifact\<close>

text \<open>
  \<open>stored_action E s ac\<close>: the handle \<open>ac\<close> is what the lookup of its identifier
  returns in the store \<open>s\<close>. \<open>has_producer s aid\<close>: the producer index of \<open>s\<close> has an
  entry for the artifact \<open>aid\<close>.
\<close>

definition stored_action :: "env \<Rightarrow> store \<Rightarrow> actionCursor \<Rightarrow> bool" where
  "stored_action E s ac \<longleftrightarrow>
     actionTransaction E (actionCursor_Id ac) \<lparr>tsnap = s, twrites = [], tclock = 0\<rparr> = Inr ac"

definition has_producer :: "store \<Rightarrow> ArtifactID \<Rightarrow> bool" where
  "has_producer s aid \<longleftrightarrow>
     (\<exists>key. artifactProducerKey_Encode \<lparr>producer_artifactID = aid\<rparr> = Inr key \<and>
            map_of s key \<noteq> None)"

lemma txn_kv_begin [simp]: "txn_kv (begin_txn w) = kv w"
  by (simp add: txn_kv_def)

lemma actionTransaction_eq:
  "actionTransaction E aid t =
     (case map_of (txn_kv t) (subspace_Pack action_subspace [EBytes (Rep_uuid aid)]) of
        None \<Rightarrow> Inl (ErrActionNotFound aid)
      | Some data \<Rightarrow>
          (case actionValue_Decode E data of
             Inl e \<Rightarrow> Inl e
           | Inr av \<Rightarrow> Inr \<lparr>ac_key = \<lparr>action_id = aid\<rparr>, ac_value = av\<rparr>))"
  by (simp add: actionTransaction_def tr_ReadTransact_def Let_def key_Encode_eq tr_Get_def)

lemma artifactTransaction_eq:
  "artifactTransaction E aid t =
     (case map_of (txn_kv t) (subspace_Pack artifact_subspace [EBytes (Rep_uuid aid)]) of
        None \<Rightarrow> Inl (ErrArtifactNotFound aid)
      | Some data \<Rightarrow>
          (case artifactValue_Decode E data of
             Inl e \<Rightarrow> Inl e
           | Inr av \<Rightarrow> Inr \<lparr>art_key = \<lparr>artifact_id = aid\<rparr>, art_value = av\<rparr>))"
  by (simp add: artifactTransaction_def tr_ReadTransact_def Let_def key_Encode_eq tr_Get_def)

lemma artifactProducerTransaction_eq:
  "artifactProducerTransaction E art t =
     (case map_of (txn_kv t)
             (subspace_Pack producer_subspace [EBytes (Rep_uuid (artifactCursor_Id art))]) of
        None \<Rightarrow> Inl (ErrNoProducer (artifactCursor_Id art))
      | Some data \<Rightarrow>
          (case artifactProducerValue_Decode E data of
             Inl e \<Rightarrow> Inl e
           | Inr apv \<Rightarrow> actionTransaction E (producer_ActionID apv) t))"
  by (simp add: artifactProducerTransaction_def tr_ReadTransact_def Let_def key_Encode_eq
      tr_Get_def split: option.splits sum.splits)

lemma AddOutput_Inr:
  assumes "actionCursor_AddOutput E ac name label kind w = (Inr art, w')"
  shows "\<exists>v1 v2 v3 c.
           artifactValue_Encode E \<lparr>artifact_Label = label, artifact_Kind = kind\<rparr> = Inr v1 \<and>
           actionOutputValue_Encode E \<lparr>output_Name = name\<rparr> = Inr v2 \<and>
           artifactProducerValue_Encode E \<lparr>producer_ActionID = actionCursor_Id ac\<rparr> = Inr v3 \<and>
           uuid_NewV7 E c = Inr (artifactCursor_Id art) \<and>
           art_value art = \<lparr>artifact_Label = label, artifact_Kind = kind\<rparr> \<and>
           journal w' = journal w @
             [[(subspace_Pack artifact_subspace [EBytes (Rep_uuid (artifactCursor_Id art))], v1),
               (subspace_Pack output_subspace
                  [EBytes (Rep_uuid (actionCursor_Id ac)),
                   EBytes (Rep_uuid (artifactCursor_Id art))], v2),
               (subspace_Pack producer_subspace [EBytes (Rep_uuid (artifactCursor_Id art))], v3)]]"
proof -
  from db_Transact_cases [OF assms [unfolded actionCursor_AddOutput_def]]
  obtain c t where
    t: "addActionOutputTransaction E ac name label kind
          \<lparr>tsnap = kv w, twrites = [], tclock = c\<rparr> = (Inr art, t)"
    and j: "journal w' = journal w @ [twrites t]"
    by auto
  from addActionOutputTransaction_Inr [OF t] j show ?thesis
    by simp blast
qed

lemma AddArtifact_Inr:
  assumes "Graph_AddArtifact E label kind w = (Inr art, w')"
  shows "\<exists>v1 c.
           artifactValue_Encode E \<lparr>artifact_Label = label, artifact_Kind = kind\<rparr> = Inr v1 \<and>
           uuid_NewV7 E c = Inr (artifactCursor_Id art) \<and>
           art_value art = \<lparr>artifact_Label = label, artifact_Kind = kind\<rparr> \<and>
           journal w' = journal w @
             [[(subspace_Pack artifact_subspace [EBytes (Rep_uuid (artifactCursor_Id art))], v1)]]"
proof -
  from db_Transact_cases [OF assms [unfolded Graph_AddArtifact_def]]
  obtain c t where
    t: "addArtifactTransaction E label kind
          \<lparr>tsnap = kv w, twrites = [], tclock = c\<rparr> = (Inr art, t)"
    and j: "journal w' = journal w @ [twrites t]"
    by auto
  from addArtifactTransaction_Inr [OF t] j show ?thesis
    by (auto simp: tr_Set_def artifactCursor_Id_def)
qed

lemma kv_of_journal: "journal w' = journal w @ [ws] \<Longrightarrow> kv w' = rev ws @ kv w"
  by (simp add: kv_def)

lemma stored_action_lookup:
  assumes "stored_action E s ac"
  shows "\<exists>data. map_of s (subspace_Pack action_subspace [EBytes (Rep_uuid (actionCursor_Id ac))]) = Some data \<and>
           actionValue_Decode E data = Inr (ac_value ac) \<and>
           ac_key ac = \<lparr>action_id = actionCursor_Id ac\<rparr>"
  using assms
  by (cases ac)
     (auto simp: stored_action_def actionTransaction_eq txn_kv_def actionCursor_Id_def
      split: option.splits sum.splits)

lemma Producer_after_AddOutput:
  assumes add: "actionCursor_AddOutput E ac name label kind w = (Inr art, w')"
    and st: "stored_action E (kv w) ac"
    and gob: "gob_roundtrip E"
    and nf: "Failed \<notin> set (answers w')"
  shows "fst (artifactCursor_Producer E art w') = Inr ac"
proof -
  from AddOutput_Inr [OF add] obtain v1 v2 v3 where
    v3: "artifactProducerValue_Encode E \<lparr>producer_ActionID = actionCursor_Id ac\<rparr> = Inr v3"
    and j: "journal w' = journal w @
             [[(subspace_Pack artifact_subspace [EBytes (Rep_uuid (artifactCursor_Id art))], v1),
               (subspace_Pack output_subspace
                  [EBytes (Rep_uuid (actionCursor_Id ac)),
                   EBytes (Rep_uuid (artifactCursor_Id art))], v2),
               (subspace_Pack producer_subspace [EBytes (Rep_uuid (artifactCursor_Id art))], v3)]]"
    by blast
  from gob v3 have dec: "artifactProducerValue_Decode E v3 =
      Inr \<lparr>producer_ActionID = actionCursor_Id ac\<rparr>"
    by (auto simp: gob_roundtrip_def artifactProducerValue_Encode_def
        artifactProducerValue_Decode_def split: sum.splits)
  from stored_action_lookup [OF st] obtain data where
    d: "map_of (kv w) (subspace_Pack action_subspace [EBytes (Rep_uuid (actionCursor_Id ac))]) =
          Some data"
    and dd: "actionValue_Decode E data = Inr (ac_value ac)"
    and k: "ac_key ac = \<lparr>action_id = actionCursor_Id ac\<rparr>"
    by blast
  have "artifactProducerTransaction E art (begin_txn w') = Inr ac"
    using dec d dd k
    by (simp add: artifactProducerTransaction_eq actionTransaction_eq kv_of_journal [OF j]
        subspace_Pack_neq)
  with db_ReadTransact_no_failure [OF nf, of "artifactProducerTransaction E art"] show ?thesis
    by (simp add: artifactCursor_Producer_def)
qed

lemma Producer_after_AddArtifact:
  assumes add: "Graph_AddArtifact E label kind w = (Inr art, w')"
    and fresh: "\<not> has_producer (kv w) (artifactCursor_Id art)"
    and nf: "Failed \<notin> set (answers w')"
  shows "fst (artifactCursor_Producer E art w') = Inl (ErrNoProducer (artifactCursor_Id art))"
proof -
  from AddArtifact_Inr [OF add] obtain v1 where
    j: "journal w' = journal w @
          [[(subspace_Pack artifact_subspace [EBytes (Rep_uuid (artifactCursor_Id art))], v1)]]"
    by blast
  from fresh have
    "map_of (kv w) (subspace_Pack producer_subspace [EBytes (Rep_uuid (artifactCursor_Id art))]) =
       None"
    by (simp add: has_producer_def key_Encode_eq)
  then have "artifactProducerTransaction E art (begin_txn w') =
      Inl (ErrNoProducer (artifactCursor_Id art))"
    by (simp add: artifactProducerTransaction_eq kv_of_journal [OF j] subspace_Pack_neq)
  with db_ReadTransact_no_failure [OF nf, of "artifactProducerTransaction E art"] show ?thesis
    by (simp add: artifactCursor_Producer_def)
qed


definition demo_art2 :: artifactCursor where
  "demo_art2 = \<lparr>art_key = \<lparr>artifact_id = demo_id 2\<rparr>,
                art_value = \<lparr>artifact_Label = ''Loose'', artifact_Kind = ArtifactKindDirectory\<rparr>\<rparr>"

definition demo_w3s :: world where
  "demo_w3s =
     demo_w2\<lparr>journal := journal demo_w2 @
               [[(subspace_Pack artifact_subspace [EBytes (Rep_uuid (demo_id 2))],
                  ArtifactKindDirectory # put_str ''Loose'')]],
             clock := 3\<rparr>"

lemma demo_AddArtifact:
  "Graph_AddArtifact demo_env ''Loose'' ArtifactKindDirectory demo_w2 = (Inr demo_art2, demo_w3s)"
  by (simp add: Graph_AddArtifact_def db_Transact.simps
      addArtifactTransaction_def tr_Transact_def
      Let_def key_Encode_eq value_Encode_defs demo_env_sel tr_Set_def begin_txn_def cursor_defs
      demo_w2_def demo_art2_def demo_w3s_def)

lemma demo_id_inject [simp]: "demo_id m = demo_id n \<longleftrightarrow> (of_nat m :: byte) = of_nat n"
  by (simp add: demo_id_def Abs_uuid_inject)

lemma demo_stored_action: "stored_action demo_env (kv demo_w1) demo_ac0"
  by (simp add: stored_action_def actionTransaction_eq txn_kv_def kv_def demo_w1_def
      demo_ac0_def cursor_defs value_Decode_defs demo_env_sel takeElem_put_str_1
      get_str1_put_str bytes_str_str_bytes)

lemma demo_no_producer: "\<not> has_producer (kv demo_w2) (artifactCursor_Id demo_art2)"
  by (simp add: has_producer_def key_Encode_eq kv_def demo_w2_def demo_art2_def cursor_defs
      subspace_Pack_neq Rep_uuid_inject)

section \<open>C2: the producer of an artifact\<close>

text \<open>
  Claim C2. For every artifact created by \<open>AddOutput\<close>, the \<open>Producer\<close> lookup that
  follows returns exactly the action whose \<open>AddOutput\<close> created it; for every artifact
  created by the standalone \<open>AddArtifact\<close>, \<open>Producer\<close> fails with the "no producer
  found" error. The first part is for a handle of an action that is in the store and
  for a gob that round-trips; the second for a new identifier that the producer index
  does not hold already; both for a store that does not fail the lookup.
\<close>

theorem Producer_lookup:
  "(actionCursor_AddOutput E ac name label kind w = (Inr art, w') \<and>
    stored_action E (kv w) ac \<and> gob_roundtrip E \<and> Failed \<notin> set (answers w') \<longrightarrow>
      fst (artifactCursor_Producer E art w') = Inr ac) \<and>
   (Graph_AddArtifact E label2 kind2 v = (Inr art2, v') \<and>
    \<not> has_producer (kv v) (artifactCursor_Id art2) \<and> Failed \<notin> set (answers v') \<longrightarrow>
      fst (artifactCursor_Producer E art2 v') = Inl (ErrNoProducer (artifactCursor_Id art2)))"
  using Producer_after_AddOutput [of E ac name label kind w art w']
    Producer_after_AddArtifact [of E label2 kind2 v art2 v']
  by blast

theorem Producer_lookup_witness:
  "actionCursor_AddOutput demo_env demo_ac0 ''OUT'' ''Save'' ArtifactKindFile demo_w1 =
     (Inr demo_art1, demo_w2) \<and>
   stored_action demo_env (kv demo_w1) demo_ac0 \<and>
   gob_roundtrip demo_env \<and>
   Failed \<notin> set (answers demo_w2) \<and>
   fst (artifactCursor_Producer demo_env demo_art1 demo_w2) = Inr demo_ac0 \<and>
   Graph_AddArtifact demo_env ''Loose'' ArtifactKindDirectory demo_w2 = (Inr demo_art2, demo_w3s) \<and>
   \<not> has_producer (kv demo_w2) (artifactCursor_Id demo_art2) \<and>
   Failed \<notin> set (answers demo_w3s) \<and>
   fst (artifactCursor_Producer demo_env demo_art2 demo_w3s) =
     Inl (ErrNoProducer (artifactCursor_Id demo_art2))"
proof -
  have a: "Failed \<notin> set (answers demo_w2)" "Failed \<notin> set (answers demo_w3s)"
    by (simp_all add: demo_w2_def demo_w3s_def)
  from Producer_lookup [of demo_env demo_ac0 "''OUT''" "''Save''" ArtifactKindFile demo_w1
      demo_art1 demo_w2 "''Loose''" ArtifactKindDirectory demo_w2 demo_art2 demo_w3s]
    demo_AddOutput demo_stored_action gob_roundtrip_demo_env demo_AddArtifact demo_no_producer a
  show ?thesis by blast
qed

section \<open>Ranges, prefixes and the order of keys\<close>

lemma byte_less_Suc:
  assumes "c \<noteq> 255"
  shows "x < c + 1 \<longleftrightarrow> x \<le> (c :: byte)"
proof -
  have "(255 :: byte) = - 1" by simp
  with assms have "c \<noteq> - 1" by simp
  with inc_less_eq_iff [of c x] have "c + 1 \<le> x \<longleftrightarrow> c < x" by simp
  then show ?thesis by (simp add: not_le [symmetric])
qed

lemma range_is_prefix:
  "c \<noteq> 255 \<Longrightarrow> (q @ [c] \<le> k \<and> k < q @ [c + 1]) \<longleftrightarrow> prefix (q @ [c :: byte]) k"
proof (induction q arbitrary: k)
  case Nil
  then show ?case by (cases k) (auto simp: byte_less_Suc)
next
  case (Cons a q)
  show ?case
  proof (cases k)
    case Nil
    then show ?thesis by simp
  next
    case (Cons x xs)
    with Cons.IH [OF Cons.prems, of xs] show ?thesis by auto
  qed
qed

lemma Strinc_snoc: "c \<noteq> 255 \<Longrightarrow> Strinc (q @ [c]) = Inr (q @ [c + 1])"
  by (simp add: Strinc_def)

lemma kv_range_prefix:
  assumes "c \<noteq> 255" and "PrefixRange (q @ [c]) = Inr r"
  shows "kv_range r s =
           map (\<lambda>k. (k, the (map_of s k)))
             (sort (remdups (filter (prefix (q @ [c])) (map fst s))))"
proof -
  from assms have r: "r = (q @ [c], q @ [c + 1])"
    by (simp add: PrefixRange_def Strinc_snoc)
  show ?thesis
    unfolding kv_range_def r using range_is_prefix [OF assms(1), of q] by simp
qed


lemma escape_prefix:
  "length a = length b \<Longrightarrow> prefix (escape a @ [0]) (escape b @ 0 # r) \<longleftrightarrow> a = b"
  by (induction a b rule: list_induct2) auto

lemma byte_pos: "x \<noteq> 0 \<Longrightarrow> 0 < (x :: byte)"
  by (simp add: word_greater_zero_iff)

lemma escape_less:
  "length a = length b \<Longrightarrow>
   escape a @ 0 # r < escape b @ 0 # r' \<longleftrightarrow> a < b \<or> a = b \<and> r < r'"
proof (induction a b rule: list_induct2)
  case Nil
  then show ?case by simp
next
  case (Cons x xs y ys)
  then show ?case by (auto dest: byte_pos)
qed

lemma append_less_cancel: "s @ x < s @ y \<longleftrightarrow> x < (y :: bytes)"
  by (induction s) auto

lemma key1_less:
  "length a = length b \<Longrightarrow>
   subspace_Pack s [EBytes a] < subspace_Pack s [EBytes b] \<longleftrightarrow> a < b"
  using escape_less [of a b "[]" "[]"]
  by (simp add: subspace_Pack_def tuple_Pack_def append_less_cancel)

lemma key2_less:
  assumes "length a = length a'" and "length b = length b'"
  shows "subspace_Pack s [EBytes a, EBytes b] < subspace_Pack s [EBytes a', EBytes b'] \<longleftrightarrow>
           a < a' \<or> a = a' \<and> b < b'"
  using escape_less [OF assms(1), of "1 # escape b @ [0]" "1 # escape b' @ [0]"]
    escape_less [OF assms(2), of "[]" "[]"]
  by (simp add: subspace_Pack_def tuple_Pack_def append_less_cancel)

lemma prefix_key2:
  "length a = length a' \<Longrightarrow>
   prefix (subspace_Pack s [EBytes a]) (subspace_Pack s [EBytes a', EBytes b]) \<longleftrightarrow> a = a'"
  using escape_prefix [of a a' "1 # escape b @ [0]"]
  by (simp add: subspace_Pack_def tuple_Pack_def)

lemma prefix_key0: "prefix (subspace_Pack s []) (subspace_Pack s t)"
  by (simp add: subspace_Pack_def tuple_Pack_def)


lemma subspace_prefix_neq:
  "\<not> prefix (subspace_Pack action_subspace t) (subspace_Pack artifact_subspace t')"
  "\<not> prefix (subspace_Pack action_subspace t) (subspace_Pack input_subspace t')"
  "\<not> prefix (subspace_Pack action_subspace t) (subspace_Pack output_subspace t')"
  "\<not> prefix (subspace_Pack action_subspace t) (subspace_Pack producer_subspace t')"
  "\<not> prefix (subspace_Pack action_subspace t) (subspace_Pack consumer_subspace t')"
  "\<not> prefix (subspace_Pack artifact_subspace t) (subspace_Pack action_subspace t')"
  "\<not> prefix (subspace_Pack artifact_subspace t) (subspace_Pack input_subspace t')"
  "\<not> prefix (subspace_Pack artifact_subspace t) (subspace_Pack output_subspace t')"
  "\<not> prefix (subspace_Pack artifact_subspace t) (subspace_Pack producer_subspace t')"
  "\<not> prefix (subspace_Pack artifact_subspace t) (subspace_Pack consumer_subspace t')"
  "\<not> prefix (subspace_Pack input_subspace t) (subspace_Pack action_subspace t')"
  "\<not> prefix (subspace_Pack input_subspace t) (subspace_Pack artifact_subspace t')"
  "\<not> prefix (subspace_Pack input_subspace t) (subspace_Pack output_subspace t')"
  "\<not> prefix (subspace_Pack input_subspace t) (subspace_Pack producer_subspace t')"
  "\<not> prefix (subspace_Pack input_subspace t) (subspace_Pack consumer_subspace t')"
  "\<not> prefix (subspace_Pack output_subspace t) (subspace_Pack action_subspace t')"
  "\<not> prefix (subspace_Pack output_subspace t) (subspace_Pack artifact_subspace t')"
  "\<not> prefix (subspace_Pack output_subspace t) (subspace_Pack input_subspace t')"
  "\<not> prefix (subspace_Pack output_subspace t) (subspace_Pack producer_subspace t')"
  "\<not> prefix (subspace_Pack output_subspace t) (subspace_Pack consumer_subspace t')"
  "\<not> prefix (subspace_Pack producer_subspace t) (subspace_Pack action_subspace t')"
  "\<not> prefix (subspace_Pack producer_subspace t) (subspace_Pack artifact_subspace t')"
  "\<not> prefix (subspace_Pack producer_subspace t) (subspace_Pack input_subspace t')"
  "\<not> prefix (subspace_Pack producer_subspace t) (subspace_Pack output_subspace t')"
  "\<not> prefix (subspace_Pack producer_subspace t) (subspace_Pack consumer_subspace t')"
  "\<not> prefix (subspace_Pack consumer_subspace t) (subspace_Pack action_subspace t')"
  "\<not> prefix (subspace_Pack consumer_subspace t) (subspace_Pack artifact_subspace t')"
  "\<not> prefix (subspace_Pack consumer_subspace t) (subspace_Pack input_subspace t')"
  "\<not> prefix (subspace_Pack consumer_subspace t) (subspace_Pack output_subspace t')"
  "\<not> prefix (subspace_Pack consumer_subspace t) (subspace_Pack producer_subspace t')"
  by (simp_all add: subspace_Pack_def subspace_defs)

lemma subspace_last:
  "action_subspace = butlast action_subspace @ [0]"
  "subspace_Pack s [EBytes a] = butlast (subspace_Pack s [EBytes a]) @ [0]"
  by (simp_all add: subspace_Pack_def subspace_defs butlast_append)

lemma PrefixRange_keys:
  "PrefixRange (subspace_Pack action_subspace []) =
     Inr (action_subspace, butlast action_subspace @ [1])"
  "PrefixRange (subspace_Pack s [EBytes a]) =
     Inr (subspace_Pack s [EBytes a], butlast (subspace_Pack s [EBytes a]) @ [1])"
proof -
  have "Strinc (butlast action_subspace @ [0]) = Inr (butlast action_subspace @ [0 + 1])"
    by (rule Strinc_snoc) simp
  then show "PrefixRange (subspace_Pack action_subspace []) =
     Inr (action_subspace, butlast action_subspace @ [1])"
    using subspace_last(1) by (simp add: PrefixRange_def subspace_Pack_def tuple_Pack_def)
  have "Strinc (butlast (subspace_Pack s [EBytes a]) @ [0]) =
      Inr (butlast (subspace_Pack s [EBytes a]) @ [0 + 1])"
    by (rule Strinc_snoc) simp
  then show "PrefixRange (subspace_Pack s [EBytes a]) =
     Inr (subspace_Pack s [EBytes a], butlast (subspace_Pack s [EBytes a]) @ [1])"
    using subspace_last(2) [of s a] by (simp add: PrefixRange_def)
qed

text \<open>
  The range read of a prefix that ends with a terminator: the keys of the store that
  have the prefix, in ascending order, each with its latest value.
\<close>

definition scan :: "bytes \<Rightarrow> store \<Rightarrow> (bytes \<times> bytes) list" where
  "scan p s = map (\<lambda>k. (k, the (map_of s k))) (sort (remdups (filter (prefix p) (map fst s))))"

lemma kv_range_scan:
  "kv_range (action_subspace, butlast action_subspace @ [1]) st = scan action_subspace st"
  "kv_range (subspace_Pack s [EBytes a], butlast (subspace_Pack s [EBytes a]) @ [1]) st =
     scan (subspace_Pack s [EBytes a]) st"
proof -
  have r1: "\<And>k. (action_subspace \<le> k \<and> k < butlast action_subspace @ [1]) \<longleftrightarrow>
      prefix action_subspace k"
    using range_is_prefix [of 0 "butlast action_subspace"]
    by (simp add: subspace_last(1) [symmetric])
  show "kv_range (action_subspace, butlast action_subspace @ [1]) st =
      scan action_subspace st"
    by (simp add: kv_range_def scan_def r1)
  have r2: "\<And>k. (subspace_Pack s [EBytes a] \<le> k \<and>
        k < butlast (subspace_Pack s [EBytes a]) @ [1]) \<longleftrightarrow>
      prefix (subspace_Pack s [EBytes a]) k"
    using range_is_prefix [of 0 "butlast (subspace_Pack s [EBytes a])"]
    by (simp add: subspace_last(2) [of s a, symmetric])
  show "kv_range (subspace_Pack s [EBytes a],
        butlast (subspace_Pack s [EBytes a]) @ [1]) st =
      scan (subspace_Pack s [EBytes a]) st"
    by (simp add: kv_range_def scan_def r2)
qed

lemma set_scan_keys: "set (map fst (scan p s)) = {k \<in> fst ` set s. prefix p k}"
  by (auto simp: scan_def comp_def)

lemma distinct_scan_keys: "distinct (map fst (scan p s))"
  by (simp add: scan_def comp_def)


lemma scan_value: "(k, v) \<in> set (scan p s) \<Longrightarrow> map_of s k = Some v"
  by (auto simp: scan_def map_of_eq_None_iff dest!: weak_map_of_SomeI)

section \<open>Adding an input edge\<close>

lemma AddInput_Inr:
  assumes "actionCursor_AddInput E ac name art w = (Inr u, w')"
  shows "\<exists>iv.
           actionInputValue_Encode E \<lparr>input_Name = name\<rparr> = Inr iv \<and>
           journal w' = journal w @
             [[(subspace_Pack input_subspace
                  [EBytes (Rep_uuid (actionCursor_Id ac)),
                   EBytes (Rep_uuid (artifactCursor_Id art))], iv),
               (subspace_Pack consumer_subspace
                  [EBytes (Rep_uuid (artifactCursor_Id art)),
                   EBytes (Rep_uuid (actionCursor_Id ac))], [])]]"
proof -
  from db_Transact_cases [OF assms [unfolded actionCursor_AddInput_def]]
  obtain c t where
    t: "addActionInputTransaction E ac name art
          \<lparr>tsnap = kv w, twrites = [], tclock = c\<rparr> = (Inr u, t)"
    and j: "journal w' = journal w @ [twrites t]"
    by auto
  from t j show ?thesis
    by (auto simp: addActionInputTransaction_def tr_Transact_def Let_def key_Encode_eq
        tr_Set_def artifactCursor_Id_def artifactConsumerValue_Encode_def split: sum.splits)
qed

subsection \<open>Inserting a key into a sorted list of distinct keys\<close>

lemma sorted_distinct_split:
  fixes K :: "bytes list"
  assumes "sorted K" and "distinct K"
  shows "K = filter (\<lambda>k. k < a) K @ filter (\<lambda>k. k = a) K @ filter (\<lambda>k. a < k) K"
proof (rule sorted_distinct_set_unique)
  show "sorted K" by fact
  show "distinct K" by fact
  show "sorted (filter (\<lambda>k. k < a) K @ filter (\<lambda>k. k = a) K @ filter (\<lambda>k. a < k) K)"
    using assms(1) by (auto simp: sorted_append intro: sorted_wrt_filter)
  show "distinct (filter (\<lambda>k. k < a) K @ filter (\<lambda>k. k = a) K @ filter (\<lambda>k. a < k) K)"
    using assms(2) by auto
  show "set K = set (filter (\<lambda>k. k < a) K @ filter (\<lambda>k. k = a) K @ filter (\<lambda>k. a < k) K)"
    by auto
qed

lemma sort_remdups_insert:
  fixes F :: "bytes list"
  shows "sort (remdups (a # F)) =
           filter (\<lambda>k. k < a) (sort (remdups F)) @ [a] @ filter (\<lambda>k. a < k) (sort (remdups F))"
proof (rule sorted_distinct_set_unique)
  show "sorted (sort (remdups (a # F)))" by simp
  show "distinct (sort (remdups (a # F)))" by simp
  show "sorted (filter (\<lambda>k. k < a) (sort (remdups F)) @ [a] @
      filter (\<lambda>k. a < k) (sort (remdups F)))"
    by (auto simp: sorted_append intro: sorted_wrt_filter)
  show "distinct (filter (\<lambda>k. k < a) (sort (remdups F)) @ [a] @
      filter (\<lambda>k. a < k) (sort (remdups F)))"
    by auto
  show "set (sort (remdups (a # F))) =
      set (filter (\<lambda>k. k < a) (sort (remdups F)) @ [a] @ filter (\<lambda>k. a < k) (sort (remdups F)))"
    by auto
qed

lemma filter_eq_singleton:
  "distinct K \<Longrightarrow> filter (\<lambda>k. k = a) K = (if a \<in> set K then [a] else [])"
  by (induction K) auto


subsection \<open>The loops of the enumerations\<close>

definition stored_artifact :: "env \<Rightarrow> store \<Rightarrow> artifactCursor \<Rightarrow> bool" where
  "stored_artifact E s art \<longleftrightarrow>
     artifactTransaction E (artifactCursor_Id art) \<lparr>tsnap = s, twrites = [], tclock = 0\<rparr> =
       Inr art"

lemma stored_artifact_lookup:
  assumes "stored_artifact E s art"
  shows "\<exists>data. map_of s (subspace_Pack artifact_subspace
                    [EBytes (Rep_uuid (artifactCursor_Id art))]) = Some data \<and>
           artifactValue_Decode E data = Inr (art_value art) \<and>
           art_key art = \<lparr>artifact_id = artifactCursor_Id art\<rparr>"
  using assms
  by (cases art)
     (auto simp: stored_artifact_def artifactTransaction_eq txn_kv_def artifactCursor_Id_def
      split: option.splits sum.splits)

lemma consumers_loop_cong:
  "(\<And>a. actionTransaction E a t' = actionTransaction E a t) \<Longrightarrow>
   consumers_loop E t' L acc = consumers_loop E t L acc"
  by (induction L arbitrary: acc) (auto split: sum.splits)

lemma consumers_loop_Inr_all:
  "consumers_loop E t L acc = Inr res \<Longrightarrow> kvp \<in> set L \<Longrightarrow>
   \<exists>ack a. artifactConsumerKey_Decode E (fst kvp) = Inr ack \<and>
           actionTransaction E (consumer_actionID ack) t = Inr a"
  by (induction L arbitrary: acc) (auto split: sum.splits)

lemma consumers_loop_total:
  "(\<forall>kvp \<in> set L. \<exists>ack a. artifactConsumerKey_Decode E (fst kvp) = Inr ack \<and>
        actionTransaction E (consumer_actionID ack) t = Inr a) \<Longrightarrow>
   \<exists>res. consumers_loop E t L acc = Inr res"
  by (induction L arbitrary: acc) (auto split: sum.splits)

lemma consumers_loop_acc:
  "consumers_loop E t L acc = Inr res \<Longrightarrow> set acc \<subseteq> set res"
proof (induction L arbitrary: acc)
  case Nil
  then show ?case by simp
next
  case (Cons x L)
  from Cons.prems obtain a where "consumers_loop E t L (acc @ [a]) = Inr res"
    by (auto split: sum.splits)
  from Cons.IH [OF this] show ?case by simp
qed

lemma consumers_loop_mem:
  "consumers_loop E t L acc = Inr res \<Longrightarrow> kvp \<in> set L \<Longrightarrow>
   artifactConsumerKey_Decode E (fst kvp) = Inr ack \<Longrightarrow>
   actionTransaction E (consumer_actionID ack) t = Inr a \<Longrightarrow> a \<in> set res"
proof (induction L arbitrary: acc)
  case Nil
  then show ?case by simp
next
  case (Cons x L)
  show ?case
  proof (cases "kvp = x")
    case True
    with Cons.prems have "consumers_loop E t L (acc @ [a]) = Inr res" by simp
    from consumers_loop_acc [OF this] show ?thesis by simp
  next
    case False
    with Cons.prems have "kvp \<in> set L" by simp
    moreover from Cons.prems(1) obtain acc' where "consumers_loop E t L acc' = Inr res"
      by (auto split: sum.splits)
    ultimately show ?thesis using Cons.IH Cons.prems(3,4) by blast
  qed
qed

lemma inputs_loop_cong:
  "(\<And>a. artifactTransaction E a t' = artifactTransaction E a t) \<Longrightarrow>
   inputs_loop E t' L m = inputs_loop E t L m"
  by (induction L arbitrary: m) (auto split: sum.splits)

lemma inputs_loop_append:
  "inputs_loop E t (A @ B) m =
     (case inputs_loop E t A m of Inl e \<Rightarrow> Inl e | Inr m1 \<Rightarrow> inputs_loop E t B m1)"
  by (induction A arbitrary: m) (auto split: sum.splits)

text \<open>
  Two runs of the loop over the same entries, from two maps: both fail or both
  succeed; at a name, either an entry carries it and the two results are the same
  artifact, or the results are what the two maps held.
\<close>

lemma inputs_loop_two:
  "inputs_loop E t B m0 = Inr m' \<Longrightarrow>
   \<exists>m''. inputs_loop E t B m0' = Inr m'' \<and>
     ((\<exists>a. m'' n = Some a \<and> m' n = Some a) \<or> m'' n = m0' n \<and> m' n = m0 n)"
proof (induction B arbitrary: m0 m0')
  case Nil
  then show ?case by auto
next
  case (Cons x B)
  from Cons.prems obtain aik aiv a where
    d: "actionInputKey_Decode E (fst x) = Inr aik"
      "actionInputValue_Decode E (snd x) = Inr aiv"
      "artifactTransaction E (input_artifactID aik) t = Inr a"
    and r: "inputs_loop E t B (m0(input_Name aiv \<mapsto> a)) = Inr m'"
    by (auto split: sum.splits)
  from Cons.IH [OF r, of "m0'(input_Name aiv \<mapsto> a)"] obtain m'' where
    m: "inputs_loop E t B (m0'(input_Name aiv \<mapsto> a)) = Inr m''"
    and c: "(\<exists>a'. m'' n = Some a' \<and> m' n = Some a') \<or>
       m'' n = (m0'(input_Name aiv \<mapsto> a)) n \<and> m' n = (m0(input_Name aiv \<mapsto> a)) n"
    by blast
  from d m have "inputs_loop E t (x # B) m0' = Inr m''" by simp
  moreover from c have "(\<exists>a'. m'' n = Some a' \<and> m' n = Some a') \<or>
      m'' n = m0' n \<and> m' n = m0 n"
    by (cases "n = input_Name aiv") auto
  ultimately show ?case by blast
qed

lemma artifactConsumersTransaction_eq:
  "artifactConsumersTransaction E art t =
     consumers_loop E t
       (scan (subspace_Pack consumer_subspace [EBytes (Rep_uuid (artifactCursor_Id art))])
          (txn_kv t)) []"
  by (simp add: artifactConsumersTransaction_def tr_ReadTransact_def artifactConsumerRange_def
      MarshalBinary_def PrefixRange_keys tr_GetRange_def kv_range_scan)

lemma actionInputsTransaction_eq:
  "actionInputsTransaction E ac t =
     inputs_loop E t
       (scan (subspace_Pack input_subspace [EBytes (Rep_uuid (actionCursor_Id ac))])
          (txn_kv t)) Map.empty"
  by (simp add: actionInputsTransaction_def tr_ReadTransact_def actionInputRange_def
      MarshalBinary_def PrefixRange_keys tr_GetRange_def kv_range_scan)

lemma length_Rep_uuid [simp]: "length (Rep_uuid u) = 16"
  using Rep_uuid [of u] by simp

lemma Consumers_after_AddInput:
  assumes add: "actionCursor_AddInput E ac name art w = (Inr u, w')"
    and st: "stored_action E (kv w) ac"
    and before: "artifactConsumersTransaction E art \<lparr>tsnap = kv w, twrites = [], tclock = 0\<rparr> =
                   Inr cs"
    and nf: "Failed \<notin> set (answers w')"
  shows "\<exists>cs'. fst (artifactCursor_Consumers E art w') = Inr cs' \<and> ac \<in> set cs'"
proof -
  define ik where "ik = subspace_Pack input_subspace
    [EBytes (Rep_uuid (actionCursor_Id ac)), EBytes (Rep_uuid (artifactCursor_Id art))]"
  define ck where "ck = subspace_Pack consumer_subspace
    [EBytes (Rep_uuid (artifactCursor_Id art)), EBytes (Rep_uuid (actionCursor_Id ac))]"
  define pc where "pc = subspace_Pack consumer_subspace [EBytes (Rep_uuid (artifactCursor_Id art))]"
  define t0 where "t0 = \<lparr>tsnap = kv w, twrites = [], tclock = 0\<rparr>"
  from AddInput_Inr [OF add] obtain iv where
    j: "journal w' = journal w @ [[(ik, iv), (ck, [])]]"
    unfolding ik_def ck_def by blast
  have kv': "kv w' = (ck, []) # (ik, iv) # kv w"
    using kv_of_journal [OF j] by simp
  have t0kv: "txn_kv t0 = kv w" by (simp add: t0_def txn_kv_def)
  have acteq: "\<And>a. actionTransaction E a (begin_txn w') = actionTransaction E a t0"
    by (simp add: actionTransaction_eq kv' t0kv ik_def ck_def subspace_Pack_neq)
  have old: "consumers_loop E t0 (scan pc (kv w)) [] = Inr cs"
    using before by (simp add: artifactConsumersTransaction_eq t0kv pc_def t0_def [symmetric])
  have ckdec: "artifactConsumerKey_Decode E ck =
      Inr \<lparr>consumer_artifactID = artifactCursor_Id art, consumer_actionID = actionCursor_Id ac\<rparr>"
    by (rule artifactConsumerKey_roundtrip) (simp add: key_Encode_eq ck_def)
  have acres: "actionTransaction E (actionCursor_Id ac) t0 = Inr ac"
    using st by (simp add: stored_action_def t0_def)
  have ckpre: "prefix pc ck"
    by (simp add: pc_def ck_def prefix_key2)
  have ikpre: "\<not> prefix pc ik"
    by (simp add: pc_def ik_def subspace_prefix_neq)
  have all: "\<forall>kvp \<in> set (scan pc (kv w')).
      \<exists>ack a. artifactConsumerKey_Decode E (fst kvp) = Inr ack \<and>
        actionTransaction E (consumer_actionID ack) t0 = Inr a"
  proof
    fix kvp assume "kvp \<in> set (scan pc (kv w'))"
    then have "fst kvp \<in> set (map fst (scan pc (kv w')))" by simp
    then have "fst kvp \<in> fst ` set (kv w') \<and> prefix pc (fst kvp)"
      unfolding set_scan_keys by simp
    with kv' ikpre have "fst kvp = ck \<or> fst kvp \<in> fst ` set (kv w) \<and> prefix pc (fst kvp)"
      by auto
    then show "\<exists>ack a. artifactConsumerKey_Decode E (fst kvp) = Inr ack \<and>
        actionTransaction E (consumer_actionID ack) t0 = Inr a"
    proof
      assume "fst kvp = ck"
      with ckdec acres show ?thesis by simp
    next
      assume "fst kvp \<in> fst ` set (kv w) \<and> prefix pc (fst kvp)"
      then have "fst kvp \<in> set (map fst (scan pc (kv w)))"
        unfolding set_scan_keys by simp
      then obtain kvp0 where "kvp0 \<in> set (scan pc (kv w))" "fst kvp0 = fst kvp" by auto
      with consumers_loop_Inr_all [OF old, of kvp0] show ?thesis by simp
    qed
  qed
  from consumers_loop_total [OF all, of "[]"] obtain res where
    res: "consumers_loop E t0 (scan pc (kv w')) [] = Inr res" by blast
  have "ck \<in> set (map fst (scan pc (kv w')))"
    unfolding set_scan_keys using kv' ckpre by simp
  then obtain kvp where "kvp \<in> set (scan pc (kv w'))" "fst kvp = ck" by auto
  from consumers_loop_mem [OF res this(1)] this(2) ckdec acres have "ac \<in> set res" by simp
  moreover have "artifactConsumersTransaction E art (begin_txn w') = Inr res"
    using res consumers_loop_cong [of E "begin_txn w'" t0, OF acteq]
    by (simp add: artifactConsumersTransaction_eq pc_def)
  ultimately show ?thesis
    using db_ReadTransact_no_failure [OF nf, of "artifactConsumersTransaction E art"]
    by (simp add: artifactCursor_Consumers_def)
qed


section \<open>Evaluating lookups on concrete stores\<close>

lemma key_Decode_eq:
  "actionKey_Decode E (subspace_Pack action_subspace [EBytes (Rep_uuid a)]) =
     Inr \<lparr>action_id = a\<rparr>"
  "artifactKey_Decode E (subspace_Pack artifact_subspace [EBytes (Rep_uuid a)]) =
     Inr \<lparr>artifact_id = a\<rparr>"
  "actionInputKey_Decode E
     (subspace_Pack input_subspace [EBytes (Rep_uuid a), EBytes (Rep_uuid b)]) =
     Inr \<lparr>input_actionID = a, input_artifactID = b\<rparr>"
  "actionOutputKey_Decode E
     (subspace_Pack output_subspace [EBytes (Rep_uuid a), EBytes (Rep_uuid b)]) =
     Inr \<lparr>output_actionID = a, output_artifactID = b\<rparr>"
  "artifactProducerKey_Decode E (subspace_Pack producer_subspace [EBytes (Rep_uuid a)]) =
     Inr \<lparr>producer_artifactID = a\<rparr>"
  "artifactConsumerKey_Decode E
     (subspace_Pack consumer_subspace [EBytes (Rep_uuid a), EBytes (Rep_uuid b)]) =
     Inr \<lparr>consumer_artifactID = a, consumer_actionID = b\<rparr>"
  by (rule actionKey_roundtrip artifactKey_roundtrip actionInputKey_roundtrip
        actionOutputKey_roundtrip artifactProducerKey_roundtrip artifactConsumerKey_roundtrip,
      simp add: key_Encode_eq)+

lemma uuid_key1_le:
  "subspace_Pack s [EBytes (Rep_uuid a)] \<le> subspace_Pack s [EBytes (Rep_uuid b)] \<longleftrightarrow>
     Rep_uuid a \<le> Rep_uuid b"
  by (simp add: le_less key1_less Rep_uuid_inject)

lemma uuid_key2_le:
  "subspace_Pack s [EBytes (Rep_uuid a), EBytes (Rep_uuid b)] \<le>
     subspace_Pack s [EBytes (Rep_uuid a'), EBytes (Rep_uuid b')] \<longleftrightarrow>
       Rep_uuid a < Rep_uuid a' \<or> a = a' \<and> Rep_uuid b \<le> Rep_uuid b'"
  by (auto simp: le_less key2_less Rep_uuid_inject)

lemma uuid_prefix_key2:
  "prefix (subspace_Pack s [EBytes (Rep_uuid a)])
     (subspace_Pack s [EBytes (Rep_uuid a'), EBytes (Rep_uuid b)]) \<longleftrightarrow> a = a'"
  by (simp add: prefix_key2 Rep_uuid_inject)

definition cx_ac :: actionCursor where
  "cx_ac = \<lparr>ac_key = \<lparr>action_id = demo_id 0\<rparr>,
             ac_value = \<lparr>action_Label = ''Use'', action_Command = ''cat''\<rparr>\<rparr>"

definition cx_art1 :: artifactCursor where
  "cx_art1 = \<lparr>art_key = \<lparr>artifact_id = demo_id 1\<rparr>,
               art_value = \<lparr>artifact_Label = ''a'', artifact_Kind = ArtifactKindFile\<rparr>\<rparr>"

definition cx_art2 :: artifactCursor where
  "cx_art2 = \<lparr>art_key = \<lparr>artifact_id = demo_id 2\<rparr>,
               art_value = \<lparr>artifact_Label = ''b'', artifact_Kind = ArtifactKindFile\<rparr>\<rparr>"

definition cx_w1 :: world where
  "cx_w1 =
     \<lparr>journal =
        [[(subspace_Pack action_subspace [EBytes (Rep_uuid (demo_id 0))],
           put_str ''Use'' @ 1 # put_str ''cat'')]],
      clock = 1, answers = []\<rparr>"

definition cx_w2 :: world where
  "cx_w2 =
     cx_w1\<lparr>journal := journal cx_w1 @
             [[(subspace_Pack artifact_subspace [EBytes (Rep_uuid (demo_id 1))],
                ArtifactKindFile # put_str ''a'')]],
           clock := 2\<rparr>"

definition cx_w3 :: world where
  "cx_w3 =
     cx_w2\<lparr>journal := journal cx_w2 @
             [[(subspace_Pack artifact_subspace [EBytes (Rep_uuid (demo_id 2))],
                ArtifactKindFile # put_str ''b'')]],
           clock := 3\<rparr>"

definition cx_w4 :: world where
  "cx_w4 =
     cx_w3\<lparr>journal := journal cx_w3 @
             [[(subspace_Pack input_subspace
                  [EBytes (Rep_uuid (demo_id 0)), EBytes (Rep_uuid (demo_id 2))],
                put_str ''X''),
               (subspace_Pack consumer_subspace
                  [EBytes (Rep_uuid (demo_id 2)), EBytes (Rep_uuid (demo_id 0))], [])]]\<rparr>"

definition cx_w5 :: world where
  "cx_w5 =
     cx_w4\<lparr>journal := journal cx_w4 @
             [[(subspace_Pack input_subspace
                  [EBytes (Rep_uuid (demo_id 0)), EBytes (Rep_uuid (demo_id 1))],
                put_str ''X''),
               (subspace_Pack consumer_subspace
                  [EBytes (Rep_uuid (demo_id 1)), EBytes (Rep_uuid (demo_id 0))], [])]]\<rparr>"

lemmas write_defs = db_Transact.simps addActionTransaction_def addArtifactTransaction_def
  addActionInputTransaction_def addActionOutputTransaction_def tr_Transact_def Let_def
  key_Encode_eq value_Encode_defs demo_env_sel tr_Set_def begin_txn_def cursor_defs

lemmas cx_defs = cx_ac_def cx_art1_def cx_art2_def cx_w1_def cx_w2_def cx_w3_def cx_w4_def
  cx_w5_def

lemma cx_steps:
  "Graph_AddAction demo_env ''Use'' ''cat'' world0 = (Inr cx_ac, cx_w1)"
  "Graph_AddArtifact demo_env ''a'' ArtifactKindFile cx_w1 = (Inr cx_art1, cx_w2)"
  "Graph_AddArtifact demo_env ''b'' ArtifactKindFile cx_w2 = (Inr cx_art2, cx_w3)"
  "actionCursor_AddInput demo_env cx_ac ''X'' cx_art2 cx_w3 = (Inr (), cx_w4)"
  "actionCursor_AddInput demo_env cx_ac ''X'' cx_art1 cx_w4 = (Inr (), cx_w5)"
  by (simp_all add: Graph_AddAction_def Graph_AddArtifact_def actionCursor_AddInput_def
      write_defs world0_def cx_defs)

lemma Rep_demo_id_less:
  "Rep_uuid (demo_id m) < Rep_uuid (demo_id n) \<longleftrightarrow> (of_nat m :: byte) < of_nat n"
  "Rep_uuid (demo_id m) \<le> Rep_uuid (demo_id n) \<longleftrightarrow> (of_nat m :: byte) \<le> of_nat n"
  by (auto simp: Rep_demo_id)

lemmas read_defs = actionInputsTransaction_eq artifactConsumersTransaction_eq
  actionTransaction_eq artifactTransaction_eq artifactProducerTransaction_eq
  scan_def kv_def txn_kv_def key_Decode_eq value_Decode_defs demo_env_sel
  subspace_Pack_neq subspace_prefix_neq uuid_prefix_key2 uuid_key2_le uuid_key1_le
  Rep_uuid_inject Rep_demo_id_less demo_id_inject takeElem_put_str_1 get_str1_put_str bytes_str_str_bytes
  prefix_key0

lemma cx_Inputs:
  "actionInputsTransaction demo_env cx_ac (begin_txn cx_w5) = Inr [''X'' \<mapsto> cx_art2]"
  by (simp add: read_defs begin_txn_def cx_defs cursor_defs)


definition demo_ac2 :: actionCursor where
  "demo_ac2 = \<lparr>ac_key = \<lparr>action_id = demo_id 2\<rparr>,
               ac_value = \<lparr>action_Label = ''Greet'', action_Command = ''cat''\<rparr>\<rparr>"

definition demo_w3 :: world where
  "demo_w3 =
     demo_w2\<lparr>journal := journal demo_w2 @
               [[(subspace_Pack action_subspace [EBytes (Rep_uuid (demo_id 2))],
                  put_str ''Greet'' @ 1 # put_str ''cat'')]],
             clock := 3\<rparr>"

definition demo_w4 :: world where
  "demo_w4 =
     demo_w3\<lparr>journal := journal demo_w3 @
               [[(subspace_Pack input_subspace
                    [EBytes (Rep_uuid (demo_id 2)), EBytes (Rep_uuid (demo_id 1))],
                  put_str ''GREETING''),
                 (subspace_Pack consumer_subspace
                    [EBytes (Rep_uuid (demo_id 1)), EBytes (Rep_uuid (demo_id 2))], [])]]\<rparr>"

lemmas demo_defs = demo_ac0_def demo_w1_def demo_art1_def demo_w2_def demo_ac2_def demo_w3_def
  demo_w4_def

lemma demo_steps:
  "Graph_AddAction demo_env ''Greet'' ''cat'' demo_w2 = (Inr demo_ac2, demo_w3)"
  "actionCursor_AddInput demo_env demo_ac2 ''GREETING'' demo_art1 demo_w3 = (Inr (), demo_w4)"
  by (simp_all add: Graph_AddAction_def actionCursor_AddInput_def write_defs demo_defs)

lemma demo_before_AddInput:
  "stored_action demo_env (kv demo_w3) demo_ac2"
  "stored_artifact demo_env (kv demo_w3) demo_art1"
  "artifactConsumersTransaction demo_env demo_art1
     \<lparr>tsnap = kv demo_w3, twrites = [], tclock = 0\<rparr> = Inr []"
  "actionInputsTransaction demo_env demo_ac2
     \<lparr>tsnap = kv demo_w3, twrites = [], tclock = 0\<rparr> = Inr Map.empty"
  by (simp_all add: stored_action_def stored_artifact_def read_defs demo_defs cursor_defs)

section \<open>C3: what an input edge makes visible\<close>

text \<open>
  Claim C3 says that, for every (action, artifact) pair wired by \<open>AddInput\<close> with some
  name, \<open>Consumers(artifact)\<close> afterwards contains the action and \<open>Inputs(action)\<close>
  maps the name to the artifact. \<open>Inputs\<close> collects the edges of the action into a
  map keyed by name, in ascending order of the artifact identifier, so that of two
  edges with the same name the one with the greater artifact identifier stays: after
  \<open>AddInput(''X'', b)\<close> and then \<open>AddInput(''X'', a)\<close> on the same action, with \<open>a\<close> created
  before \<open>b\<close>, \<open>Inputs\<close> maps \<open>''X''\<close> to \<open>b\<close>.
\<close>

theorem AddInput_same_name_counterexample:
  "Graph_AddAction demo_env ''Use'' ''cat'' world0 = (Inr cx_ac, cx_w1) \<and>
   Graph_AddArtifact demo_env ''a'' ArtifactKindFile cx_w1 = (Inr cx_art1, cx_w2) \<and>
   Graph_AddArtifact demo_env ''b'' ArtifactKindFile cx_w2 = (Inr cx_art2, cx_w3) \<and>
   actionCursor_AddInput demo_env cx_ac ''X'' cx_art2 cx_w3 = (Inr (), cx_w4) \<and>
   actionCursor_AddInput demo_env cx_ac ''X'' cx_art1 cx_w4 = (Inr (), cx_w5) \<and>
   fst (actionCursor_Inputs demo_env cx_ac cx_w5) = Inr [''X'' \<mapsto> cx_art2] \<and>
   cx_art2 \<noteq> cx_art1"
proof -
  have "Failed \<notin> set (answers cx_w5)" by (simp add: cx_defs)
  from db_ReadTransact_no_failure [OF this, of "actionInputsTransaction demo_env cx_ac"]
  have "fst (actionCursor_Inputs demo_env cx_ac cx_w5) = Inr [''X'' \<mapsto> cx_art2]"
    by (simp add: actionCursor_Inputs_def cx_Inputs)
  moreover have "cx_art2 \<noteq> cx_art1" by (simp add: cx_defs)
  ultimately show ?thesis using cx_steps by simp
qed

section \<open>Re-declaring an input edge\<close>

lemma scan_mem:
  "map_of s k = Some v \<Longrightarrow> prefix p k \<Longrightarrow> (k, v) \<in> set (scan p s)"
  by (force simp: scan_def dest: map_of_SomeD)

lemma filter_key_distinct:
  "distinct (map fst L) \<Longrightarrow> (k, v) \<in> set L \<Longrightarrow> filter (\<lambda>kvp. fst kvp = k) L = [(k, v)]"
proof (induction L)
  case Nil
  then show ?case by simp
next
  case (Cons x L)
  show ?case
  proof (cases "x = (k, v)")
    case True
    with Cons.prems(1) have "\<forall>y \<in> set L. fst y \<noteq> k" by force
    then have "filter (\<lambda>kvp. fst kvp = k) L = []" by (simp add: filter_empty_conv)
    with True show ?thesis by simp
  next
    case False
    with Cons.prems have in_L: "(k, v) \<in> set L" by simp
    then have "k \<in> fst ` set L" by force
    with Cons.prems(1) have "fst x \<noteq> k" by auto
    with Cons.IH Cons.prems(1) in_L show ?thesis by simp
  qed
qed

lemma scan_exactly_one:
  "map_of s k = Some v \<Longrightarrow> prefix p k \<Longrightarrow> filter (\<lambda>kvp. fst kvp = k) (scan p s) = [(k, v)]"
  by (rule filter_key_distinct [OF distinct_scan_keys scan_mem])

definition demo_w5 :: world where
  "demo_w5 =
     demo_w4\<lparr>journal := journal demo_w4 @
               [[(subspace_Pack input_subspace
                    [EBytes (Rep_uuid (demo_id 2)), EBytes (Rep_uuid (demo_id 1))],
                  put_str ''HELLO''),
                 (subspace_Pack consumer_subspace
                    [EBytes (Rep_uuid (demo_id 1)), EBytes (Rep_uuid (demo_id 2))], [])]]\<rparr>"

lemma demo_AddInput_again:
  "actionCursor_AddInput demo_env demo_ac2 ''HELLO'' demo_art1 demo_w4 = (Inr (), demo_w5)"
  by (simp add: actionCursor_AddInput_def write_defs demo_defs demo_w5_def)

section \<open>C5: re-declaring an input edge overwrites its name\<close>

text \<open>
  Claim C5. For every action, artifact and two names \<open>n1\<close> and \<open>n2\<close>, after
  \<open>AddInput(action, n1, artifact)\<close> and then \<open>AddInput(action, n2, artifact)\<close> the range
  of the input edges of the action holds exactly one entry for (action, artifact),
  whose value is the encoding of the name \<open>n2\<close> (which decodes to \<open>n2\<close> when gob
  round-trips), and the range of the consumers of the artifact holds exactly one
  entry for (artifact, action): no duplicate is created.
\<close>

theorem AddInput_twice:
  assumes "actionCursor_AddInput E ac n1 art w = (Inr u1, w1)"
    and "actionCursor_AddInput E ac n2 art w1 = (Inr u2, w2)"
  shows "\<exists>ik ck iv rI rC.
           actionInputKey_Encode
             \<lparr>input_actionID = actionCursor_Id ac,
              input_artifactID = artifactCursor_Id art\<rparr> = Inr ik \<and>
           artifactConsumerKey_Encode
             \<lparr>consumer_artifactID = artifactCursor_Id art,
              consumer_actionID = actionCursor_Id ac\<rparr> = Inr ck \<and>
           actionInputValue_Encode E \<lparr>input_Name = n2\<rparr> = Inr iv \<and>
           (gob_roundtrip E \<longrightarrow> actionInputValue_Decode E iv = Inr \<lparr>input_Name = n2\<rparr>) \<and>
           actionInputRange (actionCursor_Id ac) = Inr rI \<and>
           artifactConsumerRange (artifactCursor_Id art) = Inr rC \<and>
           filter (\<lambda>kvp. fst kvp = ik) (tr_GetRange rI (begin_txn w2)) = [(ik, iv)] \<and>
           filter (\<lambda>kvp. fst kvp = ck) (tr_GetRange rC (begin_txn w2)) = [(ck, [])]"
proof -
  define ik where "ik = subspace_Pack input_subspace
    [EBytes (Rep_uuid (actionCursor_Id ac)), EBytes (Rep_uuid (artifactCursor_Id art))]"
  define ck where "ck = subspace_Pack consumer_subspace
    [EBytes (Rep_uuid (artifactCursor_Id art)), EBytes (Rep_uuid (actionCursor_Id ac))]"
  define pI where "pI = subspace_Pack input_subspace [EBytes (Rep_uuid (actionCursor_Id ac))]"
  define pC where "pC = subspace_Pack consumer_subspace [EBytes (Rep_uuid (artifactCursor_Id art))]"
  from AddInput_Inr [OF assms(2)] obtain iv where
    iv: "actionInputValue_Encode E \<lparr>input_Name = n2\<rparr> = Inr iv"
    and j: "journal w2 = journal w1 @ [[(ik, iv), (ck, [])]]"
    unfolding ik_def ck_def by blast
  have kv2: "kv w2 = (ck, []) # (ik, iv) # kv w1"
    using kv_of_journal [OF j] by simp
  have ikck: "ik \<noteq> ck" by (simp add: ik_def ck_def subspace_Pack_neq)
  have "map_of (kv w2) ik = Some iv" using ikck by (simp add: kv2)
  moreover have "prefix pI ik" by (simp add: pI_def ik_def prefix_key2)
  ultimately have one_i: "filter (\<lambda>kvp. fst kvp = ik) (scan pI (kv w2)) = [(ik, iv)]"
    by (rule scan_exactly_one)
  have "map_of (kv w2) ck = Some []" by (simp add: kv2)
  moreover have "prefix pC ck" by (simp add: pC_def ck_def prefix_key2)
  ultimately have one_c: "filter (\<lambda>kvp. fst kvp = ck) (scan pC (kv w2)) = [(ck, [])]"
    by (rule scan_exactly_one)
  have dec: "gob_roundtrip E \<longrightarrow> actionInputValue_Decode E iv = Inr \<lparr>input_Name = n2\<rparr>"
    using iv
    by (auto simp: gob_roundtrip_def actionInputValue_Encode_def actionInputValue_Decode_def
        split: sum.splits)
  have rI: "actionInputRange (actionCursor_Id ac) = Inr (pI, butlast pI @ [1])"
    by (simp add: actionInputRange_def MarshalBinary_def PrefixRange_keys pI_def)
  have rC: "artifactConsumerRange (artifactCursor_Id art) = Inr (pC, butlast pC @ [1])"
    by (simp add: artifactConsumerRange_def MarshalBinary_def PrefixRange_keys pC_def)
  have gI: "tr_GetRange (pI, butlast pI @ [1]) (begin_txn w2) = scan pI (kv w2)"
    by (simp add: tr_GetRange_def kv_range_scan pI_def)
  have gC: "tr_GetRange (pC, butlast pC @ [1]) (begin_txn w2) = scan pC (kv w2)"
    by (simp add: tr_GetRange_def kv_range_scan pC_def)
  have "actionInputKey_Encode
      \<lparr>input_actionID = actionCursor_Id ac, input_artifactID = artifactCursor_Id art\<rparr> = Inr ik"
    by (simp add: key_Encode_eq ik_def)
  moreover have "artifactConsumerKey_Encode
      \<lparr>consumer_artifactID = artifactCursor_Id art, consumer_actionID = actionCursor_Id ac\<rparr> =
        Inr ck"
    by (simp add: key_Encode_eq ck_def)
  moreover have "filter (\<lambda>kvp. fst kvp = ik) (tr_GetRange (pI, butlast pI @ [1]) (begin_txn w2)) =
      [(ik, iv)]"
    unfolding gI by (rule one_i)
  moreover have "filter (\<lambda>kvp. fst kvp = ck) (tr_GetRange (pC, butlast pC @ [1]) (begin_txn w2)) =
      [(ck, [])]"
    unfolding gC by (rule one_c)
  ultimately show ?thesis
    using iv dec rI rC by blast
qed


theorem AddInput_twice_witness:
  "actionCursor_AddInput demo_env demo_ac2 ''GREETING'' demo_art1 demo_w3 = (Inr (), demo_w4) \<and>
   actionCursor_AddInput demo_env demo_ac2 ''HELLO'' demo_art1 demo_w4 = (Inr (), demo_w5) \<and>
   gob_roundtrip demo_env \<and>
   actionInputValue_Decode demo_env (put_str ''HELLO'') = Inr \<lparr>input_Name = ''HELLO''\<rparr> \<and>
   filter (\<lambda>kvp. fst kvp = subspace_Pack input_subspace
                     [EBytes (Rep_uuid (demo_id 2)), EBytes (Rep_uuid (demo_id 1))])
     (tr_GetRange
        (subspace_Pack input_subspace [EBytes (Rep_uuid (demo_id 2))],
         butlast (subspace_Pack input_subspace [EBytes (Rep_uuid (demo_id 2))]) @ [1])
        (begin_txn demo_w5)) =
     [(subspace_Pack input_subspace
         [EBytes (Rep_uuid (demo_id 2)), EBytes (Rep_uuid (demo_id 1))], put_str ''HELLO'')] \<and>
   filter (\<lambda>kvp. fst kvp = subspace_Pack consumer_subspace
                     [EBytes (Rep_uuid (demo_id 1)), EBytes (Rep_uuid (demo_id 2))])
     (tr_GetRange
        (subspace_Pack consumer_subspace [EBytes (Rep_uuid (demo_id 1))],
         butlast (subspace_Pack consumer_subspace [EBytes (Rep_uuid (demo_id 1))]) @ [1])
        (begin_txn demo_w5)) =
     [(subspace_Pack consumer_subspace
         [EBytes (Rep_uuid (demo_id 1)), EBytes (Rep_uuid (demo_id 2))], [])]"
proof -
  from AddInput_twice [OF demo_steps(2) demo_AddInput_again] obtain ik ck iv rI rC where
    h: "actionInputKey_Encode
          \<lparr>input_actionID = actionCursor_Id demo_ac2,
           input_artifactID = artifactCursor_Id demo_art1\<rparr> = Inr ik"
       "artifactConsumerKey_Encode
          \<lparr>consumer_artifactID = artifactCursor_Id demo_art1,
           consumer_actionID = actionCursor_Id demo_ac2\<rparr> = Inr ck"
       "actionInputValue_Encode demo_env \<lparr>input_Name = ''HELLO''\<rparr> = Inr iv"
       "gob_roundtrip demo_env \<longrightarrow>
          actionInputValue_Decode demo_env iv = Inr \<lparr>input_Name = ''HELLO''\<rparr>"
       "actionInputRange (actionCursor_Id demo_ac2) = Inr rI"
       "artifactConsumerRange (artifactCursor_Id demo_art1) = Inr rC"
       "filter (\<lambda>kvp. fst kvp = ik) (tr_GetRange rI (begin_txn demo_w5)) = [(ik, iv)]"
       "filter (\<lambda>kvp. fst kvp = ck) (tr_GetRange rC (begin_txn demo_w5)) = [(ck, [])]"
    by blast
  have ik: "ik = subspace_Pack input_subspace
      [EBytes (Rep_uuid (demo_id 2)), EBytes (Rep_uuid (demo_id 1))]"
    using h(1) by (simp add: key_Encode_eq cursor_defs demo_defs)
  have ck: "ck = subspace_Pack consumer_subspace
      [EBytes (Rep_uuid (demo_id 1)), EBytes (Rep_uuid (demo_id 2))]"
    using h(2) by (simp add: key_Encode_eq cursor_defs demo_defs)
  have iv: "iv = put_str ''HELLO''"
    using h(3) by (simp add: value_Encode_defs demo_env_sel)
  have rI: "rI = (subspace_Pack input_subspace [EBytes (Rep_uuid (demo_id 2))],
      butlast (subspace_Pack input_subspace [EBytes (Rep_uuid (demo_id 2))]) @ [1])"
    using h(5)
    by (simp add: actionInputRange_def MarshalBinary_def PrefixRange_keys cursor_defs demo_defs)
  have rC: "rC = (subspace_Pack consumer_subspace [EBytes (Rep_uuid (demo_id 1))],
      butlast (subspace_Pack consumer_subspace [EBytes (Rep_uuid (demo_id 1))]) @ [1])"
    using h(6)
    by (simp add: artifactConsumerRange_def MarshalBinary_def PrefixRange_keys cursor_defs
        demo_defs)
  from h(4,7,8) gob_roundtrip_demo_env demo_steps(2) demo_AddInput_again
  show ?thesis unfolding ik ck iv rI rC by blast
qed

section \<open>A decoded key is the encoding of what it decodes to\<close>

lemma takeElem_Some: "takeElem r = Some (p, rest) \<Longrightarrow> r = escape p @ 0 # rest"
proof (induction r arbitrary: p rest rule: takeElem.induct)
  case 1
  then show ?case by simp
next
  case (2 b bs)
  show ?case
  proof (cases "b = 0")
    case False
    with "2.prems" obtain p' where "takeElem bs = Some (p', rest)" "p = b # p'"
      by (auto split: option.splits)
    with "2.IH"(2) [OF False] False show ?thesis by simp
  next
    case True
    show ?thesis
    proof (cases bs)
      case Nil
      with True "2.prems" show ?thesis by simp
    next
      case (Cons c cs)
      show ?thesis
      proof (cases "c = 255")
        case False
        with True Cons "2.prems" show ?thesis by simp
      next
        case c: True
        with True Cons "2.prems" obtain p' where "takeElem cs = Some (p', rest)" "p = 0 # p'"
          by (auto split: option.splits)
        with "2.IH"(1) [OF True Cons c] True Cons c show ?thesis by simp
      qed
    qed
  qed
qed

lemma decodeTuple_canonical: "decodeTuple E b = Inr t \<Longrightarrow> tuple_Pack t = b"
proof (induction E b arbitrary: t rule: decodeTuple.induct)
  case (1 E)
  then show ?case by (simp add: tuple_Pack_def)
next
  case (2 E c r)
  show ?case
  proof (cases "c = 0")
    case True
    with "2.prems" obtain t' where t': "decodeTuple E r = Inr t'" "t = ENil # t'"
      by (auto split: sum.splits)
    from "2.IH"(1) [OF True t'(1)] True t'(2) show ?thesis by (simp add: tuple_Pack_def)
  next
    case c0: False
    show ?thesis
    proof (cases "c = 1 \<or> c = 2")
      case True
      with c0 "2.prems" obtain p rest t' where
        te: "takeElem r = Some (p, rest)" and t': "decodeTuple E rest = Inr t'"
        and t: "t = (if c = 1 then EBytes p else EString p) # t'"
        by (auto split: option.splits sum.splits)
      from "2.IH"(2) [OF c0 True te refl t'] have "tuple_Pack t' = rest" .
      with takeElem_Some [OF te] t True show ?thesis
        by (auto simp: tuple_Pack_def)
    next
      case False
      with c0 "2.prems" obtain n t' where
        n: "tuple_other E (c # r) = Inr n" and t': "decodeTuple E (drop n r) = Inr t'"
        and t: "t = EOther (c # take n r) # t'"
        by (auto split: sum.splits)
      from "2.IH"(3) [OF c0 False n t'] have "tuple_Pack t' = drop n r" .
      with t show ?thesis by (simp add: tuple_Pack_def)
    qed
  qed
qed

lemma subspace_Unpack_canonical:
  "subspace_Unpack E s key = Inr t \<Longrightarrow> key = subspace_Pack s t"
  by (auto simp: subspace_Unpack_def subspace_Pack_def tuple_Unpack_def prefix_def
      dest: decodeTuple_canonical split: if_splits)

lemma key_Decode_canonical:
  "actionKey_Decode E key = Inr k1 \<Longrightarrow>
     key = subspace_Pack action_subspace [EBytes (Rep_uuid (action_id k1))]"
  "artifactKey_Decode E key = Inr k2 \<Longrightarrow>
     key = subspace_Pack artifact_subspace [EBytes (Rep_uuid (artifact_id k2))]"
  "actionInputKey_Decode E key = Inr k3 \<Longrightarrow>
     key = subspace_Pack input_subspace
             [EBytes (Rep_uuid (input_actionID k3)), EBytes (Rep_uuid (input_artifactID k3))]"
  "actionOutputKey_Decode E key = Inr k4 \<Longrightarrow>
     key = subspace_Pack output_subspace
             [EBytes (Rep_uuid (output_actionID k4)), EBytes (Rep_uuid (output_artifactID k4))]"
  "artifactProducerKey_Decode E key = Inr k5 \<Longrightarrow>
     key = subspace_Pack producer_subspace [EBytes (Rep_uuid (producer_artifactID k5))]"
  "artifactConsumerKey_Decode E key = Inr k6 \<Longrightarrow>
     key = subspace_Pack consumer_subspace
             [EBytes (Rep_uuid (consumer_artifactID k6)), EBytes (Rep_uuid (consumer_actionID k6))]"
  using actionKey_Decode_shape [of E key k1] artifactKey_Decode_shape [of E key k2]
    actionInputKey_Decode_shape [of E key k3] actionOutputKey_Decode_shape [of E key k4]
    artifactProducerKey_Decode_shape [of E key k5] artifactConsumerKey_Decode_shape [of E key k6]
  by (auto dest: subspace_Unpack_canonical)


section \<open>What the enumerations return\<close>

lemma db_ReadTransact_Inr:
  "db_ReadTransact f w = (Inr r, w') \<Longrightarrow> f (begin_txn w) = Inr r"
proof (induction f w rule: db_ReadTransact.induct)
  case (1 f w)
  show ?case
  proof (cases "f (begin_txn w)")
    case (Inl e)
    with "1.prems" show ?thesis by (simp add: db_ReadTransact.simps [of f w])
  next
    case (Inr r0)
    show ?thesis
    proof (cases "answers w")
      case Nil
      with Inr "1.prems" show ?thesis by (simp add: db_ReadTransact.simps [of f w])
    next
      case (Cons a os)
      show ?thesis
      proof (cases a)
        case Committed
        with Cons Inr "1.prems" show ?thesis by (simp add: db_ReadTransact.simps [of f w])
      next
        case Conflict
        with Cons Inr "1.prems" have "db_ReadTransact f (w\<lparr>answers := os\<rparr>) = (Inr r, w')"
          by (simp add: db_ReadTransact.simps [of f w])
        from "1.IH" [OF Inr Cons Conflict this] show ?thesis by (simp add: begin_txn_def)
      next
        case Failed
        with Cons Inr "1.prems" show ?thesis by (simp add: db_ReadTransact.simps [of f w])
      qed
    qed
  qed
qed



lemma inputs_loop_source:
  "inputs_loop E t L m0 = Inr m \<Longrightarrow> m n = Some a \<Longrightarrow>
   m0 n = Some a \<or>
   (\<exists>kvp \<in> set L. \<exists>aik.
      actionInputKey_Decode E (fst kvp) = Inr aik \<and>
      actionInputValue_Decode E (snd kvp) = Inr \<lparr>input_Name = n\<rparr> \<and>
      artifactTransaction E (input_artifactID aik) t = Inr a)"
proof (induction L arbitrary: m0)
  case Nil
  then show ?case by simp
next
  case (Cons x L)
  from Cons.prems(1) obtain aik aiv a' where
    d: "actionInputKey_Decode E (fst x) = Inr aik"
       "actionInputValue_Decode E (snd x) = Inr aiv"
       "artifactTransaction E (input_artifactID aik) t = Inr a'"
    and r: "inputs_loop E t L (m0(input_Name aiv \<mapsto> a')) = Inr m"
    by (auto split: sum.splits)
  from Cons.IH [OF r Cons.prems(2)] show ?case
  proof
    assume h: "(m0(input_Name aiv \<mapsto> a')) n = Some a"
    show ?thesis
    proof (cases "n = input_Name aiv")
      case True
      with h have "a' = a" by simp
      moreover from True have "aiv = \<lparr>input_Name = n\<rparr>" by simp
      ultimately show ?thesis using d by auto
    next
      case False
      with h show ?thesis by simp
    qed
  next
    assume "\<exists>kvp \<in> set L. \<exists>aik.
      actionInputKey_Decode E (fst kvp) = Inr aik \<and>
      actionInputValue_Decode E (snd kvp) = Inr \<lparr>input_Name = n\<rparr> \<and>
      artifactTransaction E (input_artifactID aik) t = Inr a"
    then show ?thesis by auto
  qed
qed



lemma artifactTransaction_Inr_Id:
  "artifactTransaction E aid t = Inr a \<Longrightarrow> artifactCursor_Id a = aid"
  by (auto simp: artifactTransaction_eq artifactCursor_Id_def split: option.splits sum.splits)














subsection \<open>A new action is enumerated last\<close>

lemma addActionTransaction_Inr:
  assumes "addActionTransaction E label command t = (Inr a, t')"
  shows "\<exists>va. actionValue_Encode E \<lparr>action_Label = label, action_Command = command\<rparr> = Inr va \<and>
           uuid_NewV7 E (tclock t) = Inr (actionCursor_Id a) \<and>
           a = \<lparr>ac_key = \<lparr>action_id = actionCursor_Id a\<rparr>,
                ac_value = \<lparr>action_Label = label, action_Command = command\<rparr>\<rparr> \<and>
           twrites t' = twrites t @
             [(subspace_Pack action_subspace [EBytes (Rep_uuid (actionCursor_Id a))], va)]"
  using assms
  by (auto simp: addActionTransaction_def tr_Transact_def Let_def key_Encode_eq tr_Set_def
      actionCursor_Id_def split: sum.splits)

lemma AddAction_Inr:
  assumes "Graph_AddAction E label command w = (Inr a, w')"
  shows "\<exists>va c. actionValue_Encode E \<lparr>action_Label = label, action_Command = command\<rparr> = Inr va \<and>
           uuid_NewV7 E c = Inr (actionCursor_Id a) \<and>
           a = \<lparr>ac_key = \<lparr>action_id = actionCursor_Id a\<rparr>,
                ac_value = \<lparr>action_Label = label, action_Command = command\<rparr>\<rparr> \<and>
           journal w' = journal w @
             [[(subspace_Pack action_subspace [EBytes (Rep_uuid (actionCursor_Id a))], va)]]"
proof -
  from db_Transact_cases [OF assms [unfolded Graph_AddAction_def]]
  obtain c t where
    t: "addActionTransaction E label command \<lparr>tsnap = kv w, twrites = [], tclock = c\<rparr> =
          (Inr a, t)"
    and j: "journal w' = journal w @ [twrites t]"
    by auto
  from addActionTransaction_Inr [OF t] j show ?thesis
    by simp blast
qed













section \<open>C7: the enumerations\<close>




section \<open>The transactions of an action declaration\<close>


definition output_step ::
  "env \<Rightarrow> actionCursor \<Rightarrow> string \<Rightarrow> svalue \<Rightarrow> artifactCursor \<Rightarrow> (bytes \<times> bytes) list \<Rightarrow> bool" where
  "output_step E act label key art tx \<longleftrightarrow>
     (\<exists>name kind v1 v2 v3.
        key = SString name \<and>
        art_value art = \<lparr>artifact_Label = label, artifact_Kind = kind\<rparr> \<and>
        artifactValue_Encode E \<lparr>artifact_Label = label, artifact_Kind = kind\<rparr> = Inr v1 \<and>
        actionOutputValue_Encode E \<lparr>output_Name = name\<rparr> = Inr v2 \<and>
        artifactProducerValue_Encode E \<lparr>producer_ActionID = actionCursor_Id act\<rparr> = Inr v3 \<and>
        tx = [(subspace_Pack artifact_subspace [EBytes (Rep_uuid (artifactCursor_Id art))], v1),
              (subspace_Pack output_subspace
                 [EBytes (Rep_uuid (actionCursor_Id act)),
                  EBytes (Rep_uuid (artifactCursor_Id art))], v2),
              (subspace_Pack producer_subspace
                 [EBytes (Rep_uuid (artifactCursor_Id art))], v3)])"

lemma db_Transact_journal:
  "db_Transact f w = (res, w') \<Longrightarrow>
   journal w' = journal w \<or> (\<exists>tx. journal w' = journal w @ [tx])"
  using db_Transact_cases [of f w res w'] by auto

lemma db_Transact_Inl_journal:
  "db_Transact f w = (Inl e, w') \<Longrightarrow> journal w' = journal w"
  using db_Transact_cases [of f w "Inl e" w'] by auto

lemma db_ReadTransact_journal:
  "db_ReadTransact f w = (res, w') \<Longrightarrow> journal w' = journal w"
  using db_ReadTransact_world [of f w] by simp

lemma GetArtifact_Inr:
  assumes "Graph_GetArtifact E aid w = (Inr art, w1)"
  shows "journal w1 = journal w \<and> artifactCursor_Id art = aid \<and>
         art_key art = \<lparr>artifact_id = aid\<rparr>"
proof -
  from db_ReadTransact_Inr [OF assms [unfolded Graph_GetArtifact_def]]
  have "artifactTransaction E aid (begin_txn w) = Inr art" .
  then have "artifactCursor_Id art = aid \<and> art_key art = \<lparr>artifact_id = aid\<rparr>"
    by (auto simp: artifactTransaction_eq artifactCursor_Id_def split: option.splits sum.splits)
  with db_ReadTransact_journal [OF assms [unfolded Graph_GetArtifact_def]] show ?thesis by simp
qed






text \<open>The loop over the outputs: exactly one transaction for each key, in order.\<close>

lemma action_outputs_journal:
  "action_outputs E act label outs keys d w = (Inr d', w') \<Longrightarrow>
   \<exists>arts txs. journal w' = journal w @ txs \<and> length arts = length keys \<and>
     list_all2 (\<lambda>ka tx. output_step E act label (fst ka) (snd ka) tx) (zip keys arts) txs \<and>
     d' = fold (\<lambda>ka. dict_SetKey (fst ka) (SString (uuid_String E (artifactCursor_Id (snd ka)))))
            (zip keys arts) d"
proof (induction keys arbitrary: d w)
  case Nil
  then show ?case by simp
next
  case (Cons key keys)
  from Cons.prems obtain name i art w1 where
    key: "key = SString name" and v: "map_of outs key = Some (SInt i)"
    and a: "actionCursor_AddOutput E act name label (word_of_int i) w = (Inr art, w1)"
    and r: "action_outputs E act label outs keys
              (dict_SetKey key (SString (uuid_String E (artifactCursor_Id art))) d) w1 =
             (Inr d', w')"
    by (auto simp: Let_def split: svalue.splits option.splits sum.splits prod.splits if_splits)
  from Cons.IH [OF r] obtain arts txs where
    j: "journal w' = journal w1 @ txs" and len: "length arts = length keys"
    and l: "list_all2 (\<lambda>ka tx. output_step E act label (fst ka) (snd ka) tx) (zip keys arts) txs"
    and d': "d' = fold (\<lambda>ka. dict_SetKey (fst ka)
                (SString (uuid_String E (artifactCursor_Id (snd ka)))))
              (zip keys arts)
              (dict_SetKey key (SString (uuid_String E (artifactCursor_Id art))) d)"
    by blast
  from AddOutput_Inr [OF a] key obtain tx where
    j1: "journal w1 = journal w @ [tx]" and s: "output_step E act label key art tx"
    by (auto simp: output_step_def)
  from j j1 have "journal w' = journal w @ (tx # txs)" by simp
  moreover from len have "length (art # arts) = length (key # keys)" by simp
  moreover from l s have
    "list_all2 (\<lambda>ka tx. output_step E act label (fst ka) (snd ka) tx)
       (zip (key # keys) (art # arts)) (tx # txs)"
    by simp
  moreover from d' have
    "d' = fold (\<lambda>ka. dict_SetKey (fst ka) (SString (uuid_String E (artifactCursor_Id (snd ka)))))
            (zip (key # keys) (art # arts)) d"
    by simp
  ultimately show ?case by blast
qed




text \<open>A dictionary argument that was not given has no entries.\<close>

definition dict_entries :: "(svalue \<times> svalue) list option \<Rightarrow> (svalue \<times> svalue) list" where
  "dict_entries d = (case d of None \<Rightarrow> [] | Some kvs \<Rightarrow> kvs)"

lemma action_eq:
  "action E [] label command inputs outputs w =
     (case Graph_AddAction E label command w of
        (Inl e, w1) \<Rightarrow> (Inl e, w1)
      | (Inr act, w1) \<Rightarrow>
          (case action_inputs E act (dict_entries inputs) (map fst (dict_entries inputs)) w1 of
             (Inl e, w2) \<Rightarrow> (Inl e, w2)
           | (Inr u, w2) \<Rightarrow>
               (case action_outputs E act label (dict_entries outputs)
                       (map fst (dict_entries outputs)) [] w2 of
                  (Inl e, w3) \<Rightarrow> (Inl e, w3)
                | (Inr d, w3) \<Rightarrow> (Inr (SStruct ''action'' [(''outputs'', SDict d)]), w3))))"
  by (cases inputs; cases outputs)
    (auto simp: action_def dict_entries_def split: prod.splits sum.splits)



section \<open>A run of the binding\<close>

text \<open>
  The second statement of the example workflow, on the instance of the parameters:
  the action \<open>Greet\<close> reads the artifact made by \<open>Save\<close> and makes one output.
\<close>

definition demo_text :: "nat \<Rightarrow> string" where
  "demo_text n = bytes_str (Rep_uuid (demo_id n))"



lemma byte_of_nat_unat_mod: "of_nat (unat a mod 256) = (a :: byte)"
proof -
  have "unat a < 2 ^ LENGTH(8)" by (rule unsigned_less)
  then have "unat a mod 256 = unat a" by simp
  then show ?thesis by simp
qed

lemma str_bytes_bytes_str: "str_bytes (bytes_str b) = b"
  by (induction b) (simp_all add: bytes_str_def str_bytes_def byte_of_nat_unat_mod)

lemma demo_Parse: "uuid_Parse demo_env (demo_text n) = Inr (demo_id n)"
  by (simp add: demo_env_sel demo_text_def str_bytes_bytes_str UnmarshalBinary_Rep)

lemma demo_String: "uuid_String demo_env (demo_id n) = demo_text n"
  by (simp add: demo_env_sel demo_text_def)






section \<open>C9: the error of AddInput is not looked at\<close>

text \<open>
  Claim C9. For every script-level \<open>action(...)\<close> call with \<open>inputs\<close>, a failure of
  \<open>AddInput\<close> when wiring an input edge does not abort the script statement and is not
  surfaced: the returned error of \<open>AddInput\<close> is discarded, so \<open>action()\<close> can return
  success even when an input edge and its consumer-index entry were never written.

  Let the action be created, the artifact of an input be found and \<open>AddInput\<close> fail on
  it. Then the failed call has committed nothing, the loop over the inputs goes on with
  the remaining keys as it would after a success, and a call whose only input is this
  one, with no outputs, returns its value; the journal then holds the action record
  and no edge.
\<close>

theorem AddInput_error_discarded:
  assumes "Graph_AddAction E label command w = (Inr act, w1)"
    and "uuid_Parse E s = Inr aid"
    and "Graph_GetArtifact E aid w1 = (Inr art, w2)"
    and "actionCursor_AddInput E act name art w2 = (Inl e, w3)"
  shows "journal w3 = journal w1 \<and>
         action_inputs E act ((SString name, SString s) # ins) (SString name # keys) w1 =
           action_inputs E act ((SString name, SString s) # ins) keys w3 \<and>
         action E [] label command (Some [(SString name, SString s)]) None w =
           (Inr (SStruct ''action'' [(''outputs'', SDict [])]), w3)"
proof -
  from assms(4) have "journal w3 = journal w2"
    by (auto simp: actionCursor_AddInput_def dest: db_Transact_Inl_journal)
  with GetArtifact_Inr [OF assms(3)] have "journal w3 = journal w1" by simp
  moreover from assms(2-4) have
    "action_inputs E act ((SString name, SString s) # ins) (SString name # keys) w1 =
       action_inputs E act ((SString name, SString s) # ins) keys w3"
    by simp
  moreover from assms have
    "action E [] label command (Some [(SString name, SString s)]) None w =
       (Inr (SStruct ''action'' [(''outputs'', SDict [])]), w3)"
    by (simp add: action_def)
  ultimately show ?thesis by blast
qed

definition demo_w2f :: world where
  "demo_w2f = demo_w2\<lparr>answers := [Committed, Committed, Failed]\<rparr>"

lemma demo_faults:
  "Graph_AddAction demo_env ''Greet'' ''cat'' demo_w2f =
     (Inr demo_ac2, demo_w3\<lparr>answers := [Committed, Failed]\<rparr>)"
  "Graph_GetArtifact demo_env (demo_id 1) (demo_w3\<lparr>answers := [Committed, Failed]\<rparr>) =
     (Inr demo_art1, demo_w3\<lparr>answers := [Failed]\<rparr>)"
  "actionCursor_AddInput demo_env demo_ac2 ''GREETING'' demo_art1 (demo_w3\<lparr>answers := [Failed]\<rparr>) =
     (Inl ErrStore, demo_w3)"
    apply (simp add: Graph_AddAction_def write_defs demo_defs demo_w2f_def)
   apply (simp add: Graph_GetArtifact_def db_ReadTransact.simps read_defs begin_txn_def demo_defs)
  apply (simp add: actionCursor_AddInput_def write_defs demo_defs)
  done

lemma demo_no_edge:
  "actionCursor_Inputs demo_env demo_ac2 demo_w3 = (Inr Map.empty, demo_w3)"
  "artifactCursor_Consumers demo_env demo_art1 demo_w3 = (Inr [], demo_w3)"
  by (simp_all add: actionCursor_Inputs_def artifactCursor_Consumers_def db_ReadTransact.simps
      read_defs begin_txn_def demo_defs cursor_defs)

theorem AddInput_error_discarded_witness:
  "Graph_AddAction demo_env ''Greet'' ''cat'' demo_w2f =
     (Inr demo_ac2, demo_w3\<lparr>answers := [Committed, Failed]\<rparr>) \<and>
   uuid_Parse demo_env (demo_text 1) = Inr (demo_id 1) \<and>
   Graph_GetArtifact demo_env (demo_id 1) (demo_w3\<lparr>answers := [Committed, Failed]\<rparr>) =
     (Inr demo_art1, demo_w3\<lparr>answers := [Failed]\<rparr>) \<and>
   actionCursor_AddInput demo_env demo_ac2 ''GREETING'' demo_art1
     (demo_w3\<lparr>answers := [Failed]\<rparr>) = (Inl ErrStore, demo_w3) \<and>
   action demo_env [] ''Greet'' ''cat'' (Some [(SString ''GREETING'', SString (demo_text 1))])
     None demo_w2f =
     (Inr (SStruct ''action'' [(''outputs'', SDict [])]), demo_w3) \<and>
   journal demo_w3 = journal demo_w2 @
     [[(subspace_Pack action_subspace [EBytes (Rep_uuid (demo_id 2))],
        put_str ''Greet'' @ 1 # put_str ''cat'')]] \<and>
   actionCursor_Inputs demo_env demo_ac2 demo_w3 = (Inr Map.empty, demo_w3) \<and>
   artifactCursor_Consumers demo_env demo_art1 demo_w3 = (Inr [], demo_w3)"
proof -
  from AddInput_error_discarded [OF demo_faults(1) demo_Parse demo_faults(2) demo_faults(3)]
  have "action demo_env [] ''Greet'' ''cat''
          (Some [(SString ''GREETING'', SString (demo_text 1))]) None demo_w2f =
        (Inr (SStruct ''action'' [(''outputs'', SDict [])]), demo_w3)"
    by blast
  moreover have "journal demo_w3 = journal demo_w2 @
     [[(subspace_Pack action_subspace [EBytes (Rep_uuid (demo_id 2))],
        put_str ''Greet'' @ 1 # put_str ''cat'')]]"
    by (simp add: demo_w3_def)
  ultimately show ?thesis
    using demo_faults demo_Parse [of 1] demo_no_edge by blast
qed

lemma output_step_label:
  "output_step E act label key art tx \<Longrightarrow> artifact_Label (art_value art) = label"
  by (auto simp: output_step_def)

lemma output_steps_label:
  assumes "list_all2 (\<lambda>ka tx. output_step E act label (fst ka) (snd ka) tx) (zip keys arts) txs"
    and "length arts = length keys"
  shows "list_all (\<lambda>art. artifact_Label (art_value art) = label) arts"
  unfolding list_all_length
proof (intro allI impI)
  fix i assume i: "i < length arts"
  with assms have "output_step E act label (fst (zip keys arts ! i)) (snd (zip keys arts ! i))
      (txs ! i)"
    by (simp add: list_all2_conv_all_nth)
  with i assms(2) show "artifact_Label (art_value (arts ! i)) = label"
    by (simp add: output_step_label)
qed

section \<open>C10: the label of an output artifact\<close>

text \<open>
  Claim C10. For every output entry declared in a script-level
  \<open>action(name, cmd, ..., outputs)\<close> call, the artifact created for it carries the
  enclosing action's name as its label, not the output's own name: the label argument
  passed to \<open>AddOutput\<close> is the action's name string.

  When the call returns a value, the action it created has the label \<open>label\<close>, and the
  journal ends with one transaction for each key of \<open>outputs\<close>, in order: the
  transaction of \<open>AddOutput\<close> for that key, which writes the record of a new artifact
  whose label is \<open>label\<close>, whatever the key. The value returned maps each key to the
  text of the identifier of its artifact.
\<close>

theorem output_label_is_action_name:
  assumes "action E args label command inputs (Some outs) w = (Inr res, w')"
  shows "\<exists>act w1 pre arts txs.
           Graph_AddAction E label command w = (Inr act, w1) \<and>
           action_Label (ac_value act) = label \<and>
           journal w' = pre @ txs \<and>
           length arts = length outs \<and>
           list_all2 (\<lambda>ka tx. output_step E act label (fst ka) (snd ka) tx)
             (zip (map fst outs) arts) txs \<and>
           list_all (\<lambda>art. artifact_Label (art_value art) = label) arts \<and>
           res = SStruct ''action''
                   [(''outputs'',
                     SDict (fold (\<lambda>ka. dict_SetKey (fst ka)
                                    (SString (uuid_String E (artifactCursor_Id (snd ka)))))
                              (zip (map fst outs) arts) []))]"
proof -
  from assms have args: "args = []"
    by (cases args) (simp_all add: action_def)
  from assms obtain act w1 where add: "Graph_AddAction E label command w = (Inr act, w1)"
    unfolding args action_eq by (auto split: prod.splits sum.splits)
  from assms add obtain u w2 where
    "action_inputs E act (dict_entries inputs) (map fst (dict_entries inputs)) w1 = (Inr u, w2)"
    unfolding args action_eq by (auto split: prod.splits sum.splits)
  with assms add obtain d where
    o: "action_outputs E act label outs (map fst outs) [] w2 = (Inr d, w')"
    and res: "res = SStruct ''action'' [(''outputs'', SDict d)]"
    unfolding args action_eq by (auto simp: dict_entries_def split: prod.splits sum.splits)
  from action_outputs_journal [OF o] obtain arts txs where
    j: "journal w' = journal w2 @ txs" and len: "length arts = length (map fst outs)"
    and l: "list_all2 (\<lambda>ka tx. output_step E act label (fst ka) (snd ka) tx)
              (zip (map fst outs) arts) txs"
    and d: "d = fold (\<lambda>ka. dict_SetKey (fst ka)
                        (SString (uuid_String E (artifactCursor_Id (snd ka)))))
                  (zip (map fst outs) arts) []"
    by blast
  from AddAction_Inr [OF add] obtain va c where
    "act = \<lparr>ac_key = \<lparr>action_id = actionCursor_Id act\<rparr>,
            ac_value = \<lparr>action_Label = label, action_Command = command\<rparr>\<rparr>"
    by blast
  then have "ac_value act = \<lparr>action_Label = label, action_Command = command\<rparr>"
    by (cases act) simp
  then have lab: "action_Label (ac_value act) = label" by simp
  from output_steps_label [OF l len]
  have all: "list_all (\<lambda>art. artifact_Label (art_value art) = label) arts" .
  from len have "length arts = length outs" by simp
  with add lab j l all res d show ?thesis by blast
qed

theorem output_label_is_action_name_witness:
  "action demo_env [] ''Save'' ''echo'' None (Some [(SString ''OUT'', SInt 0)]) world0 =
     (Inr (SStruct ''action'' [(''outputs'', SDict [(SString ''OUT'', SString (demo_text 1))])]),
      demo_w2) \<and>
   (\<exists>act w1 pre arts txs.
      Graph_AddAction demo_env ''Save'' ''echo'' world0 = (Inr act, w1) \<and>
      action_Label (ac_value act) = ''Save'' \<and>
      journal demo_w2 = pre @ txs \<and>
      length arts = length [(SString ''OUT'', SInt 0)] \<and>
      list_all2 (\<lambda>ka tx. output_step demo_env act ''Save'' (fst ka) (snd ka) tx)
        (zip (map fst [(SString ''OUT'', SInt 0)]) arts) txs \<and>
      list_all (\<lambda>art. artifact_Label (art_value art) = ''Save'') arts \<and>
      SStruct ''action'' [(''outputs'', SDict [(SString ''OUT'', SString (demo_text 1))])] =
        SStruct ''action''
          [(''outputs'',
            SDict (fold (\<lambda>ka. dict_SetKey (fst ka)
                           (SString (uuid_String demo_env (artifactCursor_Id (snd ka)))))
                     (zip (map fst [(SString ''OUT'', SInt 0)]) arts) []))]) \<and>
   Graph_GetArtifact demo_env (demo_id 1) demo_w2 = (Inr demo_art1, demo_w2) \<and>
   artifact_Label (art_value demo_art1) = ''Save''"
proof -
  have run: "action demo_env [] ''Save'' ''echo'' None (Some [(SString ''OUT'', SInt 0)]) world0 =
     (Inr (SStruct ''action'' [(''outputs'', SDict [(SString ''OUT'', SString (demo_text 1))])]),
      demo_w2)"
    by (simp add: action_def demo_AddAction demo_AddOutput ArtifactKindFile_def [symmetric]
        demo_String demo_art1_def cursor_defs del: One_nat_def)
  have get: "Graph_GetArtifact demo_env (demo_id 1) demo_w2 = (Inr demo_art1, demo_w2)"
    by (simp add: Graph_GetArtifact_def db_ReadTransact.simps read_defs begin_txn_def demo_defs)
  have lab: "artifact_Label (art_value demo_art1) = ''Save''"
    by (simp add: demo_art1_def)
  from output_label_is_action_name [OF run] run get lab show ?thesis
    by blast
qed

text \<open>
  Where a binding of \<open>Inputs\<close> comes from: an entry of the range of the action, whose
  key carries the identifier of the artifact.
\<close>

lemma inputs_loop_source_key:
  assumes "inputs_loop E t L m0 = Inr m" and "m n = Some a" and "m0 n \<noteq> Some a"
  shows "\<exists>kvp \<in> set L. \<exists>x.
           fst kvp = subspace_Pack input_subspace
             [EBytes (Rep_uuid x), EBytes (Rep_uuid (artifactCursor_Id a))]"
proof -
  from inputs_loop_source [OF assms(1,2)] assms(3) obtain kvp aik where
    "kvp \<in> set L" and d: "actionInputKey_Decode E (fst kvp) = Inr aik"
    and a: "artifactTransaction E (input_artifactID aik) t = Inr a"
    by blast
  with key_Decode_canonical(3) [OF d] artifactTransaction_Inr_Id [OF a] show ?thesis
    by auto
qed

lemma Inputs_after_AddInput_iff:
  assumes add: "actionCursor_AddInput E ac name art w = (Inr u, w')"
    and st: "stored_artifact E (kv w) art"
    and gob: "gob_roundtrip E"
    and before: "actionInputsTransaction E ac \<lparr>tsnap = kv w, twrites = [], tclock = 0\<rparr> = Inr m"
    and nf: "Failed \<notin> set (answers w')"
  shows "\<exists>m'. fst (actionCursor_Inputs E ac w') = Inr m' \<and>
           (m' name = Some art \<longleftrightarrow>
              (\<forall>art'. m name = Some art' \<longrightarrow>
                 Rep_uuid (artifactCursor_Id art') \<le> Rep_uuid (artifactCursor_Id art)))"
proof -
  define ik where "ik = subspace_Pack input_subspace
    [EBytes (Rep_uuid (actionCursor_Id ac)), EBytes (Rep_uuid (artifactCursor_Id art))]"
  define ck where "ck = subspace_Pack consumer_subspace
    [EBytes (Rep_uuid (artifactCursor_Id art)), EBytes (Rep_uuid (actionCursor_Id ac))]"
  define p where "p = subspace_Pack input_subspace [EBytes (Rep_uuid (actionCursor_Id ac))]"
  define t0 where "t0 = \<lparr>tsnap = kv w, twrites = [], tclock = 0\<rparr>"
  define K where "K = sort (remdups (filter (prefix p) (map fst (kv w))))"
  define A where "A = filter (\<lambda>k. k < ik) K"
  define X where "X = filter (\<lambda>k. k = ik) K"
  define B where "B = filter (\<lambda>k. ik < k) K"
  define g where "g = (\<lambda>k. (k, the (map_of (kv w) k)))"
  define g' where "g' = (\<lambda>k. (k, the (map_of (kv w') k)))"
  from AddInput_Inr [OF add] obtain iv where
    iv: "actionInputValue_Encode E \<lparr>input_Name = name\<rparr> = Inr iv"
    and j: "journal w' = journal w @ [[(ik, iv), (ck, [])]]"
    unfolding ik_def ck_def by blast
  have kv': "kv w' = (ck, []) # (ik, iv) # kv w"
    using kv_of_journal [OF j] by simp
  have t0kv: "txn_kv t0 = kv w" by (simp add: t0_def txn_kv_def)
  have arteq: "\<And>a. artifactTransaction E a (begin_txn w') = artifactTransaction E a t0"
    by (simp add: artifactTransaction_eq kv' t0kv ik_def ck_def subspace_Pack_neq)
  have ikpre: "prefix p ik" by (simp add: p_def ik_def prefix_key2)
  have ckpre: "\<not> prefix p ck" by (simp add: p_def ck_def subspace_prefix_neq)
  have ikck: "ik \<noteq> ck" by (simp add: ik_def ck_def subspace_Pack_neq)
  have K: "sorted K" "distinct K" by (simp_all add: K_def)
  have Ksplit: "K = A @ X @ B"
    unfolding A_def X_def B_def by (rule sorted_distinct_split [OF K])
  have K'split: "sort (remdups (filter (prefix p) (map fst (kv w')))) = A @ [ik] @ B"
    using sort_remdups_insert [of ik "filter (prefix p) (map fst (kv w))"]
    by (simp add: kv' ikpre ckpre A_def B_def K_def)
  have Kpre: "\<And>k. k \<in> set K \<Longrightarrow> prefix p k" by (auto simp: K_def)
  have gg': "\<And>k. k \<in> set K \<Longrightarrow> k \<noteq> ik \<Longrightarrow> g' k = g k"
    using Kpre ckpre by (auto simp: g_def g'_def kv')
  have gA: "map g' A = map g A" by (rule map_cong) (auto simp: A_def intro: gg')
  have gB: "map g' B = map g B" by (rule map_cong) (auto simp: B_def intro: gg')
  have gik: "g' ik = (ik, iv)" using ikck by (simp add: g'_def kv')
  have new: "scan p (kv w') = map g A @ [(ik, iv)] @ map g B"
    unfolding scan_def K'split using gA gB gik by (simp add: g'_def)
  have old: "scan p (kv w) = map g A @ map g X @ map g B"
    unfolding scan_def using Ksplit by (simp add: g_def K_def [symmetric] del: map_append) (metis map_append)
  from before have run: "inputs_loop E t0 (map g A @ map g X @ map g B) Map.empty = Inr m"
    by (simp add: actionInputsTransaction_eq t0kv p_def [symmetric] t0_def [symmetric] old)
  then obtain mA where mA: "inputs_loop E t0 (map g A) Map.empty = Inr mA"
    by (auto simp: inputs_loop_append split: sum.splits)
  with run obtain mX where mX: "inputs_loop E t0 (map g X) mA = Inr mX"
    by (auto simp: inputs_loop_append split: sum.splits)
  with run mA have mB: "inputs_loop E t0 (map g B) mX = Inr m"
    by (auto simp: inputs_loop_append split: sum.splits)
  have ikdec: "actionInputKey_Decode E ik =
      Inr \<lparr>input_actionID = actionCursor_Id ac, input_artifactID = artifactCursor_Id art\<rparr>"
    by (rule actionInputKey_roundtrip) (simp add: key_Encode_eq ik_def)
  have ivdec: "actionInputValue_Decode E iv = Inr \<lparr>input_Name = name\<rparr>"
    using gob iv
    by (auto simp: gob_roundtrip_def actionInputValue_Encode_def actionInputValue_Decode_def
        split: sum.splits)
  have artres: "artifactTransaction E (artifactCursor_Id art) t0 = Inr art"
    using st by (simp add: stored_artifact_def t0_def)
  from inputs_loop_two [OF mB, of "mA(name \<mapsto> art)" name] obtain m' where
    m': "inputs_loop E t0 (map g B) (mA(name \<mapsto> art)) = Inr m'"
    and c: "(\<exists>a. m' name = Some a \<and> m name = Some a) \<or>
            m' name = (mA(name \<mapsto> art)) name \<and> m name = mX name"
    by blast
  have keyid: "\<exists>x. k = subspace_Pack input_subspace
      [EBytes (Rep_uuid (actionCursor_Id ac)), EBytes (Rep_uuid x)] \<and>
      (k < ik \<longleftrightarrow> Rep_uuid x < Rep_uuid (artifactCursor_Id art)) \<and>
      (ik < k \<longleftrightarrow> Rep_uuid (artifactCursor_Id art) < Rep_uuid x) \<and>
      (k = ik \<longleftrightarrow> x = artifactCursor_Id art)"
    if "k \<in> set K" and "k = subspace_Pack input_subspace [EBytes (Rep_uuid y), EBytes (Rep_uuid x)]"
    for k x y
  proof -
    from Kpre [OF that(1)] that(2) have "y = actionCursor_Id ac"
      by (simp add: p_def uuid_prefix_key2)
    with that(2) show ?thesis
      by (auto simp: ik_def key2_less Rep_uuid_inject)
  qed
  have fromA: "Rep_uuid (artifactCursor_Id a) < Rep_uuid (artifactCursor_Id art)"
    if "mA name = Some a" for a
  proof -
    from inputs_loop_source_key [OF mA that] obtain k x where
      "k \<in> set A" "k = subspace_Pack input_subspace
         [EBytes (Rep_uuid x), EBytes (Rep_uuid (artifactCursor_Id a))]"
      by (auto simp: g_def)
    with keyid [of k x "artifactCursor_Id a"] show ?thesis
      by (auto simp: A_def)
  qed
  have fromX: "Rep_uuid (artifactCursor_Id a) \<le> Rep_uuid (artifactCursor_Id art)"
    if "mX name = Some a" for a
  proof (cases "mA name = Some a")
    case True
    with fromA show ?thesis by (simp add: less_imp_le)
  next
    case False
    from inputs_loop_source_key [OF mX that False] obtain k x where
      "k \<in> set X" "k = subspace_Pack input_subspace
         [EBytes (Rep_uuid x), EBytes (Rep_uuid (artifactCursor_Id a))]"
      by (auto simp: g_def)
    with keyid [of k x "artifactCursor_Id a"] show ?thesis
      by (auto simp: X_def)
  qed
  have fromB: "Rep_uuid (artifactCursor_Id art) < Rep_uuid (artifactCursor_Id a)"
    if "m' name = Some a" and "a \<noteq> art" for a
  proof -
    from that have "(mA(name \<mapsto> art)) name \<noteq> Some a" by simp
    from inputs_loop_source_key [OF m' that(1) this] obtain k x where
      "k \<in> set B" "k = subspace_Pack input_subspace
         [EBytes (Rep_uuid x), EBytes (Rep_uuid (artifactCursor_Id a))]"
      by (auto simp: g_def)
    with keyid [of k x "artifactCursor_Id a"] show ?thesis
      by (auto simp: B_def)
  qed
  have iff: "m' name = Some art \<longleftrightarrow>
      (\<forall>art'. m name = Some art' \<longrightarrow>
         Rep_uuid (artifactCursor_Id art') \<le> Rep_uuid (artifactCursor_Id art))"
  proof
    assume r: "m' name = Some art"
    show "\<forall>art'. m name = Some art' \<longrightarrow>
        Rep_uuid (artifactCursor_Id art') \<le> Rep_uuid (artifactCursor_Id art)"
    proof (intro allI impI)
      fix art' assume h: "m name = Some art'"
      from c show "Rep_uuid (artifactCursor_Id art') \<le> Rep_uuid (artifactCursor_Id art)"
      proof
        assume "\<exists>a. m' name = Some a \<and> m name = Some a"
        with r h have "art' = art" by auto
        then show ?thesis by simp
      next
        assume "m' name = (mA(name \<mapsto> art)) name \<and> m name = mX name"
        with h have "mX name = Some art'" by simp
        then show ?thesis by (rule fromX)
      qed
    qed
  next
    assume h: "\<forall>art'. m name = Some art' \<longrightarrow>
        Rep_uuid (artifactCursor_Id art') \<le> Rep_uuid (artifactCursor_Id art)"
    from c show "m' name = Some art"
    proof
      assume "\<exists>a. m' name = Some a \<and> m name = Some a"
      then obtain a where a: "m' name = Some a" "m name = Some a" by blast
      with h have le: "Rep_uuid (artifactCursor_Id a) \<le> Rep_uuid (artifactCursor_Id art)"
        by blast
      show ?thesis
      proof (cases "a = art")
        case True
        with a show ?thesis by simp
      next
        case False
        from fromB [OF a(1) False] le show ?thesis by simp
      qed
    next
      assume "m' name = (mA(name \<mapsto> art)) name \<and> m name = mX name"
      then show ?thesis by simp
    qed
  qed
  have "inputs_loop E t0 (scan p (kv w')) Map.empty = Inr m'"
    unfolding new using mA m' ikdec ivdec artres by (simp add: inputs_loop_append)
  then have "actionInputsTransaction E ac (begin_txn w') = Inr m'"
    using inputs_loop_cong [of E "begin_txn w'" t0, OF arteq]
    by (simp add: actionInputsTransaction_eq p_def)
  with iff show ?thesis
    using db_ReadTransact_no_failure [OF nf, of "actionInputsTransaction E ac"]
    by (simp add: actionCursor_Inputs_def)
qed


definition cy_w4 :: world where
  "cy_w4 =
     cx_w3\<lparr>journal := journal cx_w3 @
             [[(subspace_Pack input_subspace
                  [EBytes (Rep_uuid (demo_id 0)), EBytes (Rep_uuid (demo_id 1))],
                put_str ''X''),
               (subspace_Pack consumer_subspace
                  [EBytes (Rep_uuid (demo_id 1)), EBytes (Rep_uuid (demo_id 0))], [])]]\<rparr>"

definition cy_w5 :: world where
  "cy_w5 =
     cy_w4\<lparr>journal := journal cy_w4 @
             [[(subspace_Pack input_subspace
                  [EBytes (Rep_uuid (demo_id 0)), EBytes (Rep_uuid (demo_id 2))],
                put_str ''X''),
               (subspace_Pack consumer_subspace
                  [EBytes (Rep_uuid (demo_id 2)), EBytes (Rep_uuid (demo_id 0))], [])]]\<rparr>"

lemma cy_steps:
  "actionCursor_AddInput demo_env cx_ac ''X'' cx_art1 cx_w3 = (Inr (), cy_w4)"
  "actionCursor_AddInput demo_env cx_ac ''X'' cx_art2 cy_w4 = (Inr (), cy_w5)"
  by (simp_all add: actionCursor_AddInput_def write_defs cx_defs cy_w4_def cy_w5_def)

lemma cy_before:
  "stored_action demo_env (kv cy_w4) cx_ac"
  "stored_artifact demo_env (kv cy_w4) cx_art2"
  "artifactConsumersTransaction demo_env cx_art2
     \<lparr>tsnap = kv cy_w4, twrites = [], tclock = 0\<rparr> = Inr []"
  "actionInputsTransaction demo_env cx_ac
     \<lparr>tsnap = kv cy_w4, twrites = [], tclock = 0\<rparr> = Inr [''X'' \<mapsto> cx_art1]"
  by (simp_all add: stored_action_def stored_artifact_def read_defs cx_defs cy_w4_def cursor_defs)

section \<open>C3, amended\<close>

text \<open>
  Claim C3, amended. For every (action, artifact) pair wired by a successful
  \<open>AddInput\<close> with some name, where the action and the artifact are in the store,
  gob round-trips, the two enumerations succeed before the call and the store does
  not fail them after it: \<open>Consumers(artifact)\<close> afterwards contains the action, and
  \<open>Inputs(action)\<close> afterwards maps the name to the artifact exactly when, before the
  call, \<open>Inputs(action)\<close> did not map the name to an artifact with a greater
  identifier, that is, when no other edge of the action with that name has a greater
  artifact identifier.
\<close>

theorem AddInput_wires:
  assumes "actionCursor_AddInput E ac name art w = (Inr u, w')"
    and "stored_action E (kv w) ac"
    and "stored_artifact E (kv w) art"
    and "gob_roundtrip E"
    and "artifactConsumersTransaction E art \<lparr>tsnap = kv w, twrites = [], tclock = 0\<rparr> = Inr cs"
    and "actionInputsTransaction E ac \<lparr>tsnap = kv w, twrites = [], tclock = 0\<rparr> = Inr m"
    and "Failed \<notin> set (answers w')"
  shows "(\<exists>cs'. fst (artifactCursor_Consumers E art w') = Inr cs' \<and> ac \<in> set cs') \<and>
         (\<exists>m'. fst (actionCursor_Inputs E ac w') = Inr m' \<and>
            (m' name = Some art \<longleftrightarrow>
               (\<forall>art'. m name = Some art' \<longrightarrow>
                  Rep_uuid (artifactCursor_Id art') \<le> Rep_uuid (artifactCursor_Id art))))"
  using Consumers_after_AddInput [OF assms(1,2,5,7)]
    Inputs_after_AddInput_iff [OF assms(1,3,4,6,7)]
  by blast

theorem AddInput_wires_witness:
  "actionCursor_AddInput demo_env cx_ac ''X'' cx_art2 cy_w4 = (Inr (), cy_w5) \<and>
   stored_action demo_env (kv cy_w4) cx_ac \<and>
   stored_artifact demo_env (kv cy_w4) cx_art2 \<and>
   gob_roundtrip demo_env \<and>
   artifactConsumersTransaction demo_env cx_art2
     \<lparr>tsnap = kv cy_w4, twrites = [], tclock = 0\<rparr> = Inr [] \<and>
   actionInputsTransaction demo_env cx_ac
     \<lparr>tsnap = kv cy_w4, twrites = [], tclock = 0\<rparr> = Inr [''X'' \<mapsto> cx_art1] \<and>
   Rep_uuid (artifactCursor_Id cx_art1) \<le> Rep_uuid (artifactCursor_Id cx_art2) \<and>
   cx_art1 \<noteq> cx_art2 \<and>
   Failed \<notin> set (answers cy_w5) \<and>
   (\<exists>cs'. fst (artifactCursor_Consumers demo_env cx_art2 cy_w5) = Inr cs' \<and> cx_ac \<in> set cs') \<and>
   (\<exists>m'. fst (actionCursor_Inputs demo_env cx_ac cy_w5) = Inr m' \<and> m' ''X'' = Some cx_art2)"
proof -
  have nf: "Failed \<notin> set (answers cy_w5)" by (simp add: cx_defs cy_w4_def cy_w5_def)
  have le: "Rep_uuid (artifactCursor_Id cx_art1) \<le> Rep_uuid (artifactCursor_Id cx_art2)"
    by (simp add: cx_defs cursor_defs Rep_demo_id_less)
  have ne: "cx_art1 \<noteq> cx_art2" by (simp add: cx_defs)
  from le have "\<forall>art'. [''X'' \<mapsto> cx_art1] ''X'' = Some art' \<longrightarrow>
      Rep_uuid (artifactCursor_Id art') \<le> Rep_uuid (artifactCursor_Id cx_art2)"
    by simp
  with AddInput_wires [OF cy_steps(2) cy_before(1,2) gob_roundtrip_demo_env cy_before(3,4) nf]
  have "(\<exists>cs'. fst (artifactCursor_Consumers demo_env cx_art2 cy_w5) = Inr cs' \<and>
           cx_ac \<in> set cs') \<and>
        (\<exists>m'. fst (actionCursor_Inputs demo_env cx_ac cy_w5) = Inr m' \<and> m' ''X'' = Some cx_art2)"
    by blast
  with cy_steps(2) cy_before gob_roundtrip_demo_env le ne nf show ?thesis
    by blast
qed

section \<open>An action declaration when the store and the libraries do not fail\<close>














section \<open>C6: the steps of an action declaration\<close>




end
